(* ===== verification/Prelude.thy ===== *)
theory Prelude
  imports Main "HOL-Library.Word"
begin

text \<open>
  Shared vocabulary of the development: bytes, the result type every fallible function of
  the daemon returns, the Rust combinators on it, and the generic facts about lists and
  results the component theories rest on.
\<close>

subsection \<open>Types\<close>

type_synonym byte = "8 word"
type_synonym bytes = "byte list"
type_synonym u16 = "16 word"
type_synonym i16 = "16 word"
type_synonym u32 = "32 word"
type_synonym u64 = "64 word"

text \<open>
  An \<open>anyhow::Error\<close> is the chain of its messages, outermost context first; a Rust
  \<open>String\<close> is the list of its UTF-8 bytes as characters.
\<close>

type_synonym error = "string list"
type_synonym 'a result = "error + 'a"

named_theorems result_simps \<open>evaluation of the result combinators\<close>
named_theorems layout_simps \<open>lengths and contents of byte layouts\<close>

subsection \<open>Results\<close>

abbreviation Ok :: "'a \<Rightarrow> 'a result" where
  "Ok x \<equiv> Inr x"

abbreviation bail :: "string \<Rightarrow> 'a result" where
  "bail message \<equiv> Inl [message]"

text \<open>The \<open>?\<close> operator: continue with the value, or return the error unchanged.\<close>

fun tryR :: "'a result \<Rightarrow> ('a \<Rightarrow> 'b result) \<Rightarrow> 'b result" where
  "tryR (Inl e) f = Inl e"
| "tryR (Inr x) f = f x"

text \<open>\<open>Context::context\<close> on a result and on an option.\<close>

fun with_context :: "string \<Rightarrow> 'a result \<Rightarrow> 'a result" where
  "with_context message (Inl e) = Inl (message # e)"
| "with_context message (Inr x) = Inr x"

fun ok_or :: "string \<Rightarrow> 'a option \<Rightarrow> 'a result" where
  "ok_or message None = Inl [message]"
| "ok_or message (Some x) = Inr x"

fun result_ok :: "'a result \<Rightarrow> 'a option" where
  "result_ok (Inl e) = None"
| "result_ok (Inr x) = Some x"

fun is_err :: "'a result \<Rightarrow> bool" where
  "is_err (Inl e) \<longleftrightarrow> True"
| "is_err (Inr x) \<longleftrightarrow> False"

text \<open>\<open>format!("{error:#}")\<close>: the chain joined with colons.\<close>

fun display_chain :: "error \<Rightarrow> string" where
  "display_chain [] = ''''"
| "display_chain [m] = m"
| "display_chain (m # ms) = m @ '': '' @ display_chain ms"

lemma tryR_Inr_iff [result_simps]:
  "tryR m f = Inr y \<longleftrightarrow> (\<exists>x. m = Inr x \<and> f x = Inr y)"
  by (cases m) auto

lemma tryR_Inl_iff [result_simps]:
  "tryR m f = Inl e \<longleftrightarrow> m = Inl e \<or> (\<exists>x. m = Inr x \<and> f x = Inl e)"
  by (cases m) auto

lemma with_context_Inr_iff [result_simps]:
  "with_context c m = Inr x \<longleftrightarrow> m = Inr x"
  by (cases m) auto

lemma with_context_Inl_iff [result_simps]:
  "with_context c m = Inl e \<longleftrightarrow> (\<exists>e'. m = Inl e' \<and> e = c # e')"
  by (cases m) auto

lemma ok_or_Inr_iff [result_simps]: "ok_or c m = Inr x \<longleftrightarrow> m = Some x"
  by (cases m) auto

lemma ok_or_Inl_iff [result_simps]: "ok_or c m = Inl e \<longleftrightarrow> m = None \<and> e = [c]"
  by (cases m) auto

lemma is_err_iff [result_simps]: "is_err m \<longleftrightarrow> (\<exists>e. m = Inl e)"
  by (cases m) auto

lemma result_ok_Some_iff [result_simps]: "result_ok m = Some x \<longleftrightarrow> m = Inr x"
  by (cases m) auto

lemma result_ok_None_iff [result_simps]: "result_ok m = None \<longleftrightarrow> (\<exists>e. m = Inl e)"
  by (cases m) auto

subsection \<open>Strings as bytes\<close>

text \<open>\<open>str::as_bytes\<close>.\<close>

definition as_bytes :: "string \<Rightarrow> bytes" where
  "as_bytes s = map of_char s"

lemma of_char_byte_eq_iff [simp]: "(of_char c :: byte) = of_char d \<longleftrightarrow> c = d"
proof
  assume "(of_char c :: byte) = of_char d"
  then have "unat (of_char c :: byte) = unat (of_char d :: byte)"
    by simp
  moreover have "unat (of_char e :: byte) = of_char e" for e
  proof -
    have "(of_char e :: byte) = of_nat (of_char e)"
      by (simp add: of_nat_of_char)
    moreover have "(of_char e :: nat) < 256"
      by (metis of_char_mod_256 mod_less_divisor zero_less_numeral)
    ultimately show ?thesis
      by (simp add: unat_of_nat)
  qed
  ultimately show "c = d"
    by (metis of_char_eq_iff)
qed simp

lemma inj_as_bytes: "as_bytes s = as_bytes t \<longleftrightarrow> s = t"
proof -
  have "inj (of_char :: char \<Rightarrow> byte)"
    by (rule injI) simp
  then show ?thesis
    by (simp add: as_bytes_def inj_map_eq_map)
qed

lemma length_as_bytes [layout_simps]: "length (as_bytes s) = length s"
  by (simp add: as_bytes_def)

subsection \<open>Machine sizes\<close>

lemma unat_byte_less [simp]: "unat (b :: byte) < 256"
  using unsigned_less [of b, where ?'a = nat] by simp

text \<open>\<open>usize::checked_add\<close> on a 64-bit target, and \<open>u16::try_from(usize)\<close>.\<close>

definition usize_checked_add :: "nat \<Rightarrow> nat \<Rightarrow> nat option" where
  "usize_checked_add a b = (if a + b < 2 ^ 64 then Some (a + b) else None)"

definition u16_try_from :: "nat \<Rightarrow> u16 result" where
  "u16_try_from n =
     (if n < 2 ^ 16 then Inr (of_nat n)
      else bail ''out of range integral type conversion attempted'')"

lemma u16_try_from_Inr_iff:
  "u16_try_from n = Inr w \<longleftrightarrow> n < 65536 \<and> w = of_nat n"
  by (auto simp: u16_try_from_def)

lemma unat_of_nat_u16 [simp]: "n < 65536 \<Longrightarrow> unat (of_nat n :: u16) = n"
  by (simp add: unat_of_nat)

lemma unat_of_nat_u32: "n < 2 ^ 32 \<Longrightarrow> unat (of_nat n :: u32) = n"
proof -
  assume "n < 2 ^ 32"
  then have "take_bit 32 n = n" by (rule take_bit_nat_eq_self)
  then show ?thesis by (simp add: unsigned_of_nat)
qed

subsection \<open>Lists\<close>

text \<open>\<open>slice::get\<close> with an index.\<close>

definition list_get :: "'a list \<Rightarrow> nat \<Rightarrow> 'a option" where
  "list_get xs i = (if i < length xs then Some (xs ! i) else None)"

lemma list_get_append_exact [layout_simps]:
  "length xs = n \<Longrightarrow> list_get (xs @ y # ys) n = Some y"
  by (auto simp: list_get_def nth_append)

text \<open>\<open>Iterator::filter_map\<close>.\<close>

fun filter_map :: "('a \<Rightarrow> 'b option) \<Rightarrow> 'a list \<Rightarrow> 'b list" where
  "filter_map f [] = []"
| "filter_map f (x # xs) = (case f x of None \<Rightarrow> filter_map f xs | Some y \<Rightarrow> y # filter_map f xs)"

lemma set_filter_map: "set (filter_map f xs) = {y. \<exists>x \<in> set xs. f x = Some y}"
  by (induction xs) (auto split: option.splits)

lemma filter_map_append: "filter_map f (xs @ ys) = filter_map f xs @ filter_map f ys"
  by (induction xs) (auto split: option.splits)

lemma take_append_exact [layout_simps]: "length xs = n \<Longrightarrow> take n (xs @ ys) = xs"
  by simp

lemma drop_append_exact [layout_simps]: "length xs = n \<Longrightarrow> drop n (xs @ ys) = ys"
  by simp

text \<open>\<open>slice::chunks\<close>, for a positive width, and \<open>join\<close>.\<close>

function chunks :: "nat \<Rightarrow> 'a list \<Rightarrow> 'a list list" where
  "chunks n xs = (if n = 0 \<or> xs = [] then [] else take n xs # chunks n (drop n xs))"
  by pat_completeness auto
termination
  by (relation "measure (\<lambda>(n, xs). length xs)") auto

declare chunks.simps [simp del]

lemma chunks_Nil [simp]: "chunks n [] = []"
  by (simp add: chunks.simps)

lemma chunks_step: "0 < n \<Longrightarrow> xs \<noteq> [] \<Longrightarrow> chunks n xs = take n xs # chunks n (drop n xs)"
  by (subst chunks.simps) simp

fun join :: "string \<Rightarrow> string list \<Rightarrow> string" where
  "join sep [] = ''''"
| "join sep [x] = x"
| "join sep (x # xs) = x @ sep @ join sep xs"

end
