(* ===== verification/RustStd.thy ===== *)
theory RustStd
  imports Prelude
begin

text \<open>
  The parts of the Rust standard library the daemon uses on text: line reading, trimming,
  number formatting and parsing, and file names. Strings are lists of UTF-8 bytes, so the
  white space of \<open>str::trim\<close> is given by its UTF-8 encodings.
\<close>

type_synonym path = string

abbreviation code :: "char \<Rightarrow> nat" where
  "code c \<equiv> of_char c"

definition newline :: char where
  "newline = CHR 0x0A"

subsection \<open>UTF-8\<close>

definition tail_byte :: "nat \<Rightarrow> bool" where
  "tail_byte b \<longleftrightarrow> 0x80 \<le> b \<and> b \<le> 0xBF"

definition utf8_second :: "nat \<Rightarrow> nat \<Rightarrow> bool" where
  "utf8_second a b \<longleftrightarrow> tail_byte b \<and> (a = 0xE0 \<longrightarrow> 0xA0 \<le> b) \<and> (a = 0xED \<longrightarrow> b \<le> 0x9F)
     \<and> (a = 0xF0 \<longrightarrow> 0x90 \<le> b) \<and> (a = 0xF4 \<longrightarrow> b \<le> 0x8F)"

fun utf8_valid :: "nat list \<Rightarrow> bool" where
  "utf8_valid [] \<longleftrightarrow> True"
| "utf8_valid (a # r) \<longleftrightarrow>
     (if a < 0x80 then utf8_valid r
      else if 0xC2 \<le> a \<and> a \<le> 0xDF then
        (case r of b # r' \<Rightarrow> tail_byte b \<and> utf8_valid r' | _ \<Rightarrow> False)
      else if 0xE0 \<le> a \<and> a \<le> 0xEF then
        (case r of b # c # r' \<Rightarrow> utf8_second a b \<and> tail_byte c \<and> utf8_valid r' | _ \<Rightarrow> False)
      else if 0xF0 \<le> a \<and> a \<le> 0xF4 then
        (case r of b # c # d # r' \<Rightarrow>
           utf8_second a b \<and> tail_byte c \<and> tail_byte d \<and> utf8_valid r' | _ \<Rightarrow> False)
      else False)"

subsection \<open>Lines and trimming\<close>

text \<open>
  \<open>read_line\<close>: the bytes up to and including the first newline, or all of them at end of
  file, and what is left; an error when those bytes are not UTF-8.
\<close>

definition read_line :: "string \<Rightarrow> string result \<times> string" where
  "read_line s =
     (let body = takeWhile (\<lambda>c. c \<noteq> newline) s;
          rest = dropWhile (\<lambda>c. c \<noteq> newline) s;
          line = body @ take 1 rest
      in (if utf8_valid (map code line) then Inr line
          else bail ''stream did not contain valid UTF-8'', drop 1 rest))"

definition ascii_space :: "nat \<Rightarrow> bool" where
  "ascii_space a \<longleftrightarrow> (9 \<le> a \<and> a \<le> 13) \<or> a = 32"

definition space2 :: "nat \<Rightarrow> nat \<Rightarrow> bool" where
  "space2 a b \<longleftrightarrow> a = 0xC2 \<and> (b = 0x85 \<or> b = 0xA0)"

definition space3 :: "nat \<Rightarrow> nat \<Rightarrow> nat \<Rightarrow> bool" where
  "space3 a b c \<longleftrightarrow>
     (a = 0xE1 \<and> b = 0x9A \<and> c = 0x80)
     \<or> (a = 0xE2 \<and> b = 0x80 \<and> ((0x80 \<le> c \<and> c \<le> 0x8A) \<or> c = 0xA8 \<or> c = 0xA9 \<or> c = 0xAF))
     \<or> (a = 0xE2 \<and> b = 0x81 \<and> c = 0x9F)
     \<or> (a = 0xE3 \<and> b = 0x80 \<and> c = 0x80)"

text \<open>The width in bytes of the white space a text starts or ends with, 0 for none.\<close>

fun space_at_start :: "nat list \<Rightarrow> nat" where
  "space_at_start (a # r) =
     (if ascii_space a then 1
      else case r of
        b # r' \<Rightarrow> (if space2 a b then 2
                   else case r' of c # _ \<Rightarrow> (if space3 a b c then 3 else 0) | [] \<Rightarrow> 0)
      | [] \<Rightarrow> 0)"
| "space_at_start [] = 0"

fun space_at_end :: "nat list \<Rightarrow> nat" where
  "space_at_end (c # r) =
     (if ascii_space c then 1
      else case r of
        b # r' \<Rightarrow> (if space2 b c then 2
                   else case r' of a # _ \<Rightarrow> (if space3 a b c then 3 else 0) | [] \<Rightarrow> 0)
      | [] \<Rightarrow> 0)"
| "space_at_end [] = 0"

text \<open>\<open>space_at_end\<close> reads the text from its last byte backwards.\<close>

function trim_from :: "(nat list \<Rightarrow> nat) \<Rightarrow> string \<Rightarrow> string" where
  "trim_from w s =
     (if s \<noteq> [] \<and> w (map code s) \<noteq> 0 then trim_from w (drop (w (map code s)) s) else s)"
  by pat_completeness auto
termination
  by (relation "measure (\<lambda>(w, s). length s)") auto

declare trim_from.simps [simp del]

definition trim :: "string \<Rightarrow> string" where
  "trim s = rev (trim_from space_at_end (rev (trim_from space_at_start s)))"

lemma trim_from_stop: "w (map code s) = 0 \<Longrightarrow> trim_from w s = s"
  by (subst trim_from.simps) simp

lemma trim_from_step:
  "s \<noteq> [] \<Longrightarrow> w (map code s) \<noteq> 0 \<Longrightarrow> trim_from w s = trim_from w (drop (w (map code s)) s)"
  by (subst trim_from.simps) simp

text \<open>A text that starts and ends with braces, and the same text as a line.\<close>

definition braced :: "string \<Rightarrow> bool" where
  "braced s \<longleftrightarrow> (\<exists>m. s = ''{'' @ m @ ''}'')"

lemma trim_braced [simp]: "braced s \<Longrightarrow> trim s = s"
  by (auto simp: braced_def trim_def trim_from_stop ascii_space_def space2_def space3_def
      split: list.splits)

lemma trim_braced_line [simp]: "braced s \<Longrightarrow> trim (s @ [newline]) = s"
  by (auto simp: braced_def trim_def trim_from_stop trim_from_step newline_def
      ascii_space_def space2_def space3_def split: list.splits)

lemma read_line_one:
  assumes "newline \<notin> set s"
  shows "read_line (s @ newline # rest) =
    (if utf8_valid (map code (s @ [newline])) then Inr (s @ [newline])
     else bail ''stream did not contain valid UTF-8'', rest)"
proof -
  have "takeWhile (\<lambda>c. c \<noteq> newline) (s @ newline # rest) = s"
    by (subst takeWhile_append2) (use assms in auto)
  moreover have "dropWhile (\<lambda>c. c \<noteq> newline) (s @ newline # rest) = newline # rest"
    by (subst dropWhile_append2) (use assms in auto)
  ultimately show ?thesis
    by (simp add: read_line_def)
qed

lemma read_line_shorter:
  assumes "(line, rest) = read_line s" and "s \<noteq> []"
  shows "length rest < length s"
proof -
  have "rest = drop 1 (dropWhile (\<lambda>c. c \<noteq> newline) s)"
    using assms(1) by (simp add: read_line_def Let_def)
  then have "length rest = length (dropWhile (\<lambda>c. c \<noteq> newline) s) - 1" by simp
  moreover have "0 < length s" using assms(2) by simp
  ultimately show ?thesis
    using length_dropWhile_le [of "\<lambda>c. c \<noteq> newline" s] by linarith
qed

subsection \<open>Numbers as text\<close>

definition digit :: "nat \<Rightarrow> char" where
  "digit d = char_of (48 + d)"

fun decimal :: "nat \<Rightarrow> string" where
  "decimal n = (if n < 10 then [digit n] else decimal (n div 10) @ [digit (n mod 10)])"

declare decimal.simps [simp del]

text \<open>\<open>format!("{:0w}")\<close>.\<close>

definition decimal_width :: "nat \<Rightarrow> nat \<Rightarrow> string" where
  "decimal_width w n = replicate (w - length (decimal n)) (CHR ''0'') @ decimal n"

definition hex_digit :: "nat \<Rightarrow> char" where
  "hex_digit d = char_of (if d < 10 then 48 + d else 87 + d)"

text \<open>\<open>format!("{:02x}")\<close> of a byte, and \<open>to_uppercase\<close> on the text it gives.\<close>

definition hex_byte :: "byte \<Rightarrow> string" where
  "hex_byte b = [hex_digit (unat b div 16), hex_digit (unat b mod 16)]"

definition ascii_uppercase :: "char \<Rightarrow> char" where
  "ascii_uppercase c = (if 97 \<le> code c \<and> code c \<le> 122 then char_of (code c - 32) else c)"

definition ascii_digit :: "char \<Rightarrow> bool" where
  "ascii_digit c \<longleftrightarrow> 48 \<le> code c \<and> code c \<le> 57"

definition ascii_alphanumeric :: "char \<Rightarrow> bool" where
  "ascii_alphanumeric c \<longleftrightarrow> ascii_digit c \<or> (65 \<le> code c \<and> code c \<le> 90)
     \<or> (97 \<le> code c \<and> code c \<le> 122)"

lemma code_char_of [simp]: "n < 256 \<Longrightarrow> code (char_of n) = n"
  by simp

lemma decimal_small: "n < 10 \<Longrightarrow> decimal n = [digit n]"
  by (subst decimal.simps) simp

lemma decimal_step: "10 \<le> n \<Longrightarrow> decimal n = decimal (n div 10) @ [digit (n mod 10)]"
  by (subst decimal.simps) simp

lemma decimal_digits: "c \<in> set (decimal n) \<Longrightarrow> ascii_digit c"
proof (induction n rule: decimal.induct)
  case (1 n)
  then show ?case
    by (cases "n < 10") (auto simp: decimal_small decimal_step digit_def ascii_digit_def)
qed

lemma length_decimal: "n < 10 ^ Suc k \<Longrightarrow> length (decimal n) \<le> Suc k"
proof (induction k arbitrary: n)
  case (Suc k)
  have "n div 10 < 10 ^ Suc k" using Suc.prems by (simp add: less_mult_imp_div_less)
  then show ?case
    using Suc.IH by (cases "n < 10") (auto simp: decimal_small decimal_step)
qed (simp add: decimal_small)

lemma length_decimal_width: "n < 10 ^ Suc k \<Longrightarrow> length (decimal_width (Suc k) n) = Suc k"
  using length_decimal [of n k] by (simp add: decimal_width_def)

lemma decimal_width_digits: "c \<in> set (decimal_width w n) \<Longrightarrow> ascii_digit c"
  using decimal_digits by (auto simp: decimal_width_def ascii_digit_def)

lemma code_hex_digit: "d < 16 \<Longrightarrow> code (hex_digit d) = (if d < 10 then 48 + d else 87 + d)"
  by (simp add: hex_digit_def)

lemma hex_digit_alphanumeric: "d < 16 \<Longrightarrow> ascii_alphanumeric (hex_digit d)"
  by (simp add: ascii_alphanumeric_def ascii_digit_def code_hex_digit)

lemma hex_digit_inj:
  assumes "d < 16" and "e < 16"
  shows "hex_digit d = hex_digit e \<longleftrightarrow> d = e"
proof
  assume "hex_digit d = hex_digit e"
  with assms have "(if d < 10 then 48 + d else 87 + d) = (if e < 10 then 48 + e else 87 + e)"
    using code_hex_digit by metis
  then show "d = e" by (simp split: if_splits)
qed simp

lemma nibbles: "unat (b :: byte) div 16 < 16" "unat b mod 16 < 16"
  using unat_byte_less [of b] by (simp_all add: less_mult_imp_div_less)

lemma hex_byte_alphanumeric: "c \<in> set (hex_byte b) \<Longrightarrow> ascii_alphanumeric c"
  using nibbles [of b] by (auto simp: hex_byte_def hex_digit_alphanumeric)

lemma hex_byte_inj: "hex_byte a = hex_byte b \<longleftrightarrow> a = b"
proof
  assume "hex_byte a = hex_byte b"
  then have "unat a div 16 = unat b div 16" and "unat a mod 16 = unat b mod 16"
    using nibbles [of a] nibbles [of b] by (auto simp: hex_byte_def hex_digit_inj)
  then have "unat a = unat b"
    by (metis div_mult_mod_eq)
  then show "a = b" by (rule unsigned_word_eqI)
qed simp

lemma length_hex_byte [simp]: "length (hex_byte b) = 2"
  by (simp add: hex_byte_def)

text \<open>\<open>str::parse\<close> for an unsigned type of \<open>bits\<close> bits.\<close>

definition digits_value :: "string \<Rightarrow> nat" where
  "digits_value s = foldl (\<lambda>acc c. acc * 10 + (code c - 48)) 0 s"

definition parse_unsigned :: "nat \<Rightarrow> string \<Rightarrow> nat result" where
  "parse_unsigned bits s =
     (let ds = (case s of c # r \<Rightarrow> if c = CHR ''+'' then r else s | [] \<Rightarrow> [])
      in if s = [] then bail ''cannot parse integer from empty string''
         else if ds = [] \<or> \<not> list_all ascii_digit ds then bail ''invalid digit found in string''
         else if digits_value ds < 2 ^ bits then Inr (digits_value ds)
         else bail ''number too large to fit in target type'')"

subsection \<open>File names\<close>

text \<open>\<open>Path::join\<close> with a relative or absolute name.\<close>

definition path_join :: "path \<Rightarrow> string \<Rightarrow> path" where
  "path_join base name =
     (if name \<noteq> [] \<and> hd name = CHR ''/'' then name
      else if base = [] \<or> last base = CHR ''/'' then base @ name
      else base @ ''/'' @ name)"

text \<open>The split of a file name at its last dot: stem, and extension if there is one.\<close>

definition split_extension :: "string \<Rightarrow> string \<times> string option" where
  "split_extension name =
     (let after = rev (takeWhile (\<lambda>c. c \<noteq> CHR ''.'') (rev name));
          before = rev (drop 1 (dropWhile (\<lambda>c. c \<noteq> CHR ''.'') (rev name)))
      in if name = ''..'' \<or> CHR ''.'' \<notin> set name \<or> before = [] then (name, None)
         else (before, Some after))"

definition extension :: "string \<Rightarrow> string option" where
  "extension name = snd (split_extension name)"

definition with_extension :: "string \<Rightarrow> string \<Rightarrow> string" where
  "with_extension name ext = fst (split_extension name) @ ''.'' @ ext"

lemma split_extension_dot:
  assumes "CHR ''.'' \<notin> set ext" and "stem \<noteq> []" and "stem @ ''.'' @ ext \<noteq> ''..''"
  shows "split_extension (stem @ ''.'' @ ext) = (stem, Some ext)"
proof -
  have "takeWhile (\<lambda>c. c \<noteq> CHR ''.'') (rev ext @ CHR ''.'' # rev stem) = rev ext"
    by (subst takeWhile_append2) (use assms(1) in auto)
  moreover have "dropWhile (\<lambda>c. c \<noteq> CHR ''.'') (rev ext @ CHR ''.'' # rev stem) =
      CHR ''.'' # rev stem"
    by (subst dropWhile_append2) (use assms(1) in auto)
  ultimately show ?thesis
    using assms by (simp add: split_extension_def Let_def)
qed

end
