(* ===== verification/Crates.thy ===== *)
theory Crates
  imports Prelude
begin

text \<open>
  The third-party packages the daemon calls, as parameters of the model: one record per
  crate, with one field per function the sources call, and one predicate per crate with the
  documented behaviour the sources rely on. No field has a definition here; every theorem
  that needs a law names the predicate as a hypothesis.
\<close>

subsection \<open>serde\_json\<close>

text \<open>
  \<open>json_object\<close>, \<open>json_string\<close>, \<open>json_number\<close> and \<open>json_bool\<close> are what the
  \<open>json!\<close> macro builds; \<open>json_insert\<close> is \<open>as_object_mut\<close> followed by \<open>Map::insert\<close>,
  \<open>None\<close> when the value is not an object.
\<close>

record 'v serde_json =
  json_from_str :: "string \<Rightarrow> 'v result"
  json_to_string :: "'v \<Rightarrow> string"
  json_to_string_pretty :: "'v \<Rightarrow> string result"
  json_get :: "'v \<Rightarrow> string \<Rightarrow> 'v option"
  json_as_str :: "'v \<Rightarrow> string option"
  json_as_u64 :: "'v \<Rightarrow> u64 option"
  json_as_bool :: "'v \<Rightarrow> bool option"
  json_object :: "(string \<times> 'v) list \<Rightarrow> 'v"
  json_string :: "string \<Rightarrow> 'v"
  json_number :: "u64 \<Rightarrow> 'v"
  json_bool :: "bool \<Rightarrow> 'v"
  json_insert :: "'v \<Rightarrow> string \<Rightarrow> 'v \<Rightarrow> 'v option"

text \<open>Looking a key up in what \<open>json!\<close> built: the last entry for the key wins.\<close>

definition json_objects_ok :: "'v serde_json \<Rightarrow> bool" where
  "json_objects_ok J \<longleftrightarrow>
     (\<forall>kvs k. json_get J (json_object J kvs) k = map_of (rev kvs) k)
     \<and> (\<forall>s. json_as_str J (json_string J s) = Some s)
     \<and> (\<forall>n. json_as_u64 J (json_number J n) = Some n)
     \<and> (\<forall>b. json_as_bool J (json_bool J b) = Some b)"

text \<open>
  The values \<open>json!\<close> builds in the sources. Printed text of such a value parses back to
  it (a float need not, and the sources build none), the compact form is one line, and the
  compact form of an object is in braces.
\<close>

inductive json_built :: "'v serde_json \<Rightarrow> 'v \<Rightarrow> bool" for J :: "'v serde_json" where
  built_string: "json_built J (json_string J s)"
| built_number: "json_built J (json_number J n)"
| built_bool: "json_built J (json_bool J b)"
| built_object: "\<forall>kv \<in> set kvs. json_built J (snd kv) \<Longrightarrow> json_built J (json_object J kvs)"

definition json_text_ok :: "'v serde_json \<Rightarrow> bool" where
  "json_text_ok J \<longleftrightarrow>
     (\<forall>v. json_built J v \<longrightarrow> json_from_str J (json_to_string J v) = Inr v)
     \<and> (\<forall>v text. json_built J v \<and> json_to_string_pretty J v = Inr text \<longrightarrow>
          json_from_str J text = Inr v)
     \<and> (\<forall>v. json_built J v \<longrightarrow> CHR 0x0A \<notin> set (json_to_string J v))
     \<and> (\<forall>kvs. \<exists>m. json_to_string J (json_object J kvs) = ''{'' @ m @ ''}'')"

lemma json_built_simps [simp]:
  "json_built J (json_string J s)" "json_built J (json_number J n)" "json_built J (json_bool J b)"
  "\<forall>kv \<in> set kvs. json_built J (snd kv) \<Longrightarrow> json_built J (json_object J kvs)"
  by (auto intro: json_built.intros)

lemma json_get_object [simp]:
  "json_objects_ok J \<Longrightarrow> json_get J (json_object J kvs) k = map_of (rev kvs) k"
  unfolding json_objects_ok_def by blast

lemma json_as_str_string [simp]:
  "json_objects_ok J \<Longrightarrow> json_as_str J (json_string J s) = Some s"
  unfolding json_objects_ok_def by blast

lemma json_as_u64_number [simp]:
  "json_objects_ok J \<Longrightarrow> json_as_u64 J (json_number J n) = Some n"
  unfolding json_objects_ok_def by blast

lemma json_as_bool_bool [simp]:
  "json_objects_ok J \<Longrightarrow> json_as_bool J (json_bool J b) = Some b"
  unfolding json_objects_ok_def by blast

lemma json_from_to_string [simp]:
  "json_text_ok J \<Longrightarrow> json_built J v \<Longrightarrow> json_from_str J (json_to_string J v) = Inr v"
  unfolding json_text_ok_def by blast

lemma json_from_pretty:
  "\<lbrakk>json_text_ok J; json_built J v; json_to_string_pretty J v = Inr text\<rbrakk> \<Longrightarrow>
     json_from_str J text = Inr v"
  unfolding json_text_ok_def by blast

lemma json_to_string_line:
  "json_text_ok J \<Longrightarrow> json_built J v \<Longrightarrow> CHR 0x0A \<notin> set (json_to_string J v)"
  unfolding json_text_ok_def by blast

lemma json_object_braces:
  "json_text_ok J \<Longrightarrow> \<exists>m. json_to_string J (json_object J kvs) = ''{'' @ m @ ''}''"
  unfolding json_text_ok_def by blast

lemma json_to_string_inj:
  "\<lbrakk>json_text_ok J; json_built J v; json_built J w\<rbrakk> \<Longrightarrow>
     json_to_string J v = json_to_string J w \<longleftrightarrow> v = w"
  by (metis json_from_to_string sum.inject(2))

text \<open>
  \<open>value.get(name).and_then(Value::as_str)\<close> and its \<open>as_u64\<close>, \<open>as_bool\<close> forms, which
  the sources spell out at every use.
\<close>

definition json_str_field :: "'v serde_json \<Rightarrow> 'v \<Rightarrow> string \<Rightarrow> string option" where
  "json_str_field J v name = Option.bind (json_get J v name) (json_as_str J)"

definition json_u64_field :: "'v serde_json \<Rightarrow> 'v \<Rightarrow> string \<Rightarrow> u64 option" where
  "json_u64_field J v name = Option.bind (json_get J v name) (json_as_u64 J)"

definition json_bool_field :: "'v serde_json \<Rightarrow> 'v \<Rightarrow> string \<Rightarrow> bool option" where
  "json_bool_field J v name = Option.bind (json_get J v name) (json_as_bool J)"

definition unwrap_or :: "'a \<Rightarrow> 'a option \<Rightarrow> 'a" where
  "unwrap_or d x = (case x of None \<Rightarrow> d | Some y \<Rightarrow> y)"

lemma unwrap_or_simps [simp]: "unwrap_or d None = d" "unwrap_or d (Some x) = x"
  by (simp_all add: unwrap_or_def)

lemmas json_field_defs = json_str_field_def json_u64_field_def json_bool_field_def

subsection \<open>base64, sha2, p256 and ciborium\<close>

record base64 =
  b64_encode :: "bytes \<Rightarrow> string"
  b64_decode :: "string \<Rightarrow> bytes result"

definition base64_ok :: "base64 \<Rightarrow> bool" where
  "base64_ok B \<longleftrightarrow> (\<forall>bs. b64_decode B (b64_encode B bs) = Inr bs)"

lemma b64_decode_encode [simp]: "base64_ok B \<Longrightarrow> b64_decode B (b64_encode B bs) = Inr bs"
  unfolding base64_ok_def by blast

lemma b64_encode_inj: "base64_ok B \<Longrightarrow> b64_encode B x = b64_encode B y \<longleftrightarrow> x = y"
  by (metis b64_decode_encode sum.inject(2))

text \<open>
  \<open>Sha256::digest\<close> returns a \<open>[u8; 32]\<close>; \<open>OsRng::try_fill_bytes\<close> fills the array it
  is given. The model takes the digest as a function and the random bytes as an input.
\<close>

definition sha256_ok :: "(bytes \<Rightarrow> bytes) \<Rightarrow> bool" where
  "sha256_ok H \<longleftrightarrow> (\<forall>bs. length (H bs) = 32)"

lemma length_sha256 [simp]: "sha256_ok H \<Longrightarrow> length (H bs) = 32"
  unfolding sha256_ok_def by blast

text \<open>
  \<open>'pk\<close> is \<open>p256::PublicKey\<close>, \<open>'vk\<close> is \<open>ecdsa::VerifyingKey\<close>, \<open>'sig\<close> is
  \<open>ecdsa::Signature\<close>; \<open>point_x\<close>, \<open>point_y\<close> are the coordinates of
  \<open>to_encoded_point(false)\<close>.
\<close>

record ('pk, 'vk, 'sig) p256 =
  from_public_key_pem :: "string \<Rightarrow> 'pk result"
  to_public_key_der :: "'pk \<Rightarrow> bytes result"
  verifying_key_from :: "'pk \<Rightarrow> 'vk"
  signature_from_der :: "bytes \<Rightarrow> 'sig result"
  ecdsa_verify :: "'vk \<Rightarrow> bytes \<Rightarrow> 'sig \<Rightarrow> unit result"
  point_x :: "'pk \<Rightarrow> bytes option"
  point_y :: "'pk \<Rightarrow> bytes option"

text \<open>\<open>ciborium::value::Value\<close>, whose constructors the sources build and match on.\<close>

datatype cbor =
    CInteger int
  | CBytes bytes
  | CFloat u64
  | CText string
  | CBool bool
  | CNull
  | CTag u64 cbor
  | CArray "cbor list"
  | CMap "(cbor \<times> cbor) list"

record ciborium =
  cbor_into_writer :: "cbor \<Rightarrow> bytes result"
  cbor_from_reader :: "bytes \<Rightarrow> cbor result"

definition ciborium_ok :: "ciborium \<Rightarrow> bool" where
  "ciborium_ok C \<longleftrightarrow>
     (\<forall>v bs. cbor_into_writer C v = Inr bs \<longrightarrow> cbor_from_reader C bs = Inr v)"

lemma cbor_read_written:
  "ciborium_ok C \<Longrightarrow> cbor_into_writer C v = Inr bs \<Longrightarrow> cbor_from_reader C bs = Inr v"
  unfolding ciborium_ok_def by blast

end
