(* ===== verification/Instances.thy ===== *)
theory Instances
  imports RustStd Crates
begin

text \<open>
  Concrete functions that satisfy the laws of the theory \<open>Crates\<close>: a printer and parser of
  a JSON-like text, a byte encoding, a digest, and a signature scheme in which a signature is
  the key and the message. They show that the laws can hold and are what the witnesses of the
  properties run on; nothing else rests on them.
\<close>

subsection \<open>Decimal numbers read back\<close>

lemma digits_value_snoc: "digits_value (s @ [c]) = digits_value s * 10 + (code c - 48)"
  by (simp add: digits_value_def)

lemma digits_value_decimal: "digits_value (decimal n) = n"
proof (induction n rule: decimal.induct)
  case (1 n)
  then show ?case
    by (cases "n < 10")
      (simp_all add: decimal_small decimal_step digits_value_snoc, simp_all add: digits_value_def digit_def)
qed

lemma digits_value_zeros: "digits_value (replicate n (CHR ''0'') @ s) = digits_value s"
  by (induction n) (simp_all add: digits_value_def)

lemma digits_value_width: "digits_value (decimal_width w n) = n"
  by (simp add: decimal_width_def digits_value_zeros digits_value_decimal)

subsection \<open>JSON\<close>

datatype jval =
    JNull
  | JBool bool
  | JNumber u64
  | JString string
  | JObject "(string \<times> jval) list"

definition quote :: "string \<Rightarrow> string" where
  "quote s = concat (map (\<lambda>c. if c = CHR 0x22 \<or> c = CHR 0x5C then [CHR 0x5C, c]
                              else if c = newline then [CHR 0x5C, CHR ''n''] else [c]) s)
     @ [CHR 0x22]"

fun unquote :: "string \<Rightarrow> (string \<times> string) option" where
  "unquote [] = None"
| "unquote (c # r) =
     (if c = CHR 0x22 then Some ([], r)
      else if c = CHR 0x5C then
        (case r of
           [] \<Rightarrow> None
         | d # r' \<Rightarrow> map_option (\<lambda>(s, t). ((if d = CHR ''n'' then newline else d) # s, t)) (unquote r'))
      else map_option (\<lambda>(s, t). (c # s, t)) (unquote r))"

lemma unquote_quote: "unquote (quote s @ rest) = Some (s, rest)"
  by (induction s) (auto simp: quote_def newline_def)

lemma quote_one_line: "newline \<notin> set (quote s)"
  by (auto simp: quote_def newline_def)

primrec show_json :: "jval \<Rightarrow> string" where
  "show_json JNull = ''n''"
| "show_json (JBool b) = (if b then ''t'' else ''f'')"
| "show_json (JNumber n) = ''#'' @ decimal (unat n) @ '';''"
| "show_json (JString s) = CHR 0x22 # quote s"
| "show_json (JObject kvs) =
     ''{'' @ concat (map (\<lambda>(k, text). CHR 0x22 # quote k @ text) (map (map_prod id show_json) kvs))
     @ ''}''"

text \<open>The parser, with the length of the text as fuel: every call is on a shorter text.\<close>

fun read_json :: "nat \<Rightarrow> string \<Rightarrow> (jval \<times> string) option"
  and read_fields :: "nat \<Rightarrow> string \<Rightarrow> ((string \<times> jval) list \<times> string) option" where
  "read_json 0 s = None"
| "read_json (Suc n) s =
     (case s of
        [] \<Rightarrow> None
      | c # r \<Rightarrow>
          if c = CHR ''n'' then Some (JNull, r)
          else if c = CHR ''t'' then Some (JBool True, r)
          else if c = CHR ''f'' then Some (JBool False, r)
          else if c = CHR ''#'' then
            Some (JNumber (of_nat (digits_value (takeWhile ascii_digit r))), drop 1 (dropWhile ascii_digit r))
          else if c = CHR 0x22 then map_option (\<lambda>(s, t). (JString s, t)) (unquote r)
          else if c = CHR ''{'' then map_option (\<lambda>(kvs, t). (JObject kvs, t)) (read_fields n r)
          else None)"
| "read_fields 0 s = None"
| "read_fields (Suc n) s =
     (case s of
        [] \<Rightarrow> None
      | c # r \<Rightarrow>
          if c = CHR ''}'' then Some ([], r)
          else if c = CHR 0x22 then
            Option.bind (unquote r) (\<lambda>(k, r1).
            Option.bind (read_json n r1) (\<lambda>(v, r2).
            map_option (\<lambda>(kvs, r3). ((k, v) # kvs, r3)) (read_fields n r2)))
          else None)"

definition parse_json :: "string \<Rightarrow> jval result" where
  "parse_json s =
     (case read_json (length s) s of
        Some (v, []) \<Rightarrow> Inr v
      | _ \<Rightarrow> bail ''expected value'')"

definition toy_json :: "jval serde_json" where
  "toy_json = \<lparr>json_from_str = parse_json, json_to_string = show_json,
     json_to_string_pretty = (\<lambda>v. Inr (show_json v)),
     json_get = (\<lambda>v k. case v of JObject kvs \<Rightarrow> map_of (rev kvs) k | _ \<Rightarrow> None),
     json_as_str = (\<lambda>v. case v of JString s \<Rightarrow> Some s | _ \<Rightarrow> None),
     json_as_u64 = (\<lambda>v. case v of JNumber n \<Rightarrow> Some n | _ \<Rightarrow> None),
     json_as_bool = (\<lambda>v. case v of JBool b \<Rightarrow> Some b | _ \<Rightarrow> None),
     json_object = JObject, json_string = JString, json_number = JNumber, json_bool = JBool,
     json_insert = (\<lambda>v k x. case v of JObject kvs \<Rightarrow> Some (JObject (kvs @ [(k, x)])) | _ \<Rightarrow> None)\<rparr>"

lemma takeWhile_decimal:
  "takeWhile ascii_digit (decimal n @ CHR '';'' # rest) = decimal n"
  "dropWhile ascii_digit (decimal n @ CHR '';'' # rest) = CHR '';'' # rest"
proof -
  have "\<not> ascii_digit (CHR '';'')" by (simp add: ascii_digit_def)
  then show "takeWhile ascii_digit (decimal n @ CHR '';'' # rest) = decimal n"
    and "dropWhile ascii_digit (decimal n @ CHR '';'' # rest) = CHR '';'' # rest"
    using decimal_digits [of _ n] by (simp_all add: takeWhile_append2 dropWhile_append2)
qed

lemma length_quote: "0 < length (quote s)"
  by (simp add: quote_def)

lemma read_fields_show:
  assumes "\<And>k v m rest. \<lbrakk>(k, v) \<in> set kvs; length (show_json v) \<le> m\<rbrakk> \<Longrightarrow>
      read_json m (show_json v @ rest) = Some (v, rest)"
    and "length (concat (map (\<lambda>(k, v). CHR 0x22 # quote k @ show_json v) kvs)) < n"
  shows "read_fields n (concat (map (\<lambda>(k, v). CHR 0x22 # quote k @ show_json v) kvs) @ ''}'' @ rest)
    = Some (kvs, rest)"
  using assms
proof (induction kvs arbitrary: n)
  case Nil
  then show ?case by (cases n) simp_all
next
  case (Cons kv kvs)
  obtain k v where kv: "kv = (k, v)" by fastforce
  obtain m where n: "n = Suc m" using Cons.prems(2) by (cases n) simp_all
  have v: "read_json m (show_json v @ t) = Some (v, t)" for t
    by (rule Cons.prems(1) [of k]) (use Cons.prems(2) n kv in simp_all)
  have tail: "read_fields m (concat (map (\<lambda>(k, v). CHR 0x22 # quote k @ show_json v) kvs) @ ''}'' @ rest)
      = Some (kvs, rest)"
    by (rule Cons.IH) (use Cons.prems n kv in \<open>auto\<close>)
  show ?case
    using tail by (simp add: kv n unquote_quote v)
qed

lemma read_json_show: "length (show_json v) \<le> n \<Longrightarrow> read_json n (show_json v @ rest) = Some (v, rest)"
proof (induction v arbitrary: n rest)
  case (JNumber w)
  then obtain m where "n = Suc m" by (cases n) simp_all
  then show ?case by (simp add: takeWhile_decimal digits_value_decimal)
next
  case (JString s)
  then obtain m where "n = Suc m" by (cases n) simp_all
  then show ?case by (simp add: unquote_quote)
next
  case (JObject kvs)
  then obtain m where n: "n = Suc m" by (cases n) simp_all
  have shown: "show_json (JObject kvs) =
      CHR ''{'' # concat (map (\<lambda>(k, v). CHR 0x22 # quote k @ show_json v) kvs) @ ''}''"
    by (simp add: case_prod_beta' o_def)
  have "read_fields m (concat (map (\<lambda>(k, v). CHR 0x22 # quote k @ show_json v) kvs) @ ''}'' @ rest)
      = Some (kvs, rest)"
    proof (rule read_fields_show)
    fix k v k' rest assume "(k, v) \<in> set kvs" and "length (show_json v) \<le> k'"
    then show "read_json k' (show_json v @ rest) = Some (v, rest)"
      using JObject.IH [of "(k, v)" v] by simp
  next
    show "length (concat (map (\<lambda>(k, v). CHR 0x22 # quote k @ show_json v) kvs)) < m"
      using JObject.prems unfolding shown n by simp
  qed
  then show ?case
    by (simp add: n shown del: show_json.simps)
next
  case JNull
  then show ?case by (cases n) simp_all
next
  case (JBool b)
  then show ?case by (cases n; cases b) simp_all
qed

lemma parse_show_json: "parse_json (show_json v) = Inr v"
  using read_json_show [of v "length (show_json v)" "[]"] by (simp add: parse_json_def)

lemma show_json_one_line: "newline \<notin> set (show_json v)"
proof (induction v)
  case (JNumber w)
  then show ?case
    using decimal_digits [of newline "unat w"] by (auto simp: newline_def ascii_digit_def)
next
  case (JObject kvs)
  then show ?case
    using quote_one_line by (fastforce simp: newline_def)
qed (use quote_one_line in \<open>simp_all add: newline_def\<close>)

lemma toy_json_objects [simp]: "json_objects_ok toy_json"
  by (simp add: json_objects_ok_def toy_json_def)

lemma toy_json_text [simp]: "json_text_ok toy_json"
  using show_json_one_line by (simp add: json_text_ok_def toy_json_def parse_show_json newline_def)

declare show_json.simps [simp del]

lemma toy_json_printable: "\<exists>body. json_to_string_pretty toy_json v = Inr body"
  by (simp add: toy_json_def)

lemma toy_json_simps [simp]:
  "json_from_str toy_json (show_json v) = Inr v"
  "json_get toy_json (JObject kvs) = map_of (rev kvs)"
  "json_as_str toy_json (JString x) = Some x"
  "json_as_u64 toy_json (JNumber n) = Some n"
  "json_as_bool toy_json (JBool b) = Some b"
  "json_to_string toy_json = show_json"
  "json_object toy_json = JObject" "json_string toy_json = JString"
  "json_number toy_json = JNumber" "json_bool toy_json = JBool"
  by (simp_all add: toy_json_def parse_show_json)

subsection \<open>Bytes, digests and signatures\<close>

definition toy_base64 :: base64 where
  "toy_base64 = \<lparr>b64_encode = (\<lambda>bs. map (\<lambda>b. char_of (unat b)) bs),
                 b64_decode = (\<lambda>s. Inr (as_bytes s))\<rparr>"

lemma of_char_char_of_byte: "(of_char (char_of (unat (b :: byte))) :: byte) = b"
proof -
  have "(of_char (char_of (unat b)) :: byte) = of_nat (of_char (char_of (unat b)))"
    by (rule of_nat_of_char [symmetric])
  also have "of_char (char_of (unat b)) = unat b"
    using unat_byte_less [of b] by simp
  finally show ?thesis by (simp only: of_nat_unat ucast_id)
qed

lemma toy_base64_ok [simp]: "base64_ok toy_base64"
  by (simp add: base64_ok_def toy_base64_def as_bytes_def of_char_char_of_byte comp_def)

definition toy_sha256 :: "bytes \<Rightarrow> bytes" where
  "toy_sha256 bs = take 32 (bs @ replicate 32 0)"

lemma toy_sha256_ok [simp]: "sha256_ok toy_sha256"
  by (auto simp: sha256_ok_def toy_sha256_def min_def)

text \<open>A key is its PEM text; it signs a message by putting its own bytes in front.\<close>

definition toy_p256 :: "(string, string, bytes) p256" where
  "toy_p256 = \<lparr>from_public_key_pem = (\<lambda>pem. if pem = '''' then bail ''PEM error'' else Inr pem),
     to_public_key_der = (\<lambda>pk. Inr (as_bytes pk)),
     verifying_key_from = (\<lambda>pk. pk),
     signature_from_der = (\<lambda>bs. Inr bs),
     ecdsa_verify = (\<lambda>vk message signature.
       if signature = as_bytes vk @ message then Inr () else bail ''signature error''),
     point_x = (\<lambda>pk. Some (replicate 32 (of_nat (length pk)))),
     point_y = (\<lambda>pk. Some (replicate 32 0))\<rparr>"

text \<open>A codec for a given list of CBOR values: a value is written as its position.\<close>

definition table_ciborium :: "cbor list \<Rightarrow> ciborium" where
  "table_ciborium vs = \<lparr>
     cbor_into_writer = (\<lambda>v.
       let i = length (takeWhile (\<lambda>w. w \<noteq> v) vs)
       in if i < length vs \<and> i < 256 then Inr [of_nat i] else bail ''value not in the table''),
     cbor_from_reader = (\<lambda>bs. case bs of
         [b] \<Rightarrow> if unat b < length vs then Inr (vs ! unat b) else bail ''unknown value''
       | _ \<Rightarrow> bail ''unexpected length'')\<rparr>"

lemma table_ciborium_ok [simp]: "ciborium_ok (table_ciborium vs)"
  unfolding ciborium_ok_def
proof (intro allI impI)
  fix v bs
  let ?i = "length (takeWhile (\<lambda>w. w \<noteq> v) vs)"
  assume "cbor_into_writer (table_ciborium vs) v = Inr bs"
  then have i: "?i < length vs" "?i < 256" "bs = [of_nat ?i]"
    by (simp_all add: table_ciborium_def Let_def split: if_splits)
  have "vs ! ?i = v"
    using nth_length_takeWhile [OF i(1)] by blast
  then show "cbor_from_reader (table_ciborium vs) bs = Inr v"
    using i by (simp add: table_ciborium_def unat_of_nat)
qed

end
