(* ===== verification/Link.thy ===== *)
theory Link
  imports RustStd Instances
begin

text \<open>
  \<open>daemon/crates/kpk-spike/src/link.rs\<close>: signature checking, key loading, and the device
  id and fingerprint derived from a key. \<open>p256\<close> and \<open>sha2\<close> are parameters.
\<close>

definition ID_BYTES :: nat where "ID_BYTES = 16"
definition FINGERPRINT_BYTES :: nat where "FINGERPRINT_BYTES = 6"

definition verify_assertion ::
  "('pk, 'vk, 'sig) p256 \<Rightarrow> 'vk \<Rightarrow> string \<Rightarrow> bytes \<Rightarrow> unit result" where
  "verify_assertion K key sent_line der_signature =
     tryR (with_context ''signature is not valid DER ECDSA'' (signature_from_der K der_signature))
       (\<lambda>signature. with_context ''signature does not verify against the enrolled device key''
          (ecdsa_verify K key (as_bytes sent_line) signature))"

definition load_verifying_key :: "('pk, 'vk, 'sig) p256 \<Rightarrow> string \<Rightarrow> 'vk result" where
  "load_verifying_key K pem =
     tryR (with_context ''device public key is not a P-256 SPKI PEM'' (from_public_key_pem K pem))
       (\<lambda>public. Inr (verifying_key_from K public))"

definition hex :: "bytes \<Rightarrow> string" where
  "hex bs = fold (\<lambda>b text. text @ hex_byte b) bs ''''"

definition spki_digest ::
  "('pk, 'vk, 'sig) p256 \<Rightarrow> (bytes \<Rightarrow> bytes) \<Rightarrow> string \<Rightarrow> bytes result" where
  "spki_digest K sha256 pem =
     tryR (with_context ''device public key is not a P-256 SPKI PEM'' (from_public_key_pem K pem))
       (\<lambda>public. tryR (with_context ''re-encoding the device key as SPKI DER''
            (to_public_key_der K public))
          (\<lambda>der. Inr (sha256 der)))"

definition key_id :: "('pk, 'vk, 'sig) p256 \<Rightarrow> (bytes \<Rightarrow> bytes) \<Rightarrow> string \<Rightarrow> string result" where
  "key_id K sha256 pem =
     tryR (spki_digest K sha256 pem) (\<lambda>digest. Inr (hex (take ID_BYTES digest)))"

definition fingerprint_text :: "bytes \<Rightarrow> string" where
  "fingerprint_text digest =
     (let groups = map (\<lambda>pair. map ascii_uppercase (hex pair))
                     (chunks 2 (take FINGERPRINT_BYTES digest))
      in join '' '' groups)"

definition key_fingerprint ::
  "('pk, 'vk, 'sig) p256 \<Rightarrow> (bytes \<Rightarrow> bytes) \<Rightarrow> string \<Rightarrow> string result" where
  "key_fingerprint K sha256 pem =
     tryR (spki_digest K sha256 pem) (\<lambda>digest. Inr (fingerprint_text digest))"

subsection \<open>Lemmas\<close>

lemma verify_assertion_Inr_iff:
  "verify_assertion K key line sig = Inr u \<longleftrightarrow>
     (\<exists>s. signature_from_der K sig = Inr s \<and> ecdsa_verify K key (as_bytes line) s = Inr u)"
  by (auto simp: verify_assertion_def result_simps)

lemma hex_concat: "hex bs = concat (map hex_byte bs)"
proof -
  have "fold (\<lambda>b text. text @ hex_byte b) bs acc = acc @ concat (map hex_byte bs)" for acc
    by (induction bs arbitrary: acc) simp_all
  then show ?thesis by (simp add: hex_def)
qed

lemma length_hex: "length (hex bs) = 2 * length bs"
  by (induction bs) (simp_all add: hex_concat)

lemma hex_alphanumeric: "c \<in> set (hex bs) \<Longrightarrow> ascii_alphanumeric c"
  by (auto simp: hex_concat hex_byte_alphanumeric)

lemma hex_inj: "length as = length bs \<Longrightarrow> hex as = hex bs \<longleftrightarrow> as = bs"
proof (induction as bs rule: list_induct2)
  case (Cons a as b bs)
  have "hex (a # as) = hex (b # bs) \<longleftrightarrow> hex_byte a = hex_byte b \<and> hex as = hex bs"
    by (simp add: hex_concat append_eq_append_conv)
  with Cons show ?case by (simp add: hex_byte_inj)
qed simp

lemma key_id_InrD:
  "key_id K H pem = Inr i \<Longrightarrow>
     \<exists>pk der. from_public_key_pem K pem = Inr pk \<and> to_public_key_der K pk = Inr der
       \<and> i = hex (take 16 (H der))"
  by (auto simp: key_id_def spki_digest_def result_simps ID_BYTES_def)

lemma key_id_shape:
  assumes "key_id K H pem = Inr i" and "sha256_ok H"
  shows "length i = 32 \<and> (\<forall>c \<in> set i. ascii_alphanumeric c)"
  using key_id_InrD [OF assms(1)] assms(2) hex_alphanumeric by (auto simp: length_hex)

lemma key_id_ok_iff:
  "(\<exists>i. key_id K H pem = Inr i) \<longleftrightarrow> (\<exists>d. spki_digest K H pem = Inr d)"
  by (auto simp: key_id_def result_simps)

lemma load_key_of_key_id:
  "key_id K H pem = Inr i \<Longrightarrow> \<exists>vk. load_verifying_key K pem = Inr vk"
  by (auto dest!: key_id_InrD simp: load_verifying_key_def)

lemma key_id_digest:
  "key_id K H pem = Inr i \<Longrightarrow> \<exists>d. spki_digest K H pem = Inr d \<and> i = hex (take 16 d)"
  by (auto simp: key_id_def result_simps ID_BYTES_def)

lemma spki_digest_length:
  "spki_digest K H pem = Inr d \<Longrightarrow> sha256_ok H \<Longrightarrow> length d = 32"
  by (auto simp: spki_digest_def result_simps)

lemma hex_pair:
  "hex [a, b] = [hex_digit (unat a div 16), hex_digit (unat a mod 16),
                 hex_digit (unat b div 16), hex_digit (unat b mod 16)]"
  by (simp add: hex_def hex_byte_def)

lemma fingerprint_of_six:
  "fingerprint_text (a # b # c # d # e # f # rest) =
     map ascii_uppercase (hex [a, b]) @ '' '' @ map ascii_uppercase (hex [c, d]) @ '' ''
     @ map ascii_uppercase (hex [e, f])"
  by (simp add: fingerprint_text_def FINGERPRINT_BYTES_def chunks_step numeral_2_eq_2 numeral_eq_Suc
      del: map_append)

definition upper_hex :: "char \<Rightarrow> bool" where
  "upper_hex c \<longleftrightarrow> ascii_digit c \<or> (65 \<le> code c \<and> code c \<le> 70)"

lemma uppercase_hex_digit: "d < 16 \<Longrightarrow> upper_hex (ascii_uppercase (hex_digit d))"
  by (simp add: upper_hex_def ascii_uppercase_def ascii_digit_def code_hex_digit)

subsection \<open>Properties\<close>

text \<open>
  C30. A device id names a key: two PEM texts have the same id exactly when the SHA-256
  digests of their keys agree on the first 16 bytes, and keys with the same id also show the
  same fingerprint, since that is cut from the same digest.
\<close>

theorem key_id_names_key:
  assumes "sha256_ok H" and "key_id K H pem = Inr i" and "key_id K H pem' = Inr i'"
    and "spki_digest K H pem = Inr d" and "spki_digest K H pem' = Inr d'"
  shows "(i = i' \<longleftrightarrow> take 16 d = take 16 d')
    \<and> (i = i' \<longrightarrow> key_fingerprint K H pem = key_fingerprint K H pem')"
proof -
  have i: "i = hex (take 16 d)" "i' = hex (take 16 d')"
    using key_id_digest [OF assms(2)] key_id_digest [OF assms(3)] assms(4,5) by auto
  have "length (take 16 d) = length (take 16 d')"
    using spki_digest_length [OF assms(4,1)] spki_digest_length [OF assms(5,1)] by simp
  then have iff: "i = i' \<longleftrightarrow> take 16 d = take 16 d'"
    using i hex_inj by simp
  have "take 6 d = take 6 d'" if "take 16 d = take 16 d'"
    using arg_cong [OF that, of "take 6"] by simp
  then show ?thesis
    using iff assms(4,5)
    by (auto simp: key_fingerprint_def fingerprint_text_def FINGERPRINT_BYTES_def)
qed

theorem key_id_names_key_witness:
  "\<exists>i i' d d'. key_id toy_p256 toy_sha256 ''AB'' = Inr i \<and> key_id toy_p256 toy_sha256 ''CD'' = Inr i'
     \<and> spki_digest toy_p256 toy_sha256 ''AB'' = Inr d \<and> spki_digest toy_p256 toy_sha256 ''CD'' = Inr d'
     \<and> (i = i' \<longleftrightarrow> take 16 d = take 16 d')"
proof -
  have d: "spki_digest toy_p256 toy_sha256 ''AB'' = Inr (toy_sha256 (as_bytes ''AB''))"
    "spki_digest toy_p256 toy_sha256 ''CD'' = Inr (toy_sha256 (as_bytes ''CD''))"
    by (simp_all add: spki_digest_def toy_p256_def)
  then have "key_id toy_p256 toy_sha256 ''AB'' = Inr (hex (take 16 (toy_sha256 (as_bytes ''AB''))))"
    "key_id toy_p256 toy_sha256 ''CD'' = Inr (hex (take 16 (toy_sha256 (as_bytes ''CD''))))"
    by (simp_all add: key_id_def ID_BYTES_def)
  with key_id_names_key [OF toy_sha256_ok this d] d show ?thesis by blast
qed

text \<open>
  A key's fingerprint is what the screens show: three groups of four upper-case
  hexadecimal digits, separated by single spaces.
\<close>

lemma key_fingerprint_format:
  assumes "sha256_ok H" and "key_fingerprint K H pem = Inr t"
  shows "\<exists>g1 g2 g3. t = g1 @ '' '' @ g2 @ '' '' @ g3
    \<and> (\<forall>g \<in> {g1, g2, g3}. length g = 4 \<and> list_all upper_hex g)"
proof -
  obtain dg where dg: "spki_digest K H pem = Inr dg" and t: "t = fingerprint_text dg"
    using assms(2) by (auto simp: key_fingerprint_def result_simps)
  have "6 \<le> length dg" using spki_digest_length [OF dg assms(1)] by simp
  then obtain a b c d e f rest where six: "dg = a # b # c # d # e # f # rest"
    by (auto simp: numeral_eq_Suc Suc_le_length_iff)
  have group: "length (map ascii_uppercase (hex [x, y])) = 4
      \<and> list_all upper_hex (map ascii_uppercase (hex [x, y]))" for x y :: byte
    using uppercase_hex_digit [OF nibbles(1)] uppercase_hex_digit [OF nibbles(2)]
    by (simp add: hex_pair)
  show ?thesis
    unfolding t six fingerprint_of_six using group by blast
qed

lemma key_fingerprint_format_witness:
  "\<exists>t g1 g2 g3. key_fingerprint toy_p256 toy_sha256 ''KEY'' = Inr t \<and> t = g1 @ '' '' @ g2 @ '' '' @ g3
     \<and> length g1 = 4 \<and> length g2 = 4 \<and> length g3 = 4"
proof -
  have "key_fingerprint toy_p256 toy_sha256 ''KEY'' =
      Inr (fingerprint_text (toy_sha256 (as_bytes ''KEY'')))"
    by (simp add: key_fingerprint_def spki_digest_def toy_p256_def)
  from key_fingerprint_format [OF toy_sha256_ok this] this show ?thesis by blast
qed

end
