(* ===== verification/Pairing.thy ===== *)
theory Pairing
  imports RustStd Instances
begin

text \<open>
  \<open>daemon/crates/kpk-spike/src/pairing.rs\<close>: the single pairing window, its token and its
  expiry. Instants and durations are nanoseconds of the monotonic clock; the entropy source,
  the host name file and the routing socket are inputs.
\<close>

definition TOKEN_LEN :: nat where "TOKEN_LEN = 32"
definition NANOS_PER_SEC :: nat where "NANOS_PER_SEC = 1000000000"
definition PAIRING_WINDOW :: nat where "PAIRING_WINDOW = 120 * NANOS_PER_SEC"
definition FALLBACK_ADDRESS :: string where "FALLBACK_ADDRESS = ''127.0.0.1''"
definition DEFAULT_PHONE_PORT :: nat where "DEFAULT_PHONE_PORT = 34719"

lemmas window_defs = PAIRING_WINDOW_def NANOS_PER_SEC_def

record PairingSession =
  ps_token :: bytes
  ps_uri :: string
  ps_short_code :: string
  ps_label :: string
  ps_opened :: nat

text \<open>\<open>Instant::elapsed\<close> saturates at zero, as natural subtraction does.\<close>

definition expired :: "nat \<Rightarrow> PairingSession \<Rightarrow> bool" where
  "expired now session \<longleftrightarrow> now - ps_opened session \<ge> PAIRING_WINDOW"

text \<open>\<open>Pairings { current }\<close>.\<close>

type_synonym Pairings = "PairingSession option"

definition pairings_new :: Pairings where
  "pairings_new = None"

definition short_code :: "bytes \<Rightarrow> string" where
  "short_code token =
     (let value = fold (\<lambda>byte value. value * 31 + ucast byte) (take 4 token) (0 :: u32)
      in decimal_width 6 (unat (value mod 1000000)))"

definition hostname :: "string result \<Rightarrow> string" where
  "hostname file = (case file of Inl e \<Rightarrow> ''unknown-host'' | Inr name \<Rightarrow> trim name)"

text \<open>
  \<open>local_address\<close>: the socket steps may each fail; only an IPv4 local address is used.
\<close>

datatype ip_addr = V4 string | V6 string

definition local_address ::
  "unit result \<Rightarrow> unit result \<Rightarrow> ip_addr result \<Rightarrow> string option" where
  "local_address bind connect local_addr =
     Option.bind (result_ok bind) (\<lambda>_.
     Option.bind (result_ok connect) (\<lambda>_.
     Option.bind (result_ok local_addr) (\<lambda>ip.
       case ip of V4 address \<Rightarrow> Some address | V6 address \<Rightarrow> None)))"

definition pairing_uri :: "string \<Rightarrow> string \<Rightarrow> string \<Rightarrow> string" where
  "pairing_uri host encoded address =
     ''kpk://pair?v=1&h='' @ host @ ''&t='' @ encoded @ ''&a='' @ address @ '':''
     @ decimal DEFAULT_PHONE_PORT"

definition pairings_begin ::
  "base64 \<Rightarrow> bytes result \<Rightarrow> string \<Rightarrow> string option \<Rightarrow> nat \<Rightarrow> string \<Rightarrow> Pairings
   \<Rightarrow> PairingSession result \<times> Pairings" where
  "pairings_begin B64URL entropy host lan now label st =
     (case with_context ''drawing a pairing token from the OS CSPRNG'' entropy of
        Inl e \<Rightarrow> (Inl e, st)
      | Inr token \<Rightarrow>
          let encoded = b64_encode B64URL token;
              code_text = short_code token;
              address = unwrap_or FALLBACK_ADDRESS lan;
              uri = pairing_uri host encoded address;
              current = Some \<lparr>ps_token = token, ps_uri = uri, ps_short_code = code_text,
                              ps_label = label, ps_opened = now\<rparr>
          in (ok_or ''pairing session vanished'' current, current))"

definition pairings_cancel :: "Pairings \<Rightarrow> Pairings" where
  "pairings_cancel st = None"

definition expire_if_due :: "nat \<Rightarrow> Pairings \<Rightarrow> Pairings" where
  "expire_if_due now st =
     (case st of Some session \<Rightarrow> if expired now session then None else st | None \<Rightarrow> st)"

text \<open>The clock is read twice, by \<open>expire_if_due\<close> and, \<open>later\<close>, for what is left.\<close>

definition seconds_left :: "nat \<Rightarrow> nat \<Rightarrow> Pairings \<Rightarrow> u32 \<times> Pairings" where
  "seconds_left now later st =
     (let st' = expire_if_due now st
      in (case st' of
            None \<Rightarrow> 0
          | Some session \<Rightarrow>
              let elapsed = later - ps_opened session;
                  secs = (PAIRING_WINDOW - elapsed) div NANOS_PER_SEC
              in if secs < 2 ^ 32 then of_nat secs else 0,
          st'))"

definition take_matching :: "nat \<Rightarrow> bytes \<Rightarrow> Pairings \<Rightarrow> PairingSession option \<times> Pairings" where
  "take_matching now token st =
     (let st' = expire_if_due now st
      in case st' of
           Some session \<Rightarrow> if ps_token session = token then (Some session, None) else (None, st')
         | None \<Rightarrow> (None, st'))"

subsection \<open>The contract of a single-use window\<close>

text \<open>
  What the pairing handler relies on: a claim that succeeds closes what it claimed, and a
  claim that fails opens nothing.
\<close>

fun run_claims :: "('t \<Rightarrow> 'k \<Rightarrow> 's \<Rightarrow> 'x option \<times> 's) \<Rightarrow> ('t \<times> 'k) list \<Rightarrow> 's \<Rightarrow> 'x list \<times> 's" where
  "run_claims claim [] s = ([], s)"
| "run_claims claim ((t, k) # cs) s =
     (case claim t k s of (r, s') \<Rightarrow>
        case run_claims claim cs s' of (xs, s'') \<Rightarrow>
          (case r of None \<Rightarrow> (xs, s'') | Some x \<Rightarrow> (x # xs, s'')))"

locale single_use_window =
  fixes claim :: "'t \<Rightarrow> 'k \<Rightarrow> 's \<Rightarrow> 'x option \<times> 's"
    and key_of :: "'x \<Rightarrow> 'k"
    and holds :: "'s \<Rightarrow> 'x option"
  assumes claim_hit: "claim t k s = (Some x, s') \<Longrightarrow> holds s = Some x \<and> key_of x = k \<and> holds s' = None"
    and claim_miss: "claim t k s = (None, s') \<Longrightarrow> holds s' = holds s \<or> holds s' = None"
begin

lemma closed_stays_closed:
  "holds s = None \<Longrightarrow> run_claims claim cs s = (xs, s') \<Longrightarrow> xs = [] \<and> holds s' = None"
proof (induction cs arbitrary: s xs)
  case (Cons c cs)
  obtain t k where c: "c = (t, k)" by fastforce
  obtain r s1 where r: "claim t k s = (r, s1)" by fastforce
  then have "r = None \<and> holds s1 = None"
    using claim_hit [of t k s] claim_miss [of t k s] Cons.prems(1) by (cases r) auto
  then show ?case
    using Cons c r by (auto split: prod.splits)
qed auto

lemma claimed_at_most_once:
  "run_claims claim cs s = (xs, s') \<Longrightarrow>
     xs = [] \<or> (\<exists>x. xs = [x] \<and> holds s = Some x \<and> key_of x \<in> snd ` set cs \<and> holds s' = None)"
proof (induction cs arbitrary: s xs)
  case (Cons c cs)
  obtain t k where c: "c = (t, k)" by fastforce
  obtain r s1 where r: "claim t k s = (r, s1)" by fastforce
  obtain ys where ys: "run_claims claim cs s1 = (ys, s')"
    using Cons.prems c r by (auto split: prod.splits option.splits)
  show ?case
  proof (cases r)
    case None
    then have "holds s1 = holds s \<or> holds s1 = None"
      using claim_miss [of t k s s1] r by simp
    then show ?thesis
      using Cons.IH [OF ys] Cons.prems None c r ys by auto
  next
    case (Some x)
    with claim_hit r have hit: "holds s = Some x \<and> key_of x = k \<and> holds s1 = None" by blast
    then have "ys = [] \<and> holds s' = None"
      using closed_stays_closed ys by blast
    with hit Some c r ys Cons.prems show ?thesis by auto
  qed
qed auto

end

lemma expire_if_due_cases:
  "expire_if_due now st = st \<or> expire_if_due now st = None"
  by (auto simp: expire_if_due_def split: option.splits)

interpretation pairing_window: single_use_window take_matching ps_token "\<lambda>st. st"
proof
  fix t k s x and s' :: Pairings
  show "take_matching t k s = (Some x, s') \<Longrightarrow> s = Some x \<and> ps_token x = k \<and> s' = None"
    by (auto simp: take_matching_def expire_if_due_def Let_def split: option.splits if_splits)
  show "take_matching t k s = (None, s') \<Longrightarrow> s' = s \<or> s' = None"
    using expire_if_due_cases [of t s]
    by (auto simp: take_matching_def Let_def split: option.splits if_splits)
qed

subsection \<open>Lemmas\<close>

lemma take_matching_Some_iff:
  "take_matching now token st = (Some session, st') \<longleftrightarrow>
     st = Some session \<and> \<not> expired now session \<and> ps_token session = token \<and> st' = None"
  by (auto simp: take_matching_def expire_if_due_def Let_def split: option.splits if_splits)

lemma short_code_value:
  "unat (fold (\<lambda>byte value. value * 31 + ucast byte) [a, b, c, d] (0 :: u32)) =
     ((unat a * 31 + unat b) * 31 + unat c) * 31 + unat (d :: byte)"
proof -
  have u: "unat (ucast (x :: byte) :: u32) = unat x" for x
  proof -
    have "unat x < 2 ^ 32"
      using less_trans [OF unat_byte_less [of x], of "2 ^ 32"] by simp
    then show ?thesis by (simp add: unsigned_ucast_eq take_bit_nat_eq_self)
  qed
  have "29791 * unat a + 961 * unat b + unat c * 31 + unat d < 4294967296"
    using unat_byte_less [of a] unat_byte_less [of b] unat_byte_less [of c] unat_byte_less [of d]
    by linarith
  then show ?thesis
    by (simp add: unat_word_ariths u mod_simps)
qed

lemma short_code_shape:
  "length (short_code token) = 6 \<and> (\<forall>c \<in> set (short_code token). ascii_digit c)"
proof -
  let ?v = "fold (\<lambda>byte value. value * 31 + ucast byte) (take 4 token) (0 :: u32)"
  have "unat (?v mod 1000000) < 10 ^ Suc 5"
    by (simp add: unat_mod)
  then show ?thesis
    using length_decimal_width [of "unat (?v mod 1000000)" 5] decimal_width_digits
    by (auto simp: short_code_def Let_def simp del: power_Suc)
qed

lemma seconds_left_open:
  assumes "st = Some session" and "now - ps_opened session < PAIRING_WINDOW"
  shows "seconds_left now later st =
    (of_nat ((PAIRING_WINDOW - (later - ps_opened session)) div NANOS_PER_SEC), st)"
proof -
  have "(PAIRING_WINDOW - (later - ps_opened session)) div NANOS_PER_SEC
      \<le> PAIRING_WINDOW div NANOS_PER_SEC"
    by (simp add: div_le_mono)
  also have "\<dots> = 120" by (simp add: window_defs)
  finally have "(PAIRING_WINDOW - (later - ps_opened session)) div NANOS_PER_SEC < 2 ^ 32"
    by (rule le_less_trans) simp
  then show ?thesis
    using assms by (simp add: seconds_left_def expire_if_due_def expired_def)
qed

lemma begin_shape:
  assumes "pairings_begin B (Inr token) host lan now label st = (r, st')"
  shows "\<exists>session. r = Inr session \<and> st' = Some session \<and> ps_token session = token
    \<and> ps_opened session = now \<and> ps_label session = label \<and> ps_short_code session = short_code token"
  using assms by (auto simp: pairings_begin_def Let_def)

subsection \<open>Properties\<close>

text \<open>
  C5. A pairing token is good for one phone: over any sequence of pairing attempts, at any
  times and with any tokens, at most one attempt is let through; it is the one session that
  was open, some attempt named its token, and the window is closed afterwards.
\<close>

theorem pairing_token_is_single_use:
  "case run_claims take_matching attempts st of (sessions, st') \<Rightarrow>
     sessions = [] \<or> (\<exists>session. sessions = [session] \<and> st = Some session
       \<and> ps_token session \<in> snd ` set attempts \<and> st' = None)"
  using pairing_window.claimed_at_most_once [of attempts st] by (simp split: prod.splits)

text \<open>
  C28. Opening a window replaces the one before: after \<open>begin\<close> the only session that can be
  claimed is the new one, with its own token and label, for less than 120 seconds from the
  moment it opened and at no time after.
\<close>

theorem begin_opens_the_only_window:
  assumes "pairings_begin B (Inr token) host lan opened label st = (r, st')"
  shows "fst (take_matching now attempt st') =
    (if attempt = token \<and> now - opened < PAIRING_WINDOW then result_ok r else None)
    \<and> is_err r = False"
proof -
  obtain session where s: "r = Inr session" "st' = Some session" "ps_token session = token"
    "ps_opened session = opened"
    using begin_shape [OF assms] by blast
  then show ?thesis
    by (auto simp: take_matching_def expire_if_due_def expired_def Let_def)
qed

theorem begin_opens_the_only_window_witness:
  "\<exists>r st'. pairings_begin toy_base64 (Inr (replicate 32 9)) ''desk'' None 1000 ''phone'' None = (r, st')
     \<and> fst (take_matching 119000000000 (replicate 32 9) st') = result_ok r
     \<and> fst (take_matching 120000001000 (replicate 32 9) st') = None"
proof -
  obtain r st' where b: "pairings_begin toy_base64 (Inr (replicate 32 9)) ''desk'' None 1000 ''phone'' None
      = (r, st')" by fastforce
  show ?thesis
    using begin_opens_the_only_window [OF b, of 119000000000 "replicate 32 9"]
      begin_opens_the_only_window [OF b, of 120000001000 "replicate 32 9"] b
    by (intro exI [of _ r] exI [of _ st']) (simp add: window_defs)
qed

text \<open>
  C39. The countdown: while a window is open \<open>seconds_left\<close> is the whole seconds that remain at
  the second reading of the clock, at most 120, and keeps the window; once it has expired the
  answer is 0 and the window is closed. In the last second the answer is already 0 although a
  phone can still pair.
\<close>

theorem seconds_left_counts_down:
  assumes "st = Some session"
  shows "if now - ps_opened session < PAIRING_WINDOW
    then unat (fst (seconds_left now later st)) =
        (PAIRING_WINDOW - (later - ps_opened session)) div NANOS_PER_SEC
      \<and> unat (fst (seconds_left now later st)) \<le> 120 \<and> snd (seconds_left now later st) = st
      \<and> (fst (seconds_left now later st) = 0 \<longleftrightarrow> PAIRING_WINDOW - NANOS_PER_SEC < later - ps_opened session)
    else seconds_left now later st = (0, None)"
proof (cases "now - ps_opened session < PAIRING_WINDOW")
  case False
  then show ?thesis
    using assms by (simp add: seconds_left_def expire_if_due_def expired_def)
next
  case True
  let ?rest = "PAIRING_WINDOW - (later - ps_opened session)"
  have le: "?rest div NANOS_PER_SEC \<le> 120"
    using div_le_mono [of ?rest PAIRING_WINDOW NANOS_PER_SEC] by (simp add: window_defs)
  then have "?rest div NANOS_PER_SEC < 2 ^ 32"
    by (rule le_less_trans) simp
  then have u: "unat (of_nat (?rest div NANOS_PER_SEC) :: u32) = ?rest div NANOS_PER_SEC"
    by (rule unat_of_nat_u32)
  have z: "?rest div NANOS_PER_SEC = 0 \<longleftrightarrow> PAIRING_WINDOW - NANOS_PER_SEC < later - ps_opened session"
    by (simp add: div_eq_0_iff window_defs) linarith
  have "(of_nat (?rest div NANOS_PER_SEC) :: u32) = 0 \<longleftrightarrow> ?rest div NANOS_PER_SEC = 0"
    using u by (metis unat_0 unat_eq_0)
  then show ?thesis
    using True u le z seconds_left_open [OF assms True] by simp
qed

theorem seconds_left_counts_down_witness:
  "\<exists>session. unat (fst (seconds_left 119400000000 119500000000 (Some session))) = 0
     \<and> snd (seconds_left 119400000000 119500000000 (Some session)) = Some session
     \<and> unat (fst (seconds_left 999999999 1000000000 (Some session))) = 119"
proof -
  let ?s = "\<lparr>ps_token = replicate 32 1, ps_uri = '''', ps_short_code = '''', ps_label = '''', ps_opened = 0\<rparr>"
  show ?thesis
    using seconds_left_counts_down [of "Some ?s" ?s 119400000000 119500000000]
      seconds_left_counts_down [of "Some ?s" ?s 999999999 1000000000]
    by (intro exI [of _ ?s]) (simp add: window_defs)
qed

text \<open>
  The six-digit code both screens show: it is computed without wrap-around from the
  first four token bytes, always has exactly six decimal digits, and reads as their value
  in base 31 modulo a million.
\<close>

lemma short_code_is_six_digits:
  "length (short_code token) = 6 \<and> list_all ascii_digit (short_code token)
   \<and> (4 \<le> length token \<longrightarrow> digits_value (short_code token) =
        (((unat (token ! 0) * 31 + unat (token ! 1)) * 31 + unat (token ! 2)) * 31 + unat (token ! 3))
          mod 1000000)"
proof (intro conjI impI)
  show "length (short_code token) = 6" and "list_all ascii_digit (short_code token)"
    using short_code_shape [of token] by (simp_all add: list_all_iff)
next
  assume "4 \<le> length token"
  then obtain a b c d rest where t: "token = a # b # c # d # rest"
    by (auto simp: numeral_eq_Suc Suc_le_length_iff)
  have "short_code token = decimal_width 6
      ((((unat a * 31 + unat b) * 31 + unat c) * 31 + unat d) mod 1000000)"
    using short_code_value [of a b c d]
    by (simp add: short_code_def t unat_mod del: fold_simps)
  then show "digits_value (short_code token) =
        (((unat (token ! 0) * 31 + unat (token ! 1)) * 31 + unat (token ! 2)) * 31 + unat (token ! 3))
          mod 1000000"
    by (simp add: digits_value_width t)
qed

lemma short_code_is_six_digits_witness:
  "digits_value (short_code [255, 255, 255, 255, 7]) = 849920"
  using short_code_is_six_digits [of "[255, 255, 255, 255, 7]"] by simp

end
