(* ===== verification/Tables.thy ===== *)
theory Tables
  imports Prelude
begin

text \<open>
  The contract of a keyed table, which the device store and the two waiter tables of the
  daemon provide and their clients rely on: \<open>put\<close> and \<open>del\<close> change one key, for the
  keys and records the provider supports. \<open>claim_table\<close> adds the operation that removes an
  entry and hands it out.
\<close>

locale keyed_table =
  fixes put :: "'k \<Rightarrow> 'r \<Rightarrow> 's \<Rightarrow> 's"
    and del :: "'k \<Rightarrow> 's \<Rightarrow> 's"
    and look :: "'s \<Rightarrow> 'k \<Rightarrow> 'r option"
    and key_ok :: "'k \<Rightarrow> bool"
    and rec_ok :: "'k \<Rightarrow> 'r \<Rightarrow> bool"
  assumes look_put: "\<lbrakk>key_ok k; key_ok k'; rec_ok k r\<rbrakk> \<Longrightarrow>
      look (put k r s) k' = (if k' = k then Some r else look s k')"
    and look_del: "\<lbrakk>key_ok k; key_ok k'\<rbrakk> \<Longrightarrow>
      look (del k s) k' = (if k' = k then None else look s k')"
begin

lemma put_overwrites:
  "\<lbrakk>key_ok k; key_ok k'; rec_ok k r; rec_ok k r'\<rbrakk> \<Longrightarrow>
     look (put k r' (put k r s)) k' = look (put k r' s) k'"
  by (simp add: look_put)

lemma del_put:
  "\<lbrakk>key_ok k; key_ok k'; rec_ok k r; look s k = None\<rbrakk> \<Longrightarrow>
     look (del k (put k r s)) k' = look s k'"
  by (simp add: look_put look_del)

lemma put_commute:
  "\<lbrakk>key_ok k; key_ok j; key_ok k'; rec_ok k r; rec_ok j q; k \<noteq> j\<rbrakk> \<Longrightarrow>
     look (put k r (put j q s)) k' = look (put j q (put k r s)) k'"
  by (simp add: look_put)

text \<open>After any run of insertions the last record of a key is the one found.\<close>

lemma last_put_wins:
  assumes "key_ok k'" and "\<forall>(k, r) \<in> set kvs. key_ok k \<and> rec_ok k r"
  shows "look (fold (\<lambda>(k, r). put k r) kvs s) k' =
    (case map_of (rev kvs) k' of Some r \<Rightarrow> Some r | None \<Rightarrow> look s k')"
  using assms(2)
proof (induction kvs arbitrary: s)
  case (Cons kv kvs)
  obtain k r where kv: "kv = (k, r)" by fastforce
  have "look (fold (\<lambda>(k, r). put k r) kvs (put k r s)) k' =
      (case map_of (rev kvs) k' of Some r \<Rightarrow> Some r | None \<Rightarrow> look (put k r s) k')"
    using Cons by simp
  moreover have "look (put k r s) k' = (if k' = k then Some r else look s k')"
    using Cons.prems kv assms(1) by (simp add: look_put)
  ultimately show ?case
    by (simp add: kv map_add_def split: option.splits)
qed simp

end

locale claim_table = keyed_table +
  fixes claim :: "'a \<Rightarrow> 'c \<Rightarrow> 'b option \<times> 'c"
  assumes claim_eq: "claim k s = (look s k, del k s)"
begin

lemma claimed_once:
  assumes "key_ok k" and "claim k s = (Some r, s')"
  shows "look s k = Some r" and "fst (claim k s') = None"
  using assms by (auto simp: claim_eq look_del)

lemma claim_other:
  "\<lbrakk>key_ok k; key_ok j; j \<noteq> k; claim k s = (x, s')\<rbrakk> \<Longrightarrow> look s' j = look s j"
  by (auto simp: claim_eq look_del)

lemma claim_after_put:
  "\<lbrakk>key_ok k; rec_ok k r\<rbrakk> \<Longrightarrow> fst (claim k (put k r s)) = Some r"
  by (simp add: claim_eq look_put)

end

end
