(* ===== verification/Store.thy ===== *)
theory Store
  imports RustStd Instances Tables "HOL-Library.Multiset"
begin

text \<open>
  \<open>daemon/crates/kpk-spike/src/store.rs\<close>: the paired-device records, one JSON file per
  device. The device directory is a map from file names to what reading the file gives; the
  order of a directory listing and the outcome of each system call are inputs.
\<close>

record Device =
  dev_id :: string
  dev_name :: string
  dev_model :: string
  dev_owner :: string
  dev_security_level :: string
  dev_verified_boot :: string
  dev_paired_at :: u64
  dev_public_key_pem :: string

definition device_to_json :: "'v serde_json \<Rightarrow> Device \<Rightarrow> 'v" where
  "device_to_json J d = json_object J
     [(''id'', json_string J (dev_id d)), (''name'', json_string J (dev_name d)),
      (''model'', json_string J (dev_model d)), (''owner'', json_string J (dev_owner d)),
      (''securityLevel'', json_string J (dev_security_level d)),
      (''verifiedBoot'', json_string J (dev_verified_boot d)),
      (''pairedAt'', json_number J (dev_paired_at d)),
      (''publicKeyPem'', json_string J (dev_public_key_pem d))]"

definition text_or_empty :: "'v serde_json \<Rightarrow> 'v \<Rightarrow> string \<Rightarrow> string" where
  "text_or_empty J value name = unwrap_or '''' (json_str_field J value name)"

definition device_from_json :: "'v serde_json \<Rightarrow> 'v \<Rightarrow> Device result" where
  "device_from_json J value =
     (let i = text_or_empty J value ''id''
      in if i = '''' then bail ''device record has no id''
         else Inr \<lparr>dev_id = i, dev_name = text_or_empty J value ''name'',
           dev_model = text_or_empty J value ''model'',
           dev_owner = text_or_empty J value ''owner'',
           dev_security_level = text_or_empty J value ''securityLevel'',
           dev_verified_boot = text_or_empty J value ''verifiedBoot'',
           dev_paired_at = unwrap_or 0 (json_u64_field J value ''pairedAt''),
           dev_public_key_pem = text_or_empty J value ''publicKeyPem''\<rparr>)"

subsection \<open>The store and its directory\<close>

type_synonym directory = "string \<rightharpoonup> string result"

record Store =
  st_directory :: path

definition store_open :: "(path \<Rightarrow> unit result) \<Rightarrow> path \<Rightarrow> Store result" where
  "store_open create_dir_all directory =
     tryR (with_context (''creating '' @ directory) (create_dir_all directory))
       (\<lambda>_. Inr \<lparr>st_directory = directory\<rparr>)"

text \<open>The file name \<open>path_for\<close> joins to the directory, and the whole path.\<close>

definition file_for :: "string \<Rightarrow> string" where
  "file_for i = filter (\<lambda>c. ascii_alphanumeric c \<or> c = CHR ''-'') i @ ''.json''"

definition path_for :: "Store \<Rightarrow> string \<Rightarrow> path" where
  "path_for st i = path_join (st_directory st) (file_for i)"

text \<open>The body of the loop of \<open>list\<close>: the device of one entry, or nothing when it is skipped.\<close>

definition load_entry :: "'v serde_json \<Rightarrow> directory \<Rightarrow> string \<Rightarrow> Device option" where
  "load_entry J files name =
     (if extension name \<noteq> Some ''json'' then None
      else case files name of
        None \<Rightarrow> None
      | Some (Inl e) \<Rightarrow> None
      | Some (Inr text) \<Rightarrow>
          (case json_from_str J text of
             Inl e \<Rightarrow> None
           | Inr value \<Rightarrow> result_ok (device_from_json J value)))"

definition list_devices ::
  "'v serde_json \<Rightarrow> Store \<Rightarrow> directory \<Rightarrow> string result list result \<Rightarrow> Device list result" where
  "list_devices J st files read_dir =
     tryR (with_context (''reading '' @ st_directory st) read_dir) (\<lambda>entries.
       Inr (sort_key dev_paired_at
         (filter_map (load_entry J files) (filter_map result_ok entries))))"

text \<open>
  The system calls of \<open>save\<close>. A failed write may have left any contents, or none, in the
  temporary file; a failed \<open>rename\<close> changes nothing.
\<close>

datatype write_outcome = WriteDone | WriteFailed error "string result option"

record save_calls =
  write_call :: write_outcome
  rename_call :: "unit result"
  open_dir_call :: "unit result"
  sync_call :: "unit result"

definition store_save ::
  "'v serde_json \<Rightarrow> Store \<Rightarrow> save_calls \<Rightarrow> Device \<Rightarrow> directory \<Rightarrow> unit result \<times> directory" where
  "store_save J st io d files =
     (let final_name = file_for (dev_id d);
          temporary = with_extension final_name ''json.tmp''
      in case json_to_string_pretty J (device_to_json J d) of
        Inl e \<Rightarrow> (Inl e, files)
      | Inr text \<Rightarrow>
          (case write_call io of
             WriteFailed e leftover \<Rightarrow>
               (Inl ((''writing '' @ path_join (st_directory st) temporary) # e),
                files(temporary := leftover))
           | WriteDone \<Rightarrow>
               let written = files(temporary \<mapsto> Inr text)
               in case rename_call io of
                    Inl e \<Rightarrow> (Inl ((''renaming into '' @ path_for st (dev_id d)) # e), written)
                  | Inr _ \<Rightarrow>
                      let renamed = (written(temporary := None))(final_name \<mapsto> Inr text)
                      in (tryR (with_context (''opening '' @ st_directory st @ '' to fsync'')
                                  (open_dir_call io))
                            (\<lambda>_. with_context ''fsync on the device directory'' (sync_call io)),
                          renamed)))"

definition store_remove ::
  "Store \<Rightarrow> unit result \<Rightarrow> string \<Rightarrow> directory \<Rightarrow> bool result \<times> directory" where
  "store_remove st remove_file i files =
     (let name = file_for i
      in if files name = None then (Inr False, files)
         else case remove_file of
           Inl e \<Rightarrow> (Inl ((''removing '' @ path_for st i) # e), files)
         | Inr _ \<Rightarrow> (Inr True, files(name := None)))"

subsection \<open>File names\<close>

definition safe_id :: "string \<Rightarrow> bool" where
  "safe_id i \<longleftrightarrow> i \<noteq> '''' \<and> (\<forall>c \<in> set i. ascii_alphanumeric c \<or> c = CHR ''-'')"

lemma file_for_safe: "safe_id i \<Longrightarrow> file_for i = i @ ''.json''"
  by (simp add: file_for_def safe_id_def filter_id_conv)

lemma file_for_inj: "safe_id i \<Longrightarrow> safe_id j \<Longrightarrow> file_for i = file_for j \<longleftrightarrow> i = j"
  by (simp add: file_for_safe)

lemma file_for_chars:
  "c \<in> set (file_for i) \<Longrightarrow> ascii_alphanumeric c \<or> c = CHR ''-'' \<or> c = CHR ''.''"
  by (auto simp: file_for_def ascii_alphanumeric_def ascii_digit_def)

lemma dot_json: "CHR ''.'' \<notin> set ''json''" "CHR ''.'' \<notin> set ''tmp''"
  by simp_all

lemma file_for_extension:
  assumes "filter (\<lambda>c. ascii_alphanumeric c \<or> c = CHR ''-'') i \<noteq> ''''"
  shows "extension (file_for i) = Some ''json''"
    and "with_extension (file_for i) ''json.tmp'' =
      filter (\<lambda>c. ascii_alphanumeric c \<or> c = CHR ''-'') i @ ''.json.tmp''"
proof -
  let ?s = "filter (\<lambda>c. ascii_alphanumeric c \<or> c = CHR ''-'') i"
  have "split_extension (?s @ ''.'' @ ''json'') = (?s, Some ''json'')"
    using assms by (intro split_extension_dot) auto
  then show "extension (file_for i) = Some ''json''"
    and "with_extension (file_for i) ''json.tmp'' = ?s @ ''.json.tmp''"
    by (simp_all add: extension_def with_extension_def file_for_def)
qed

text \<open>The temporary file is never one that \<open>list\<close> reads.\<close>

lemma temporary_not_listed:
  "extension (with_extension name ''json.tmp'') \<noteq> Some ''json''"
proof -
  let ?stem = "fst (split_extension name) @ ''.json''"
  have "split_extension (?stem @ ''.'' @ ''tmp'') = (?stem, Some ''tmp'')"
    by (intro split_extension_dot) auto
  then show ?thesis
    by (simp add: extension_def with_extension_def)
qed

lemma load_temporary: "load_entry J files (with_extension name ''json.tmp'') = None"
  using temporary_not_listed [of name] by (simp add: load_entry_def)

subsection \<open>Records\<close>

lemma device_fields:
  assumes "json_objects_ok J"
  shows "device_from_json J (device_to_json J d) =
    (if dev_id d = '''' then bail ''device record has no id'' else Inr d)"
  using assms
  by (simp add: device_from_json_def device_to_json_def text_or_empty_def json_field_defs)

lemma device_to_json_built [simp]: "json_built J (device_to_json J d)"
  by (simp add: device_to_json_def)

subsection \<open>Saving and removing\<close>

definition committed :: "save_calls \<Rightarrow> bool" where
  "committed io \<longleftrightarrow> write_call io = WriteDone \<and> rename_call io = Inr ()"

definition temporary_for :: "string \<Rightarrow> string" where
  "temporary_for i = with_extension (file_for i) ''json.tmp''"

lemma temporary_ne_final: "temporary_for i \<noteq> file_for i"
proof (cases "filter (\<lambda>c. ascii_alphanumeric c \<or> c = CHR ''-'') i = ''''")
  case True
  then have "file_for i = ''.json''" by (simp add: file_for_def)
  then show ?thesis
    by (simp add: temporary_for_def with_extension_def split_extension_def Let_def)
next
  case False
  then show ?thesis
    using file_for_extension [OF False] by (simp add: temporary_for_def file_for_def)
qed

text \<open>The directory after \<open>save\<close>, on every branch.\<close>

lemma save_directory:
  assumes "store_save J st io d files = (r, files')"
    and "json_to_string_pretty J (device_to_json J d) = Inr text"
  shows "name \<noteq> temporary_for (dev_id d) \<Longrightarrow>
    files' name = (if name = file_for (dev_id d) \<and> committed io then Some (Inr text) else files name)"
  using assms temporary_ne_final [of "dev_id d"]
  by (auto simp: store_save_def committed_def temporary_for_def Let_def
      split: write_outcome.splits sum.splits)

lemma save_print_failed:
  "json_to_string_pretty J (device_to_json J d) = Inl e \<Longrightarrow> store_save J st io d files = (Inl e, files)"
  by (simp add: store_save_def Let_def)

lemma save_InrD:
  assumes "store_save J st io d files = (Inr u, files')"
  shows "committed io \<and> (\<exists>text. json_to_string_pretty J (device_to_json J d) = Inr text)"
  using assms
  by (auto simp: store_save_def committed_def Let_def split: write_outcome.splits sum.splits)

definition printable :: "'v serde_json \<Rightarrow> Device \<Rightarrow> bool" where
  "printable J d \<longleftrightarrow> (\<exists>text. json_to_string_pretty J (device_to_json J d) = Inr text)"

lemma load_after_save:
  assumes J: "json_objects_ok J" "json_text_ok J" and i: "safe_id (dev_id d)"
    and p: "printable J d" and s: "store_save J st io d files = (r, files')"
  shows "load_entry J files' name =
    (if name = file_for (dev_id d) \<and> committed io then Some d else load_entry J files name)"
proof -
  obtain body where t: "json_to_string_pretty J (device_to_json J d) = Inr body"
    using p by (auto simp: printable_def)
  have ne: "dev_id d \<noteq> ''''" and ext: "extension (file_for (dev_id d)) = Some ''json''"
    using i file_for_extension(1) [of "dev_id d"] by (auto simp: safe_id_def filter_id_conv)
  have "json_from_str J body = Inr (device_to_json J d)"
    using J(2) device_to_json_built t by (rule json_from_pretty)
  then have new: "files' name = Some (Inr body) \<Longrightarrow> name = file_for (dev_id d) \<Longrightarrow>
      load_entry J files' name = Some d"
    by (simp add: load_entry_def ext device_fields [OF J(1)] ne)
  show ?thesis
  proof (cases "name = temporary_for (dev_id d)")
    case True
    then show ?thesis
      using temporary_ne_final [of "dev_id d"] by (simp add: temporary_for_def load_temporary)
  next
    case False
    have "files' name =
        (if name = file_for (dev_id d) \<and> committed io then Some (Inr body) else files name)"
      by (rule save_directory [OF s t False])
    then show ?thesis
      using new by (cases "name = file_for (dev_id d) \<and> committed io") (auto simp: load_entry_def ext)
  qed
qed

lemma load_after_remove:
  assumes "store_remove st io i files = (Inr b, files')"
  shows "load_entry J files' name = (if name = file_for i then None else load_entry J files name)"
  using assms by (auto simp: store_remove_def load_entry_def Let_def split: if_splits sum.splits)

subsection \<open>The store as a keyed table\<close>

definition calls_ok :: save_calls where
  "calls_ok = \<lparr>write_call = WriteDone, rename_call = Inr (), open_dir_call = Inr (), sync_call = Inr ()\<rparr>"

definition store_put :: "'v serde_json \<Rightarrow> Store \<Rightarrow> string \<Rightarrow> Device \<Rightarrow> directory \<Rightarrow> directory" where
  "store_put J st i d files = snd (store_save J st calls_ok d files)"

definition store_del :: "Store \<Rightarrow> string \<Rightarrow> directory \<Rightarrow> directory" where
  "store_del st i files = snd (store_remove st (Inr ()) i files)"

definition store_look :: "'v serde_json \<Rightarrow> directory \<Rightarrow> string \<Rightarrow> Device option" where
  "store_look J files i = load_entry J files (file_for i)"

definition storable :: "'v serde_json \<Rightarrow> string \<Rightarrow> Device \<Rightarrow> bool" where
  "storable J i d \<longleftrightarrow> json_objects_ok J \<and> json_text_ok J \<and> dev_id d = i \<and> printable J d"

lemma load_after_del:
  "load_entry J (store_del st k s) name = (if name = file_for k then None else load_entry J s name)"
proof -
  have "store_remove st (Inr ()) k s = (Inr (s (file_for k) \<noteq> None), store_del st k s)"
    by (simp add: store_remove_def store_del_def Let_def)
  then show ?thesis by (rule load_after_remove)
qed

interpretation device_table:
  keyed_table "store_put J st" "store_del st" "store_look J" safe_id "storable J" for J st
proof
  fix k k' d s
  assume k: "safe_id k" "safe_id k'" and d: "storable J k d"
  show "store_look J (store_put J st k d s) k' = (if k' = k then Some d else store_look J s k')"
    using load_after_save [of J d st calls_ok s "fst (store_save J st calls_ok d s)"
        "snd (store_save J st calls_ok d s)" "file_for k'"] k d file_for_inj [of k' k]
    by (auto simp: store_put_def store_look_def storable_def committed_def calls_ok_def)
next
  fix k k' s
  assume k: "safe_id k" "safe_id k'"
  show "store_look J (store_del st k s) k' = (if k' = k then None else store_look J s k')"
    using file_for_inj [OF k(2) k(1)] by (simp add: store_look_def load_after_del)
qed

subsection \<open>Listing\<close>

lemma list_InrD:
  assumes "list_devices J st files read_dir = Inr ds"
  shows "\<exists>entries. read_dir = Inr entries \<and>
    ds = sort_key dev_paired_at (filter_map (load_entry J files) (filter_map result_ok entries))"
  using assms by (auto simp: list_devices_def result_simps)

text \<open>A listing that names every file of the directory once.\<close>

definition lists_directory :: "string result list \<Rightarrow> directory \<Rightarrow> bool" where
  "lists_directory entries files \<longleftrightarrow>
     distinct (filter_map result_ok entries) \<and> set (filter_map result_ok entries) = dom files"

lemma load_entry_dom: "load_entry J files name = Some d \<Longrightarrow> name \<in> dom files"
  by (auto simp: load_entry_def split: if_splits option.splits)

lemma set_list_devices:
  assumes "lists_directory entries files" and "list_devices J st files (Inr entries) = Inr ds"
  shows "set ds = {d. \<exists>name. load_entry J files name = Some d}"
proof -
  have "set ds = {d. \<exists>name \<in> dom files. load_entry J files name = Some d}"
    using list_InrD [OF assms(2)] assms(1) by (auto simp: set_filter_map lists_directory_def)
  then show ?thesis
    by (auto dest: load_entry_dom)
qed

lemma list_total: "\<exists>ds. list_devices J st files (Inr entries) = Inr ds"
  by (simp add: list_devices_def)

subsection \<open>Properties\<close>

text \<open>
  C6. Saving is atomic: whatever the outcome of the write, the rename and the sync, and
  whatever a failed write left behind, reading any entry of the directory afterwards gives
  what it gave before, or, for the device's own file and only if the rename was reached, the
  whole new record. Success is reported only if the new record is in place and synced.
\<close>

theorem save_is_atomic:
  assumes "json_objects_ok J" and "json_text_ok J" and "safe_id (dev_id d)"
    and "store_save J st io d files = (r, files')"
  shows "(load_entry J files' name = load_entry J files name
      \<or> name = file_for (dev_id d) \<and> load_entry J files' name = Some d)
    \<and> (r = Inr () \<longrightarrow> load_entry J files' (file_for (dev_id d)) = Some d \<and> sync_call io = Inr ())"
proof (cases "printable J d")
  case True
  note load = load_after_save [OF assms(1,2,3) True assms(4)]
  have "r = Inr () \<Longrightarrow> sync_call io = Inr ()"
    using assms(4)
    by (auto simp: store_save_def Let_def result_simps split: write_outcome.splits sum.splits)
  moreover have "r = Inr () \<Longrightarrow> committed io"
    using save_InrD assms(4) by blast
  ultimately show ?thesis
    using load [of name] load [of "file_for (dev_id d)"] by auto
next
  case False
  then obtain e where "json_to_string_pretty J (device_to_json J d) = Inl e"
    by (metis printable_def sum.exhaust)
  then show ?thesis
    using save_print_failed [of J d e st io files] assms(4) by auto
qed

definition sample_device :: "string \<Rightarrow> u64 \<Rightarrow> Device" where
  "sample_device i at = \<lparr>dev_id = i, dev_name = ''Pixel'', dev_model = ''9'', dev_owner = ''ana'',
     dev_security_level = ''StrongBox'', dev_verified_boot = ''green'', dev_paired_at = at,
     dev_public_key_pem = ''KEY''\<rparr>"

lemma sample_id: "safe_id ''a1''" "safe_id ''b2''" "dev_id (sample_device i at) = i"
  by (simp_all add: safe_id_def ascii_alphanumeric_def ascii_digit_def sample_device_def)

theorem save_is_atomic_witness:
  "\<exists>r files'. store_save toy_json \<lparr>st_directory = ''/d''\<rparr>
       (calls_ok\<lparr>write_call := WriteFailed [''no space''] (Some (Inr ''{\"id\"''))\<rparr>)
       (sample_device ''a1'' 3) Map.empty = (r, files')
     \<and> load_entry toy_json files' (file_for ''a1'') = None"
proof -
  let ?io = "calls_ok\<lparr>write_call := WriteFailed [''no space''] (Some (Inr ''{\"id\"''))\<rparr>"
  obtain r files' where s: "store_save toy_json \<lparr>st_directory = ''/d''\<rparr> ?io (sample_device ''a1'' 3)
      Map.empty = (r, files')" by fastforce
  obtain body where "json_to_string_pretty toy_json (device_to_json toy_json (sample_device ''a1'' 3)) = Inr body"
    using toy_json_printable by blast
  then have "files' (file_for ''a1'') = None"
    using save_directory [OF s, of body "file_for ''a1''"] temporary_ne_final [of "''a1''"]
    by (simp add: sample_id committed_def)
  then have "load_entry toy_json files' (file_for ''a1'') = None"
    by (simp add: load_entry_def)
  then show ?thesis
    using s save_is_atomic [OF toy_json_objects toy_json_text _ s, of "file_for ''a1''"]
    by (auto simp: sample_id)
qed

lemma load_entry_Some_iff:
  "load_entry J files name = Some d \<longleftrightarrow>
     (\<exists>text value. extension name = Some ''json'' \<and> files name = Some (Inr text)
       \<and> json_from_str J text = Inr value \<and> device_from_json J value = Inr d)"
  by (auto simp: load_entry_def result_simps split: option.splits sum.splits)

text \<open>
  C22. Listing returns exactly the records of the directory, oldest pairing first, and skips
  everything else without failing. A record is a file with the extension \<open>json\<close> that can be
  read as JSON with an id: the result holds a device just when some such file describes it,
  one element per file, sorted by pairing time.
\<close>

theorem list_is_complete_and_sorted:
  assumes "lists_directory entries files"
  shows "\<exists>ds. list_devices J st files (Inr entries) = Inr ds \<and> sorted (map dev_paired_at ds)
    \<and> set ds = {d. \<exists>name text value. extension name = Some ''json'' \<and> files name = Some (Inr text)
        \<and> json_from_str J text = Inr value \<and> device_from_json J value = Inr d}
    \<and> length ds = card {name. \<exists>d text value. extension name = Some ''json'' \<and> files name = Some (Inr text)
        \<and> json_from_str J text = Inr value \<and> device_from_json J value = Inr d}"
proof -
  obtain ds where ds: "list_devices J st files (Inr entries) = Inr ds"
    using list_total by blast
  let ?names = "filter_map result_ok entries"
  have e: "ds = sort_key dev_paired_at (filter_map (load_entry J files) ?names)"
    using list_InrD [OF ds] by auto
  have len: "length (filter_map f xs) = length (filter (\<lambda>x. f x \<noteq> None) xs)"
    for f :: "string \<Rightarrow> Device option" and xs
    by (induction xs) (auto split: option.splits)
  have "length ds = card (set (filter (\<lambda>x. load_entry J files x \<noteq> None) ?names))"
    using assms distinct_card [of "filter (\<lambda>x. load_entry J files x \<noteq> None) ?names"]
    by (simp add: e len lists_directory_def del: set_filter)
  also have "set (filter (\<lambda>x. load_entry J files x \<noteq> None) ?names)
      = {name. load_entry J files name \<noteq> None}"
    using assms by (auto simp: lists_directory_def dest: load_entry_dom)
  also have "{name. load_entry J files name \<noteq> None} = {name. \<exists>d. load_entry J files name = Some d}"
    by blast
  finally have n: "length ds = card {name. \<exists>d. load_entry J files name = Some d}" .
  have d: "set ds = {d. \<exists>name. load_entry J files name = Some d}"
    using set_list_devices [OF assms ds] by blast
  show ?thesis
    using ds e n d unfolding load_entry_Some_iff by (intro exI [of _ ds]) simp
qed

definition sample_files :: directory where
  "sample_files = [''a1.json'' \<mapsto> Inr (json_to_string toy_json (device_to_json toy_json (sample_device ''a1'' 3))),
     ''notes.txt'' \<mapsto> Inr ''x'']"

lemma sample_load:
  "load_entry toy_json sample_files name = (if name = ''a1.json'' then Some (sample_device ''a1'' 3) else None)"
proof -
  have a: "extension ''a1.json'' = Some ''json''"
    using split_extension_dot [of "''json''" "''a1''"] by (simp add: extension_def)
  have n: "extension ''notes.txt'' = Some ''txt''"
    using split_extension_dot [of "''txt''" "''notes''"] by (simp add: extension_def)
  show ?thesis
    by (auto simp: load_entry_def sample_files_def a n device_fields sample_id)
qed

theorem list_is_complete_and_sorted_witness:
  "\<exists>ds. list_devices toy_json \<lparr>st_directory = ''/d''\<rparr> sample_files
      (Inr [Inr ''notes.txt'', Inl [''vanished''], Inr ''a1.json'']) = Inr ds
    \<and> set ds = {sample_device ''a1'' 3} \<and> length ds = 1"
proof -
  have l: "lists_directory [Inr ''notes.txt'', Inl [''vanished''], Inr ''a1.json''] sample_files"
    by (auto simp: lists_directory_def sample_files_def split: if_splits)
  have entry: "(\<exists>text value. extension name = Some ''json'' \<and> sample_files name = Some (Inr text)
      \<and> json_from_str toy_json text = Inr value \<and> device_from_json toy_json value = Inr d)
      \<longleftrightarrow> name = ''a1.json'' \<and> d = sample_device ''a1'' 3" for name d
    by (simp only: load_entry_Some_iff [symmetric] sample_load) auto
  have names: "{name. \<exists>d text value. extension name = Some ''json'' \<and> sample_files name = Some (Inr text)
      \<and> json_from_str toy_json text = Inr value \<and> device_from_json toy_json value = Inr d} = {''a1.json''}"
    unfolding entry by simp
  have devices: "{d. \<exists>name text value. extension name = Some ''json'' \<and> sample_files name = Some (Inr text)
      \<and> json_from_str toy_json text = Inr value \<and> device_from_json toy_json value = Inr d} = {sample_device ''a1'' 3}"
    unfolding entry by simp
  show ?thesis
    using list_is_complete_and_sorted [OF l, of toy_json "\<lparr>st_directory = ''/d''\<rparr>"]
    unfolding names devices by auto
qed

lemma path_join_plain:
  "hd name \<noteq> CHR ''/'' \<Longrightarrow>
     \<exists>separator. path_join base name = base @ separator @ name \<and> (separator = '''' \<or> separator = ''/'')"
  by (simp add: path_join_def)

text \<open>
  C31. A device id cannot leave the device directory: for any id at all, and so for one that
  comes over D-Bus, the file a record is kept in is a plain name in the directory, with
  letters, digits, \<open>-\<close> and \<open>.\<close> only and ending in \<open>.json\<close>.
\<close>

theorem path_stays_in_directory:
  "\<exists>separator name. path_for st i = st_directory st @ separator @ name @ ''.json''
     \<and> (separator = '''' \<or> separator = ''/'')
     \<and> list_all (\<lambda>c. ascii_alphanumeric c \<or> c = CHR ''-'') name"
proof -
  let ?name = "filter (\<lambda>c. ascii_alphanumeric c \<or> c = CHR ''-'') i"
  have "file_for i \<noteq> []" by (simp add: file_for_def)
  then have "hd (file_for i) \<noteq> CHR ''/''"
    using file_for_chars [of "hd (file_for i)" i] hd_in_set [of "file_for i"]
    by (auto simp: ascii_alphanumeric_def ascii_digit_def)
  then obtain separator where "path_for st i = st_directory st @ separator @ ?name @ ''.json''"
    and "separator = '''' \<or> separator = ''/''"
    using path_join_plain [of "file_for i" "st_directory st"] by (auto simp: path_for_def file_for_def)
  moreover have "list_all (\<lambda>c. ascii_alphanumeric c \<or> c = CHR ''-'') ?name"
    by (simp add: list_all_iff)
  ultimately show ?thesis by blast
qed

text \<open>
  C21. The directory as a table: for ids made of letters, digits and \<open>-\<close>, after any sequence
  of successful saves the record found under an id is the last one saved under it, or what
  was there before, and removing an id takes away its record and no other.
\<close>

theorem last_save_wins:
  assumes "safe_id i" and "list_all (\<lambda>(k, d). safe_id k \<and> storable J k d) saves"
  shows "store_look J (fold (\<lambda>(k, d). store_put J st k d) saves files) i =
      (case map_of (rev saves) i of Some d \<Rightarrow> Some d | None \<Rightarrow> store_look J files i)
    \<and> store_look J (store_del st i (fold (\<lambda>(k, d). store_put J st k d) saves files)) j =
      (if file_for j = file_for i then None
       else store_look J (fold (\<lambda>(k, d). store_put J st k d) saves files) j)"
proof
  show "store_look J (fold (\<lambda>(k, d). store_put J st k d) saves files) i =
      (case map_of (rev saves) i of Some d \<Rightarrow> Some d | None \<Rightarrow> store_look J files i)"
    using assms by (intro device_table.last_put_wins) (auto simp: list_all_iff)
  show "store_look J (store_del st i s) j = (if file_for j = file_for i then None else store_look J s j)" for s
    by (simp add: store_look_def load_after_del)
qed

theorem last_save_wins_witness:
  "store_look toy_json (fold (\<lambda>(k, d). store_put toy_json \<lparr>st_directory = ''/d''\<rparr> k d)
     [(''a1'', sample_device ''a1'' 3), (''b2'', sample_device ''b2'' 4), (''a1'', sample_device ''a1'' 9)]
     Map.empty) ''a1'' = Some (sample_device ''a1'' 9)"
proof -
  have "storable toy_json k (sample_device k n)" for k n
    using toy_json_printable by (simp add: storable_def sample_id printable_def)
  then show ?thesis
    using last_save_wins [OF sample_id(1), of toy_json
        "[(''a1'', sample_device ''a1'' 3), (''b2'', sample_device ''b2'' 4), (''a1'', sample_device ''a1'' 9)]"
        "\<lparr>st_directory = ''/d''\<rparr>" Map.empty]
    by (simp add: sample_id)
qed

end
