(* ===== verification/Protocol.thy ===== *)
theory Protocol
  imports RustStd Instances
begin

text \<open>
  \<open>daemon/crates/kpk-spike/src/protocol.rs\<close>: the signed request and the phone's reply.
  The challenge, the host name file, \<open>serde_json\<close> and \<open>base64\<close> are inputs.
\<close>

definition CHALLENGE_LEN :: nat where "CHALLENGE_LEN = 32"

record VerifyRequest =
  vr_id :: u64
  vr_challenge :: bytes
  vr_user :: string
  vr_host :: string
  vr_action :: string
  vr_detail :: string

definition protocol_hostname :: "string result \<Rightarrow> string" where
  "protocol_hostname file = (case file of Inl e \<Rightarrow> ''unknown-host'' | Inr name \<Rightarrow> trim name)"

definition VerifyRequest_new ::
  "bytes result \<Rightarrow> string result \<Rightarrow> u64 \<Rightarrow> string \<Rightarrow> string \<Rightarrow> string \<Rightarrow> VerifyRequest result" where
  "VerifyRequest_new entropy host_file i user action detail =
     tryR (with_context ''drawing a challenge from the OS CSPRNG'' entropy) (\<lambda>challenge.
       Inr \<lparr>vr_id = i, vr_challenge = challenge, vr_user = user,
             vr_host = protocol_hostname host_file, vr_action = action, vr_detail = detail\<rparr>)"

definition request_object :: "'v serde_json \<Rightarrow> base64 \<Rightarrow> VerifyRequest \<Rightarrow> 'v" where
  "request_object J B r = json_object J
     [(''v'', json_number J 1), (''type'', json_string J ''verify.request''),
      (''id'', json_number J (vr_id r)),
      (''challenge'', json_string J (b64_encode B (vr_challenge r))),
      (''user'', json_string J (vr_user r)), (''host'', json_string J (vr_host r)),
      (''action'', json_string J (vr_action r)), (''detail'', json_string J (vr_detail r))]"

definition to_line :: "'v serde_json \<Rightarrow> base64 \<Rightarrow> VerifyRequest \<Rightarrow> string" where
  "to_line J B r = json_to_string J (request_object J B r)"

record VerifyResponse =
  resp_id :: u64
  resp_signature :: bytes
  resp_denied :: "string option"

definition parse_response :: "'v serde_json \<Rightarrow> base64 \<Rightarrow> string \<Rightarrow> VerifyResponse result" where
  "parse_response J B line =
     tryR (with_context ''phone sent invalid JSON'' (json_from_str J line)) (\<lambda>value.
     tryR (ok_or ''response has no id'' (json_u64_field J value ''id'')) (\<lambda>i.
       case json_str_field J value ''denied'' of
         Some reason \<Rightarrow>
           Inr \<lparr>resp_id = i, resp_signature = [], resp_denied = Some reason\<rparr>
       | None \<Rightarrow>
           tryR (ok_or ''response has neither sig nor denied'' (json_str_field J value ''sig''))
             (\<lambda>encoded.
           tryR (with_context ''sig is not valid base64'' (b64_decode B encoded)) (\<lambda>signature.
             Inr \<lparr>resp_id = i, resp_signature = signature, resp_denied = None\<rparr>))))"

subsection \<open>Lemmas\<close>

lemma request_object_fields:
  assumes "json_objects_ok J"
  shows "json_u64_field J (request_object J B r) ''id'' = Some (vr_id r)"
    and "json_str_field J (request_object J B r) ''challenge'' = Some (b64_encode B (vr_challenge r))"
    and "json_str_field J (request_object J B r) ''user'' = Some (vr_user r)"
    and "json_str_field J (request_object J B r) ''host'' = Some (vr_host r)"
    and "json_str_field J (request_object J B r) ''action'' = Some (vr_action r)"
    and "json_str_field J (request_object J B r) ''detail'' = Some (vr_detail r)"
  using assms by (simp_all add: request_object_def json_field_defs)

lemma request_object_built [simp]: "json_built J (request_object J B r)"
  by (simp add: request_object_def)

lemma to_line_eq_iff:
  assumes "json_objects_ok J" and "json_text_ok J" and "base64_ok B"
  shows "to_line J B r = to_line J B r' \<longleftrightarrow> r = r'"
proof
  assume "to_line J B r = to_line J B r'"
  then have eq: "request_object J B r = request_object J B r'"
    by (simp add: to_line_def json_to_string_inj [OF assms(2)])
  have "b64_encode B (vr_challenge r) = b64_encode B (vr_challenge r')"
    using request_object_fields(2) [OF assms(1), of B] eq by (metis option.inject)
  then have "vr_challenge r = vr_challenge r'"
    by (simp add: b64_encode_inj [OF assms(3)])
  moreover have "vr_id r = vr_id r'"
    using request_object_fields(1) [OF assms(1), of B] eq by (metis option.inject)
  moreover have "vr_user r = vr_user r' \<and> vr_host r = vr_host r'"
    using request_object_fields(3,4) [OF assms(1), of B] eq by (metis option.inject)
  moreover have "vr_action r = vr_action r' \<and> vr_detail r = vr_detail r'"
    using request_object_fields(5,6) [OF assms(1), of B] eq by (metis option.inject)
  ultimately show "r = r'" by simp
qed simp

lemma parse_response_denied:
  assumes "json_from_str J line = Inr v" and "json_u64_field J v ''id'' = Some i"
    and "json_str_field J v ''denied'' = Some reason"
  shows "parse_response J B line = Inr \<lparr>resp_id = i, resp_signature = [], resp_denied = Some reason\<rparr>"
  using assms by (simp add: parse_response_def)

lemma parse_response_InrD:
  assumes "parse_response J B line = Inr resp"
  shows "\<exists>v. json_from_str J line = Inr v \<and> json_u64_field J v ''id'' = Some (resp_id resp)
    \<and> resp_denied resp = json_str_field J v ''denied''
    \<and> (resp_denied resp = None \<longrightarrow>
        (\<exists>encoded. json_str_field J v ''sig'' = Some encoded
           \<and> b64_decode B encoded = Inr (resp_signature resp)))"
  using assms by (auto simp: parse_response_def result_simps split: option.splits)

subsection \<open>Properties\<close>

text \<open>
  C14. What the phone signs binds the whole request: two requests are sent as the same bytes
  only if id, challenge, user, host, action and detail are all equal, so a signature for one
  is a signature for no other; and the line cannot be split by the framing.
\<close>

theorem signed_line_binds_request:
  assumes "json_objects_ok J" and "json_text_ok J" and "base64_ok B"
  shows "(as_bytes (to_line J B r) = as_bytes (to_line J B r') \<longleftrightarrow> r = r')
    \<and> newline \<notin> set (to_line J B r)"
  using to_line_eq_iff [OF assms] json_to_string_line [OF assms(2)]
  by (simp add: inj_as_bytes newline_def) (simp add: to_line_def)

theorem signed_line_binds_request_witness:
  "\<exists>r r'. vr_action r = ''sudo'' \<and> vr_action r' = ''login''
     \<and> as_bytes (to_line toy_json toy_base64 r) \<noteq> as_bytes (to_line toy_json toy_base64 r')"
proof -
  let ?r = "\<lambda>action. \<lparr>vr_id = 1, vr_challenge = [1], vr_user = ''ana'', vr_host = ''desk'',
    vr_action = action, vr_detail = ''''\<rparr>"
  have "as_bytes (to_line toy_json toy_base64 (?r ''sudo''))
      \<noteq> as_bytes (to_line toy_json toy_base64 (?r ''login''))"
    using signed_line_binds_request [OF toy_json_objects toy_json_text toy_base64_ok,
        of "?r ''sudo''" "?r ''login''"] by simp
  then show ?thesis by (intro exI [of _ "?r ''sudo''"] exI [of _ "?r ''login''"]) simp
qed

text \<open>
  Reading the phone's answer: a signed answer comes back with its id and signature, a
  refusal with its id and reason, and a refusal wins when an answer carries both.
\<close>

definition signed_answer :: "'v serde_json \<Rightarrow> base64 \<Rightarrow> u64 \<Rightarrow> bytes \<Rightarrow> (string \<times> 'v) list" where
  "signed_answer J B i sig =
     [(''id'', json_number J i), (''sig'', json_string J (b64_encode B sig))]"

lemma parse_response_reads_answers:
  assumes "json_objects_ok J" and "json_text_ok J" and "base64_ok B"
  shows "parse_response J B (json_to_string J (json_object J (signed_answer J B i sig))) =
      Inr \<lparr>resp_id = i, resp_signature = sig, resp_denied = None\<rparr>
    \<and> parse_response J B (json_to_string J (json_object J
        (signed_answer J B i sig @ [(''denied'', json_string J reason)]))) =
      Inr \<lparr>resp_id = i, resp_signature = [], resp_denied = Some reason\<rparr>"
  using assms by (simp add: parse_response_def signed_answer_def json_field_defs)

lemma parse_response_reads_answers_witness:
  "parse_response toy_json toy_base64
     (json_to_string toy_json (json_object toy_json (signed_answer toy_json toy_base64 5 [1, 2, 3]))) =
   Inr \<lparr>resp_id = 5, resp_signature = [1, 2, 3], resp_denied = None\<rparr>"
  using parse_response_reads_answers [OF toy_json_objects toy_json_text toy_base64_ok, of 5 "[1, 2, 3]"]
  by blast

end
