(* ===== verification/Server.thy ===== *)
theory Server
  imports Link Pairing Store Protocol
begin

text \<open>
  \<open>daemon/crates/kpk-spike/src/server.rs\<close>: the daemon's state and its operations, each an
  uninterrupted stretch of an \<open>async fn\<close> between two points where it may be suspended. The
  theory \<open>Concurrency\<close> interleaves them. Logging is left out; the clocks, the entropy, the
  directory listing, the environment and the outcome of each system call are inputs.
\<close>

record ('v, 'pk, 'vk, 'sig) crates =
  cr_json :: "'v serde_json"
  cr_b64 :: base64
  cr_b64url :: base64
  cr_p256 :: "('pk, 'vk, 'sig) p256"
  cr_sha256 :: "bytes \<Rightarrow> bytes"

subsection \<open>State\<close>

text \<open>
  A \<open>oneshot\<close> channel is named by the task that holds its receiving end. What that end
  sees is a mailbox: nothing yet, a value, or that the sender was dropped unused. The
  channels of \<open>Pending\<close> carry \<open>Result<Vec<u8>, String>\<close>, those of \<open>PendingJson\<close> a JSON
  value.
\<close>

datatype 'm mailbox = Empty | Delivered 'm | Dropped

type_synonym verdict = "string + bytes"

record 'v daemon =
  dm_store :: Store
  dm_files :: directory
  dm_pairings :: Pairings
  dm_next_id :: u64
  dm_outbound :: "nat option"
  dm_pending :: "u64 \<rightharpoonup> nat"
  dm_pending_json :: "u64 \<rightharpoonup> nat"
  dm_mail :: "nat \<Rightarrow> verdict mailbox"
  dm_json_mail :: "nat \<Rightarrow> 'v mailbox"
  dm_sent :: "(nat \<times> string) list"

definition daemon_new :: "Store \<Rightarrow> directory \<Rightarrow> 'v daemon" where
  "daemon_new st files = \<lparr>dm_store = st, dm_files = files, dm_pairings = pairings_new,
     dm_next_id = 1, dm_outbound = None, dm_pending = Map.empty, dm_pending_json = Map.empty,
     dm_mail = (\<lambda>_. Empty), dm_json_mail = (\<lambda>_. Empty), dm_sent = []\<rparr>"

subsection \<open>Waiter tables\<close>

text \<open>
  \<open>HashMap::insert\<close> drops a sender it replaces, which its receiver notices;
  \<open>HashMap::remove\<close> without a use of the result drops the sender it removes. A sender that
  was used is gone already.
\<close>

definition drop_sender :: "nat option \<Rightarrow> (nat \<Rightarrow> 'm mailbox) \<Rightarrow> nat \<Rightarrow> 'm mailbox" where
  "drop_sender old mail =
     (case old of
        Some ch \<Rightarrow> (case mail ch of Empty \<Rightarrow> mail(ch := Dropped) | _ \<Rightarrow> mail)
      | None \<Rightarrow> mail)"

definition insert_waiter :: "u64 \<Rightarrow> nat \<Rightarrow> 'v daemon \<Rightarrow> 'v daemon" where
  "insert_waiter i ch d =
     d\<lparr>dm_pending := (dm_pending d)(i \<mapsto> ch), dm_mail := drop_sender (dm_pending d i) (dm_mail d)\<rparr>"

definition insert_json_waiter :: "u64 \<Rightarrow> nat \<Rightarrow> 'v daemon \<Rightarrow> 'v daemon" where
  "insert_json_waiter i ch d =
     d\<lparr>dm_pending_json := (dm_pending_json d)(i \<mapsto> ch),
       dm_json_mail := drop_sender (dm_pending_json d i) (dm_json_mail d)\<rparr>"

definition claim_waiter :: "u64 \<Rightarrow> 'v daemon \<Rightarrow> nat option \<times> 'v daemon" where
  "claim_waiter i d = (dm_pending d i, d\<lparr>dm_pending := (dm_pending d)(i := None)\<rparr>)"

definition claim_json_waiter :: "u64 \<Rightarrow> 'v daemon \<Rightarrow> nat option \<times> 'v daemon" where
  "claim_json_waiter i d = (dm_pending_json d i, d\<lparr>dm_pending_json := (dm_pending_json d)(i := None)\<rparr>)"

definition remove_waiter :: "u64 \<Rightarrow> 'v daemon \<Rightarrow> 'v daemon" where
  "remove_waiter i d =
     (case claim_waiter i d of (old, d') \<Rightarrow> d'\<lparr>dm_mail := drop_sender old (dm_mail d')\<rparr>)"

definition remove_json_waiter :: "u64 \<Rightarrow> 'v daemon \<Rightarrow> 'v daemon" where
  "remove_json_waiter i d =
     (case claim_json_waiter i d of (old, d') \<Rightarrow>
        d'\<lparr>dm_json_mail := drop_sender old (dm_json_mail d')\<rparr>)"

definition send_mail :: "nat \<Rightarrow> verdict \<Rightarrow> 'v daemon \<Rightarrow> 'v daemon" where
  "send_mail ch m d = d\<lparr>dm_mail := (dm_mail d)(ch := Delivered m)\<rparr>"

definition send_json_mail :: "nat \<Rightarrow> 'v \<Rightarrow> 'v daemon \<Rightarrow> 'v daemon" where
  "send_json_mail ch m d = d\<lparr>dm_json_mail := (dm_json_mail d)(ch := Delivered m)\<rparr>"

lemmas waiter_defs =
  insert_waiter_def insert_json_waiter_def claim_waiter_def claim_json_waiter_def
  remove_waiter_def remove_json_waiter_def send_mail_def send_json_mail_def

text \<open>
  Both tables keep the contract of a claim table: an id is looked up, inserted and removed
  on its own, and a claimed waiter is gone. Two inserts at one id keep the later one.
\<close>

interpretation waiters:
  claim_table insert_waiter "\<lambda>i d. snd (claim_waiter i d)" dm_pending
    "\<lambda>_. True" "\<lambda>_ _. True" claim_waiter
  by unfold_locales (auto simp: waiter_defs)

interpretation json_waiters:
  claim_table insert_json_waiter "\<lambda>i d. snd (claim_json_waiter i d)" dm_pending_json
    "\<lambda>_. True" "\<lambda>_ _. True" claim_json_waiter
  by unfold_locales (auto simp: waiter_defs)

subsection \<open>The phone connection\<close>

definition adopt_phone :: "nat \<Rightarrow> 'v daemon \<Rightarrow> 'v daemon" where
  "adopt_phone conn d = d\<lparr>dm_outbound := Some conn\<rparr>"

text \<open>The messages the reading task of \<open>adopt_phone\<close> hands on, from the bytes received.\<close>

function phone_messages :: "string \<Rightarrow> string list" where
  "phone_messages stream =
     (if stream = [] then []
      else case read_line stream of
        (Inl e, rest) \<Rightarrow> []
      | (Inr line, rest) \<Rightarrow>
          (let trimmed = trim line
           in (if trimmed = '''' then [] else [trimmed]) @ phone_messages rest))"
  by pat_completeness auto
termination
  by (relation "measure length") (auto dest: read_line_shorter)

declare phone_messages.simps [simp del]

definition send_line :: "unit result \<Rightarrow> string \<Rightarrow> 'v daemon \<Rightarrow> unit result \<times> 'v daemon" where
  "send_line written line d =
     (case dm_outbound d of
        None \<Rightarrow> (bail ''no phone connected'', d)
      | Some conn \<Rightarrow>
          (case written of
             Inl e \<Rightarrow> (Inl e, d)
           | Inr _ \<Rightarrow> (Inr (), d\<lparr>dm_sent := dm_sent d @ [(conn, line @ [newline])]\<rparr>)))"

subsection \<open>deliver\<close>

definition deliver_assertion ::
  "('v, 'pk, 'vk, 'sig) crates \<Rightarrow> string \<Rightarrow> 'v daemon \<Rightarrow> 'v daemon" where
  "deliver_assertion C line d =
     (case parse_response (cr_json C) (cr_b64 C) line of
        Inl e \<Rightarrow> d
      | Inr response \<Rightarrow>
          (case claim_waiter (resp_id response) d of
             (None, d') \<Rightarrow> d'
           | (Some waiter, d') \<Rightarrow>
               let outcome = (case resp_denied response of
                                None \<Rightarrow> Inr (resp_signature response)
                              | Some reason \<Rightarrow> Inl reason)
               in send_mail waiter outcome d'))"

definition json_id :: "'v serde_json \<Rightarrow> string \<Rightarrow> ('v \<times> u64) option" where
  "json_id J line =
     Option.bind (result_ok (json_from_str J line)) (\<lambda>value.
       map_option (\<lambda>i. (value, i)) (json_u64_field J value ''id''))"

definition deliver :: "('v, 'pk, 'vk, 'sig) crates \<Rightarrow> string \<Rightarrow> 'v daemon \<Rightarrow> 'v daemon" where
  "deliver C line d =
     (case json_id (cr_json C) line of
        None \<Rightarrow> deliver_assertion C line d
      | Some (value, i) \<Rightarrow>
          (case claim_json_waiter i d of
             (Some waiter, d') \<Rightarrow> send_json_mail waiter value d'
           | (None, d') \<Rightarrow> deliver_assertion C line d'))"

subsection \<open>Pairing\<close>

record pair_inputs =
  pi_instant :: nat
  pi_unix_secs :: "u64 option"
  pi_user :: "string option"
  pi_save :: save_calls
  pi_written :: "unit result"

definition pair_device ::
  "('v, 'pk, 'vk, 'sig) crates \<Rightarrow> pair_inputs \<Rightarrow> 'v \<Rightarrow> PairingSession \<Rightarrow> Device result" where
  "pair_device C env value session =
     (let J = cr_json C; public_key_pem = text_or_empty J value ''publicKeyPem'' in
      tryR (with_context ''device sent an unusable public key''
             (load_verifying_key (cr_p256 C) public_key_pem)) (\<lambda>_.
      let label = (if ps_label session = '''' then text_or_empty J value ''name''
                   else ps_label session)
      in tryR (key_id (cr_p256 C) (cr_sha256 C) public_key_pem) (\<lambda>i.
        Inr \<lparr>dev_id = i, dev_name = label, dev_model = text_or_empty J value ''model'',
              dev_owner = unwrap_or ''unknown'' (pi_user env),
              dev_security_level = text_or_empty J value ''securityLevel'',
              dev_verified_boot = text_or_empty J value ''verifiedBoot'',
              dev_paired_at = unwrap_or 0 (pi_unix_secs env),
              dev_public_key_pem = public_key_pem\<rparr>)))"

definition record_device ::
  "('v, 'pk, 'vk, 'sig) crates \<Rightarrow> pair_inputs \<Rightarrow> Device \<Rightarrow> 'v daemon \<Rightarrow> unit result \<times> 'v daemon" where
  "record_device C env device d =
     (case store_save (cr_json C) (dm_store d) (pi_save env) device (dm_files d) of
        (Inl e, files) \<Rightarrow> (Inl e, d\<lparr>dm_files := files\<rparr>)
      | (Inr _, files) \<Rightarrow>
          (let J = cr_json C in
           send_line (pi_written env)
             (json_to_string J (json_object J
               [(''t'', json_string J ''pair.result''), (''ok'', json_bool J True),
                (''id'', json_string J (dev_id device))]))
             (d\<lparr>dm_files := files\<rparr>)))"

definition complete_pairing ::
  "('v, 'pk, 'vk, 'sig) crates \<Rightarrow> pair_inputs \<Rightarrow> string \<Rightarrow> 'v daemon \<Rightarrow> unit result \<times> 'v daemon" where
  "complete_pairing C env line d =
     (let J = cr_json C in
      case tryR (with_context ''invalid pair.request'' (json_from_str J line)) (\<lambda>value.
           tryR (with_context ''pairing token is not base64url''
                   (b64_decode (cr_b64url C) (text_or_empty J value ''token'')))
             (\<lambda>token. Inr (value, token))) of
        Inl e \<Rightarrow> (Inl e, d)
      | Inr (value, token) \<Rightarrow>
          (case take_matching (pi_instant env) token (dm_pairings d) of
             (None, p) \<Rightarrow> (bail ''no matching pairing window is open'', d\<lparr>dm_pairings := p\<rparr>)
           | (Some session, p) \<Rightarrow>
               (case pair_device C env value session of
                  Inl e \<Rightarrow> (Inl e, d\<lparr>dm_pairings := p\<rparr>)
                | Inr device \<Rightarrow> record_device C env device (d\<lparr>dm_pairings := p\<rparr>))))"

subsection \<open>on\_phone\_message\<close>

definition message_kind :: "'v serde_json \<Rightarrow> string \<Rightarrow> string option" where
  "message_kind J line =
     Option.bind (result_ok (json_from_str J line)) (\<lambda>value. json_str_field J value ''t'')"

definition pair_refused :: "'v serde_json \<Rightarrow> error \<Rightarrow> 'v" where
  "pair_refused J error = json_object J
     [(''t'', json_string J ''pair.result''), (''ok'', json_bool J False),
      (''reason'', json_string J (display_chain error))]"

definition on_phone_message ::
  "('v, 'pk, 'vk, 'sig) crates \<Rightarrow> pair_inputs \<Rightarrow> unit result \<Rightarrow> string \<Rightarrow> 'v daemon \<Rightarrow> 'v daemon" where
  "on_phone_message C env refusal_written line d =
     (if message_kind (cr_json C) line = Some ''pair.request'' then
        (case complete_pairing C env line d of
           (Inl error, d') \<Rightarrow>
             snd (send_line refusal_written
               (json_to_string (cr_json C) (pair_refused (cr_json C) error)) d')
         | (Inr _, d') \<Rightarrow> d')
      else deliver C line d)"

subsection \<open>run\_verification\<close>

definition active_device ::
  "('v, 'pk, 'vk, 'sig) crates \<Rightarrow> string result list result \<Rightarrow> 'v daemon \<Rightarrow> Device result" where
  "active_device C read_dir d =
     tryR (list_devices (cr_json C) (dm_store d) (dm_files d) read_dir) (\<lambda>devices.
       ok_or ''no paired device; pair one from System Settings''
         (case devices of [] \<Rightarrow> None | device # _ \<Rightarrow> Some device))"

text \<open>\<open>fetch_add\<close> wraps.\<close>

definition fetch_id :: "'v daemon \<Rightarrow> u64 \<times> 'v daemon" where
  "fetch_id d = (dm_next_id d, d\<lparr>dm_next_id := dm_next_id d + 1\<rparr>)"

record verify_inputs =
  vi_read_dir :: "string result list result"
  vi_entropy :: "bytes result"
  vi_host :: "string result"

text \<open>Lines 219 to 224, up to the first lock: the device's key, the id and the request.\<close>

definition start_verification ::
  "('v, 'pk, 'vk, 'sig) crates \<Rightarrow> verify_inputs \<Rightarrow> string \<Rightarrow> string \<Rightarrow> string \<Rightarrow> 'v daemon
   \<Rightarrow> (Device \<times> 'vk \<times> VerifyRequest) result \<times> 'v daemon" where
  "start_verification C env user action detail d =
     (case tryR (active_device C (vi_read_dir env) d) (\<lambda>device.
           tryR (load_verifying_key (cr_p256 C) (dev_public_key_pem device)) (\<lambda>key.
             Inr (device, key))) of
        Inl e \<Rightarrow> (Inl e, d)
      | Inr (device, key) \<Rightarrow>
          (case fetch_id d of (i, d') \<Rightarrow>
             (tryR (VerifyRequest_new (vi_entropy env) (vi_host env) i user action detail)
                (\<lambda>request. Inr (device, key, request)), d')))"

text \<open>Lines 229 to 232: the request is sent, or its waiter withdrawn.\<close>

definition send_verification ::
  "('v, 'pk, 'vk, 'sig) crates \<Rightarrow> unit result \<Rightarrow> VerifyRequest \<Rightarrow> 'v daemon \<Rightarrow> unit result \<times> 'v daemon" where
  "send_verification C written request d =
     (case send_line written (to_line (cr_json C) (cr_b64 C) request) d of
        (Inl e, d') \<Rightarrow> (bail ''no phone connected'', remove_waiter (vr_id request) d')
      | (Inr _, d') \<Rightarrow> (Inr (), d'))"

text \<open>What \<open>tokio::time::timeout\<close> around the receiver returns.\<close>

datatype 'm wait = Received 'm | SenderDropped | TimedOut

definition timeout_text :: "string \<Rightarrow> string" where
  "timeout_text limit = ''phone did not respond within '' @ limit"

text \<open>
  Lines 235 to 250. \<open>limit\<close> is the configured wait as \<open>Duration\<close> prints it.
\<close>

definition finish_verification ::
  "('v, 'pk, 'vk, 'sig) crates \<Rightarrow> string \<Rightarrow> 'vk \<Rightarrow> VerifyRequest \<Rightarrow> verdict wait \<Rightarrow> 'v daemon
   \<Rightarrow> unit result \<times> 'v daemon" where
  "finish_verification C limit key request w d =
     (case w of
        Received (Inr signature) \<Rightarrow>
          (verify_assertion (cr_p256 C) key (to_line (cr_json C) (cr_b64 C) request) signature, d)
      | Received (Inl reason) \<Rightarrow> (bail (''denied on the phone: '' @ reason), d)
      | SenderDropped \<Rightarrow> (bail ''verification was abandoned'', remove_waiter (vr_id request) d)
      | TimedOut \<Rightarrow> (bail (timeout_text limit), remove_waiter (vr_id request) d))"

subsection \<open>ask\_phone and the WebAuthn requests\<close>

text \<open>Lines 254 to 258: the request with its id, and the line it is sent as.\<close>

definition start_ask :: "('v, 'pk, 'vk, 'sig) crates \<Rightarrow> 'v \<Rightarrow> 'v daemon \<Rightarrow> (u64 \<times> string) \<times> 'v daemon" where
  "start_ask C request d =
     (case fetch_id d of (i, d') \<Rightarrow>
        (let J = cr_json C;
             request' = unwrap_or request (json_insert J request ''id'' (json_number J i))
         in ((i, json_to_string J request'), d')))"

definition send_ask :: "unit result \<Rightarrow> u64 \<Rightarrow> string \<Rightarrow> 'v daemon \<Rightarrow> unit result \<times> 'v daemon" where
  "send_ask written i line d =
     (case send_line written line d of
        (Inl e, d') \<Rightarrow> (bail ''no phone connected'', remove_json_waiter i d')
      | (Inr _, d') \<Rightarrow> (Inr (), d'))"

definition finish_ask ::
  "('v, 'pk, 'vk, 'sig) crates \<Rightarrow> string \<Rightarrow> u64 \<Rightarrow> 'v wait \<Rightarrow> 'v daemon \<Rightarrow> 'v result \<times> 'v daemon" where
  "finish_ask C limit i w d =
     (case w of
        Received reply \<Rightarrow>
          (case json_str_field (cr_json C) reply ''denied'' of
             Some reason \<Rightarrow> (bail (''denied on the phone: '' @ reason), d)
           | None \<Rightarrow> (Inr reply, d))
      | SenderDropped \<Rightarrow> (bail ''the request was abandoned'', remove_json_waiter i d)
      | TimedOut \<Rightarrow> (bail (timeout_text limit), remove_json_waiter i d))"

definition makecred_request :: "'v serde_json \<Rightarrow> string \<Rightarrow> string \<Rightarrow> 'v" where
  "makecred_request J rp_id user_name = json_object J
     [(''v'', json_number J 1), (''type'', json_string J ''webauthn.makecred''),
      (''rpId'', json_string J rp_id), (''userName'', json_string J user_name)]"

text \<open>Lines 304 to 321: what the daemon answers from the phone's reply.\<close>

definition makecred_answer :: "('v, 'pk, 'vk, 'sig) crates \<Rightarrow> 'v \<Rightarrow> 'v result" where
  "makecred_answer C reply =
     (let J = cr_json C in
      tryR (ok_or ''phone returned no credential id'' (json_str_field J reply ''credId''))
        (\<lambda>credential_id.
      tryR (ok_or ''phone returned no public key'' (json_str_field J reply ''publicKeyPem''))
        (\<lambda>public_key_pem.
      tryR (with_context ''phone returned an unusable credential key''
              (load_verifying_key (cr_p256 C) public_key_pem)) (\<lambda>_.
        Inr (json_object J
          [(''ok'', json_bool J True), (''credId'', json_string J credential_id),
           (''publicKeyPem'', json_string J public_key_pem)])))))"

definition assert_request :: "'v serde_json \<Rightarrow> string \<Rightarrow> string \<Rightarrow> string \<Rightarrow> 'v" where
  "assert_request J rp_id credential_id payload_b64 = json_object J
     [(''v'', json_number J 1), (''type'', json_string J ''webauthn.assert''),
      (''rpId'', json_string J rp_id), (''credId'', json_string J credential_id),
      (''payload'', json_string J payload_b64)]"

definition assert_answer :: "('v, 'pk, 'vk, 'sig) crates \<Rightarrow> 'v \<Rightarrow> 'v result" where
  "assert_answer C reply =
     (let J = cr_json C in
      tryR (ok_or ''phone returned no signature'' (json_str_field J reply ''sig'')) (\<lambda>signature.
        Inr (json_object J [(''ok'', json_bool J True), (''sig'', json_string J signature)])))"

text \<open>
  \<open>webauthn_make_credential\<close> checks that a device is paired before it asks;
  \<open>webauthn_assert\<close> does not.
\<close>

datatype webauthn_call =
    MakeCredentialCall string string
  | AssertCall string string string

definition webauthn_request ::
  "('v, 'pk, 'vk, 'sig) crates \<Rightarrow> string result list result \<Rightarrow> webauthn_call \<Rightarrow> 'v daemon \<Rightarrow> 'v result" where
  "webauthn_request C read_dir call d =
     (case call of
        MakeCredentialCall rp_id user_name \<Rightarrow>
          tryR (active_device C read_dir d)
            (\<lambda>device. Inr (makecred_request (cr_json C) rp_id user_name))
      | AssertCall rp_id credential_id payload_b64 \<Rightarrow>
          Inr (assert_request (cr_json C) rp_id credential_id payload_b64))"

definition webauthn_answer :: "('v, 'pk, 'vk, 'sig) crates \<Rightarrow> webauthn_call \<Rightarrow> 'v \<Rightarrow> 'v result" where
  "webauthn_answer C call reply =
     (case call of
        MakeCredentialCall rp_id user_name \<Rightarrow> makecred_answer C reply
      | AssertCall rp_id credential_id payload_b64 \<Rightarrow> assert_answer C reply)"

subsection \<open>handle\_pam\<close>

datatype pam_call =
    PamVerify string string string
  | PamWebauthn webauthn_call

text \<open>
  Lines 353 to 408: the request a client of the socket makes. The peer's user id is read
  first, and only printed.
\<close>

definition starts_with :: "string \<Rightarrow> string \<Rightarrow> bool" where
  "starts_with prefix s \<longleftrightarrow> take (length prefix) s = prefix"

definition pam_request :: "'v serde_json \<Rightarrow> u32 result \<Rightarrow> string \<Rightarrow> pam_call result" where
  "pam_request J peer_cred stream =
     tryR (with_context ''reading peer credentials'' peer_cred) (\<lambda>peer_uid.
     tryR (with_context ''reading the PAM request'' (fst (read_line stream))) (\<lambda>line.
     tryR (with_context ''PAM client sent invalid JSON'' (json_from_str J (trim line))) (\<lambda>request.
       let field = (\<lambda>name fallback. unwrap_or fallback (json_str_field J request name));
           operation = field ''op'' ''verify''
       in if starts_with ''webauthn.'' operation then
            (if operation = ''webauthn.makecred''
               then Inr (PamWebauthn (MakeCredentialCall (field ''rpId'' '''') (field ''userName'' ''user'')))
             else if operation = ''webauthn.assert''
               then Inr (PamWebauthn
                  (AssertCall (field ''rpId'' '''') (field ''credId'' '''') (field ''payload'' '''')))
             else bail (''unknown operation '' @ operation))
          else Inr (PamVerify (field ''user'' ''unknown'') (field ''action'' ''unknown'')
                     (field ''detail'' '''')))))"

text \<open>Lines 393 to 400 and 411 to 426: the line written back.\<close>

definition verdict_json :: "'v serde_json \<Rightarrow> unit result \<Rightarrow> 'v" where
  "verdict_json J outcome =
     (case outcome of
        Inr _ \<Rightarrow> json_object J [(''ok'', json_bool J True), (''reason'', json_string J ''success'')]
      | Inl error \<Rightarrow> json_object J
          [(''ok'', json_bool J False), (''reason'', json_string J (display_chain error))])"

definition verdict_line :: "'v serde_json \<Rightarrow> unit result \<Rightarrow> string" where
  "verdict_line J outcome = json_to_string J (verdict_json J outcome) @ [newline]"

definition webauthn_json :: "'v serde_json \<Rightarrow> 'v result \<Rightarrow> 'v" where
  "webauthn_json J outcome =
     (case outcome of
        Inr reply \<Rightarrow> reply
      | Inl error \<Rightarrow> json_object J
          [(''ok'', json_bool J False), (''error'', json_string J (display_chain error))])"

definition webauthn_line :: "'v serde_json \<Rightarrow> 'v result \<Rightarrow> string" where
  "webauthn_line J outcome = json_to_string J (webauthn_json J outcome) @ [newline]"

subsection \<open>The probe client and import\<close>

definition probe_request :: "'v serde_json \<Rightarrow> string option \<Rightarrow> string \<Rightarrow> string \<Rightarrow> string" where
  "probe_request J user action detail =
     json_to_string J (json_object J
       [(''user'', json_string J (unwrap_or ''unknown'' user)),
        (''action'', json_string J action), (''detail'', json_string J detail)]) @ [newline]"

text \<open>Lines 498 to 520: approved, or the error the client exits with.\<close>

definition probe_verdict :: "'v serde_json \<Rightarrow> string \<Rightarrow> unit result" where
  "probe_verdict J stream =
     tryR (with_context ''reading the verdict'' (fst (read_line stream))) (\<lambda>reply.
     tryR (with_context ''daemon sent invalid JSON'' (json_from_str J (trim reply))) (\<lambda>verdict.
       let approved = unwrap_or False (json_bool_field J verdict ''ok'');
           reason = unwrap_or ''no reason'' (json_str_field J verdict ''reason'')
       in if approved then Inr () else bail (''DENIED ('' @ reason @ '')'')))"

definition import_device ::
  "('v, 'pk, 'vk, 'sig) crates \<Rightarrow> (path \<Rightarrow> unit result) \<Rightarrow> (path \<Rightarrow> string result) \<Rightarrow> u64 option
   \<Rightarrow> string option \<Rightarrow> save_calls \<Rightarrow> path \<Rightarrow> path \<Rightarrow> string \<Rightarrow> string \<Rightarrow> directory
   \<Rightarrow> unit result \<times> directory" where
  "import_device C create_dir_all read_file unix_secs user io devices_dir pubkey_path name model files =
     (case tryR (store_open create_dir_all devices_dir) (\<lambda>st.
           tryR (with_context (''reading '' @ pubkey_path) (read_file pubkey_path)) (\<lambda>public_key_pem.
           tryR (with_context ''that file is not a P-256 public key''
                   (load_verifying_key (cr_p256 C) public_key_pem)) (\<lambda>_.
           tryR (key_id (cr_p256 C) (cr_sha256 C) public_key_pem) (\<lambda>i.
             Inr (st, \<lparr>dev_id = i, dev_name = name, dev_model = model,
                       dev_owner = unwrap_or ''unknown'' user,
                       dev_security_level = ''TrustedEnvironment'', dev_verified_boot = ''green'',
                       dev_paired_at = unwrap_or 0 unix_secs,
                       dev_public_key_pem = public_key_pem\<rparr>))))) of
        Inl e \<Rightarrow> (Inl e, files)
      | Inr (st, device) \<Rightarrow> store_save (cr_json C) st io device files)"

subsection \<open>The crates of the witnesses\<close>

definition toy_crates :: "(jval, string, string, bytes) crates" where
  "toy_crates = \<lparr>cr_json = toy_json, cr_b64 = toy_base64, cr_b64url = toy_base64,
     cr_p256 = toy_p256, cr_sha256 = toy_sha256\<rparr>"

lemma toy_crates_simps [simp]:
  "cr_json toy_crates = toy_json" "cr_b64 toy_crates = toy_base64"
  "cr_b64url toy_crates = toy_base64" "cr_p256 toy_crates = toy_p256"
  "cr_sha256 toy_crates = toy_sha256"
  by (simp_all add: toy_crates_def)

end
