(* ===== verification/Dbus.thy ===== *)
theory Dbus
  imports Link Pairing Store
begin

text \<open>
  \<open>daemon/crates/kpk-spike/src/dbus.rs\<close>: the manager object System Settings calls. It
  holds the store and the pairing window the daemon shares; \<open>zbus\<close> itself is left out, and
  a method's \<open>fdo::Error::Failed\<close> is its text.
\<close>

record DeviceEntry =
  de_id :: string
  de_name :: string
  de_model :: string
  de_owner :: string
  de_security_level :: string
  de_verified_boot :: string
  de_paired_at :: u64
  de_fingerprint :: string

definition fdo_failed :: "'a result \<Rightarrow> string + 'a" where
  "fdo_failed r = (case r of Inl error \<Rightarrow> Inl (display_chain error) | Inr x \<Rightarrow> Inr x)"

definition manager_version ::
  "'v serde_json \<Rightarrow> string \<Rightarrow> Store \<Rightarrow> directory \<Rightarrow> string result list result \<Rightarrow> string" where
  "manager_version J pkg_version st files read_dir =
     (let count = (case list_devices J st files read_dir of
                     Inl e \<Rightarrow> 0
                   | Inr devices \<Rightarrow> length devices)
      in pkg_version @ '' ('' @ decimal count @ '' paired)'')"

definition device_entry ::
  "('pk, 'vk, 'sig) p256 \<Rightarrow> (bytes \<Rightarrow> bytes) \<Rightarrow> Device \<Rightarrow> DeviceEntry" where
  "device_entry K sha256 device =
     \<lparr>de_id = dev_id device, de_name = dev_name device, de_model = dev_model device,
      de_owner = dev_owner device, de_security_level = dev_security_level device,
      de_verified_boot = dev_verified_boot device, de_paired_at = dev_paired_at device,
      de_fingerprint =
        (case key_fingerprint K sha256 (dev_public_key_pem device) of
           Inl e \<Rightarrow> ''unreadable key''
         | Inr text \<Rightarrow> text)\<rparr>"

definition manager_list_devices ::
  "'v serde_json \<Rightarrow> ('pk, 'vk, 'sig) p256 \<Rightarrow> (bytes \<Rightarrow> bytes) \<Rightarrow> Store \<Rightarrow> directory
   \<Rightarrow> string result list result \<Rightarrow> string + DeviceEntry list" where
  "manager_list_devices J K sha256 st files read_dir =
     (case fdo_failed (list_devices J st files read_dir) of
        Inl e \<Rightarrow> Inl e
      | Inr devices \<Rightarrow> Inr (map (device_entry K sha256) devices))"

text \<open>The last component tells whether \<open>devices_changed\<close> was emitted.\<close>

definition manager_remove_device ::
  "Store \<Rightarrow> unit result \<Rightarrow> string \<Rightarrow> directory \<Rightarrow> (string + bool) \<times> directory \<times> bool" where
  "manager_remove_device st remove_file i files =
     (case store_remove st remove_file i files of
        (r, files') \<Rightarrow>
          (case fdo_failed r of
             Inl e \<Rightarrow> (Inl e, files', False)
           | Inr removed \<Rightarrow> (Inr removed, files', removed)))"

definition manager_begin_pairing ::
  "base64 \<Rightarrow> bytes result \<Rightarrow> string \<Rightarrow> string option \<Rightarrow> nat \<Rightarrow> string \<Rightarrow> Pairings
   \<Rightarrow> (string + string \<times> string) \<times> Pairings" where
  "manager_begin_pairing B64URL entropy host lan now label p =
     (case pairings_begin B64URL entropy host lan now label p of
        (r, p') \<Rightarrow>
          (case fdo_failed r of
             Inl e \<Rightarrow> (Inl e, p')
           | Inr session \<Rightarrow> (Inr (ps_uri session, ps_short_code session), p')))"

definition manager_cancel_pairing :: "Pairings \<Rightarrow> Pairings" where
  "manager_cancel_pairing p = pairings_cancel p"

definition manager_pairing_seconds_left :: "nat \<Rightarrow> nat \<Rightarrow> Pairings \<Rightarrow> u32 \<times> Pairings" where
  "manager_pairing_seconds_left now later p = seconds_left now later p"

end
