(* ===== verification/Concurrency.thy ===== *)
theory Concurrency
  imports Server Dbus
begin

text \<open>
  The daemon as a transition system. Every connection of the socket is a task that moves
  through the suspension points of \<open>run_verification\<close> or \<open>ask_phone\<close>; between any two of
  its moves other tasks, the phone, whoever can write to its connection, the accept loop and
  System Settings may move. The lines that arrive on a phone connection are arbitrary.
\<close>

subsection \<open>Tasks\<close>

text \<open>
  A task has taken its id, then registered its waiter and waits for the lock of \<open>outbound\<close>,
  then holds that lock while its request is written, then waits for the reply; \<open>Verified\<close>
  keeps the locals of \<open>run_verification\<close> beside its result.
\<close>

datatype stage = Allocated | Registered | Sending | Sent

text \<open>A task passes its stages in this order.\<close>

fun stage_rank :: "stage \<Rightarrow> nat" where
  "stage_rank Allocated = 0"
| "stage_rank Registered = 1"
| "stage_rank Sending = 2"
| "stage_rank Sent = 3"

instantiation stage :: linorder
begin

definition less_eq_stage :: "stage \<Rightarrow> stage \<Rightarrow> bool" where
  "less_eq_stage a b \<longleftrightarrow> stage_rank a \<le> stage_rank b"

definition less_stage :: "stage \<Rightarrow> stage \<Rightarrow> bool" where
  "less_stage a b \<longleftrightarrow> stage_rank a < stage_rank b"

instance
proof
  fix a b :: stage
  show "a \<le> b \<Longrightarrow> b \<le> a \<Longrightarrow> a = b"
    by (cases a; cases b) (simp_all add: less_eq_stage_def)
qed (auto simp: less_eq_stage_def less_stage_def)

end

lemma stage_less [simp]: "Allocated < Registered" "Registered < Sending" "Sending < Sent"
  by (simp_all add: less_stage_def)

datatype ('v, 'vk) status =
    Verifying Device 'vk VerifyRequest stage
  | Verified "(Device \<times> 'vk \<times> VerifyRequest) option" "unit result"
  | Asking u64 string stage
  | Answered "'v result"

record ('v, 'vk) system =
  sy_daemon :: "'v daemon"
  sy_tasks :: "nat \<rightharpoonup> pam_call \<times> ('v, 'vk) status"
  sy_writer :: "nat option"
  sy_adopting :: "nat option"
  sy_accepted :: "nat set"
  sy_heard :: "string list"
  sy_ids :: nat

text \<open>
  \<open>sy_writer\<close> is the task that holds the lock of \<open>outbound\<close> while \<open>send_line\<close> writes;
  \<open>sy_adopting\<close> is the phone connection the accept loop of \<open>serve\<close> is adopting, where
  \<open>adopt_phone\<close> waits for that lock, and \<open>sy_accepted\<close> the socket connections it has handed to
  a task. \<open>sy_heard\<close> and \<open>sy_ids\<close> are history: the phone lines handled and the number of ids
  taken.
\<close>

definition system_init :: "Store \<Rightarrow> directory \<Rightarrow> ('v, 'vk) system" where
  "system_init st files =
     \<lparr>sy_daemon = daemon_new st files, sy_tasks = Map.empty, sy_writer = None, sy_adopting = None,
      sy_accepted = {}, sy_heard = [], sy_ids = 0\<rparr>"

definition set_task ::
  "nat \<Rightarrow> pam_call \<Rightarrow> ('v, 'vk) status \<Rightarrow> 'v daemon \<Rightarrow> ('v, 'vk) system \<Rightarrow> ('v, 'vk) system" where
  "set_task t call status d s = s\<lparr>sy_daemon := d, sy_tasks := (sy_tasks s)(t \<mapsto> (call, status))\<rparr>"

text \<open>What the receiver of a channel may see: its value, that the sender is gone, or the timeout.\<close>

definition may_see :: "'m mailbox \<Rightarrow> 'm wait \<Rightarrow> bool" where
  "may_see box w =
     (case w of
        Received m \<Rightarrow> box = Delivered m
      | SenderDropped \<Rightarrow> box = Dropped
      | TimedOut \<Rightarrow> True)"

subsection \<open>Steps\<close>

definition verify_started :: "(Device \<times> 'vk \<times> VerifyRequest) result \<Rightarrow> ('v, 'vk) status" where
  "verify_started r =
     (case r of Inl e \<Rightarrow> Verified None (Inl e) | Inr (dev, key, req) \<Rightarrow> Verifying dev key req Allocated)"

definition verify_sent :: "Device \<Rightarrow> 'vk \<Rightarrow> VerifyRequest \<Rightarrow> unit result \<Rightarrow> ('v, 'vk) status" where
  "verify_sent dev key req r =
     (case r of Inl e \<Rightarrow> Verified (Some (dev, key, req)) (Inl e) | Inr _ \<Rightarrow> Verifying dev key req Sent)"

definition ask_sent :: "u64 \<Rightarrow> string \<Rightarrow> unit result \<Rightarrow> ('v, 'vk) status" where
  "ask_sent i line r = (case r of Inl e \<Rightarrow> Answered (Inl e) | Inr _ \<Rightarrow> Asking i line Sent)"

text \<open>
  The arms of the loop of \<open>serve\<close>. \<open>adopt_phone\<close> runs in the loop itself, so while it waits
  for the lock nothing else is accepted; a socket connection gets a task of its own.
\<close>

definition accept_phone :: "nat \<Rightarrow> ('v, 'vk) system \<Rightarrow> ('v, 'vk) system" where
  "accept_phone conn s = s\<lparr>sy_adopting := Some conn\<rparr>"

definition finish_adopting :: "nat \<Rightarrow> ('v, 'vk) system \<Rightarrow> ('v, 'vk) system" where
  "finish_adopting conn s = s\<lparr>sy_daemon := adopt_phone conn (sy_daemon s), sy_adopting := None\<rparr>"

definition accept_pam :: "nat \<Rightarrow> ('v, 'vk) system \<Rightarrow> ('v, 'vk) system" where
  "accept_pam t s = s\<lparr>sy_accepted := insert t (sy_accepted s)\<rparr>"

text \<open>
  \<open>send_verify\<close> and \<open>send_ask\<close> are the return of the write the task began when it took the lock.
  Nothing bounds the time between the two: \<open>send_line\<close> has no timeout.
\<close>

inductive step ::
  "('v, 'pk, 'vk, 'sig) crates \<Rightarrow> ('v, 'vk) system \<Rightarrow> ('v, 'vk) system \<Rightarrow> bool"
  for C :: "('v, 'pk, 'vk, 'sig) crates" where
  accept_phone: "sy_adopting s = None \<Longrightarrow> step C s (accept_phone conn s)"
| connect: "\<lbrakk>sy_adopting s = Some conn; sy_writer s = None\<rbrakk> \<Longrightarrow> step C s (finish_adopting conn s)"
| accept_pam: "sy_adopting s = None \<Longrightarrow> step C s (accept_pam t s)"
| hear: "step C s (s\<lparr>sy_daemon := on_phone_message C env written line (sy_daemon s),
                     sy_heard := line # sy_heard s\<rparr>)"
| begin_pairing: "step C s (s\<lparr>sy_daemon := (sy_daemon s)\<lparr>dm_pairings :=
      snd (manager_begin_pairing (cr_b64url C) entropy host lan now label
             (dm_pairings (sy_daemon s)))\<rparr>\<rparr>)"
| cancel_pairing: "step C s (s\<lparr>sy_daemon := (sy_daemon s)\<lparr>dm_pairings :=
      manager_cancel_pairing (dm_pairings (sy_daemon s))\<rparr>\<rparr>)"
| poll_pairing: "step C s (s\<lparr>sy_daemon := (sy_daemon s)\<lparr>dm_pairings :=
      snd (manager_pairing_seconds_left now later (dm_pairings (sy_daemon s)))\<rparr>\<rparr>)"
| remove_device: "step C s (s\<lparr>sy_daemon := (sy_daemon s)\<lparr>dm_files :=
      fst (snd (manager_remove_device (dm_store (sy_daemon s)) unlinked dev
             (dm_files (sy_daemon s))))\<rparr>\<rparr>)"
| start_verify: "\<lbrakk>sy_tasks s t = None;
    start_verification C venv user action detail (sy_daemon s) = (r, d); t \<in> sy_accepted s\<rbrakk> \<Longrightarrow>
    step C s (set_task t (PamVerify user action detail) (verify_started r) d
      (s\<lparr>sy_ids := sy_ids s + (if dm_next_id d = dm_next_id (sy_daemon s) then 0 else 1)\<rparr>))"
| register_verify: "sy_tasks s t = Some (call, Verifying dev key req Allocated) \<Longrightarrow>
    step C s (set_task t call (Verifying dev key req Registered)
      (insert_waiter (vr_id req) t (sy_daemon s)) s)"
| lock_verify: "\<lbrakk>sy_tasks s t = Some (call, Verifying dev key req Registered); sy_writer s = None\<rbrakk> \<Longrightarrow>
    step C s (set_task t call (Verifying dev key req Sending) (sy_daemon s) (s\<lparr>sy_writer := Some t\<rparr>))"
| send_verify: "\<lbrakk>sy_tasks s t = Some (call, Verifying dev key req Sending);
    send_verification C written req (sy_daemon s) = (r, d)\<rbrakk> \<Longrightarrow>
    step C s (set_task t call (verify_sent dev key req r) d (s\<lparr>sy_writer := None\<rparr>))"
| finish_verify: "\<lbrakk>sy_tasks s t = Some (call, Verifying dev key req Sent);
    may_see (dm_mail (sy_daemon s) t) w;
    finish_verification C limit key req w (sy_daemon s) = (r, d)\<rbrakk> \<Longrightarrow>
    step C s (set_task t call (Verified (Some (dev, key, req)) r) d s)"
| refuse_ask: "\<lbrakk>sy_tasks s t = None;
    webauthn_request C read_dir wcall (sy_daemon s) = Inl e; t \<in> sy_accepted s\<rbrakk> \<Longrightarrow>
    step C s (set_task t (PamWebauthn wcall) (Answered (Inl e)) (sy_daemon s) s)"
| start_ask: "\<lbrakk>sy_tasks s t = None;
    webauthn_request C read_dir wcall (sy_daemon s) = Inr request;
    start_ask C request (sy_daemon s) = ((i, line), d); t \<in> sy_accepted s\<rbrakk> \<Longrightarrow>
    step C s (set_task t (PamWebauthn wcall) (Asking i line Allocated) d
      (s\<lparr>sy_ids := sy_ids s + 1\<rparr>))"
| register_ask: "sy_tasks s t = Some (call, Asking i line Allocated) \<Longrightarrow>
    step C s (set_task t call (Asking i line Registered)
      (insert_json_waiter i t (sy_daemon s)) s)"
| lock_ask: "\<lbrakk>sy_tasks s t = Some (call, Asking i line Registered); sy_writer s = None\<rbrakk> \<Longrightarrow>
    step C s (set_task t call (Asking i line Sending) (sy_daemon s) (s\<lparr>sy_writer := Some t\<rparr>))"
| send_ask: "\<lbrakk>sy_tasks s t = Some (call, Asking i line Sending);
    send_ask written i line (sy_daemon s) = (r, d)\<rbrakk> \<Longrightarrow>
    step C s (set_task t call (ask_sent i line r) d (s\<lparr>sy_writer := None\<rparr>))"
| finish_ask: "\<lbrakk>sy_tasks s t = Some (PamWebauthn wcall, Asking i line Sent);
    may_see (dm_json_mail (sy_daemon s) t) w;
    finish_ask C limit i w (sy_daemon s) = (r, d)\<rbrakk> \<Longrightarrow>
    step C s (set_task t (PamWebauthn wcall) (Answered (tryR r (webauthn_answer C wcall))) d s)"

inductive reachable ::
  "('v, 'pk, 'vk, 'sig) crates \<Rightarrow> Store \<Rightarrow> directory \<Rightarrow> ('v, 'vk) system \<Rightarrow> bool"
  for C :: "('v, 'pk, 'vk, 'sig) crates" and st files where
  init: "reachable C st files (system_init st files)"
| step: "reachable C st files s \<Longrightarrow> step C s s' \<Longrightarrow> reachable C st files s'"

subsection \<open>What each operation touches\<close>

text \<open>The part of the daemon the waiting tasks depend on.\<close>

definition waiting_part ::
  "'v daemon \<Rightarrow> u64 \<times> (u64 \<rightharpoonup> nat) \<times> (u64 \<rightharpoonup> nat) \<times> (nat \<Rightarrow> verdict mailbox) \<times> (nat \<Rightarrow> 'v mailbox)" where
  "waiting_part d = (dm_next_id d, dm_pending d, dm_pending_json d, dm_mail d, dm_json_mail d)"

lemma waiting_part_eqD:
  assumes "waiting_part d' = waiting_part d"
  shows "dm_next_id d' = dm_next_id d" "dm_pending d' = dm_pending d"
    "dm_pending_json d' = dm_pending_json d" "dm_mail d' = dm_mail d"
    "dm_json_mail d' = dm_json_mail d"
  using assms by (simp_all add: waiting_part_def)

lemma waiting_part_updates [simp]:
  "waiting_part (d\<lparr>dm_files := f\<rparr>) = waiting_part d"
  "waiting_part (d\<lparr>dm_pairings := p\<rparr>) = waiting_part d"
  "waiting_part (d\<lparr>dm_outbound := c\<rparr>) = waiting_part d"
  "waiting_part (d\<lparr>dm_sent := l\<rparr>) = waiting_part d"
  by (simp_all add: waiting_part_def)

lemma send_line_waiting: "send_line w line d = (r, d') \<Longrightarrow> waiting_part d' = waiting_part d"
  by (auto simp: send_line_def split: option.splits sum.splits)

lemma record_device_waiting:
  "record_device C env dev d = (r, d') \<Longrightarrow> waiting_part d' = waiting_part d"
  by (auto simp: record_device_def Let_def dest!: send_line_waiting split: prod.splits sum.splits)

lemma complete_pairing_waiting:
  "complete_pairing C env line d = (r, d') \<Longrightarrow> waiting_part d' = waiting_part d"
  by (auto simp: complete_pairing_def Let_def dest!: record_device_waiting
      split: prod.splits sum.splits option.splits)

text \<open>
  Handling a phone line leaves the waiting part alone, or hands one verification its
  verdict, or hands one WebAuthn request its value.
\<close>

definition verdict_of :: "VerifyResponse \<Rightarrow> verdict" where
  "verdict_of resp =
     (case resp_denied resp of None \<Rightarrow> Inr (resp_signature resp) | Some reason \<Rightarrow> Inl reason)"

lemma claim_none [simp]:
  "dm_pending d i = None \<Longrightarrow> claim_waiter i d = (None, d)"
  "dm_pending_json d i = None \<Longrightarrow> claim_json_waiter i d = (None, d)"
  by (simp_all add: waiter_defs fun_upd_idem)

lemma deliver_assertion_simps:
  "parse_response (cr_json C) (cr_b64 C) line = Inl e \<Longrightarrow> deliver_assertion C line d = d"
  "\<lbrakk>parse_response (cr_json C) (cr_b64 C) line = Inr resp; dm_pending d (resp_id resp) = None\<rbrakk> \<Longrightarrow>
     deliver_assertion C line d = d"
  "\<lbrakk>parse_response (cr_json C) (cr_b64 C) line = Inr resp; dm_pending d (resp_id resp) = Some ch\<rbrakk> \<Longrightarrow>
     deliver_assertion C line d = send_mail ch (verdict_of resp)
       (d\<lparr>dm_pending := (dm_pending d)(resp_id resp := None)\<rparr>)"
  by (simp_all add: deliver_assertion_def Let_def) (simp add: claim_waiter_def verdict_of_def)

lemma deliver_assertion_cases:
  obtains (same) "deliver_assertion C line d = d"
  | (verdict) resp ch where "parse_response (cr_json C) (cr_b64 C) line = Inr resp"
      "dm_pending d (resp_id resp) = Some ch"
      "deliver_assertion C line d = send_mail ch (verdict_of resp)
         (d\<lparr>dm_pending := (dm_pending d)(resp_id resp := None)\<rparr>)"
proof (cases "parse_response (cr_json C) (cr_b64 C) line")
  case (Inr resp)
  then show ?thesis
    using same verdict deliver_assertion_simps(2,3) [OF Inr]
    by (cases "dm_pending d (resp_id resp)") auto
qed (use same deliver_assertion_simps(1) in blast)

lemma deliver_simps:
  "json_id (cr_json C) line = None \<Longrightarrow> deliver C line d = deliver_assertion C line d"
  "\<lbrakk>json_id (cr_json C) line = Some (v, i); dm_pending_json d i = None\<rbrakk> \<Longrightarrow>
     deliver C line d = deliver_assertion C line d"
  "\<lbrakk>json_id (cr_json C) line = Some (v, i); dm_pending_json d i = Some ch\<rbrakk> \<Longrightarrow>
     deliver C line d = send_json_mail ch v
       (d\<lparr>dm_pending_json := (dm_pending_json d)(i := None)\<rparr>)"
  by (simp_all add: deliver_def) (simp add: claim_json_waiter_def)

lemma deliver_cases:
  obtains (assertion) "deliver C line d = deliver_assertion C line d"
  | (json) v i ch where "json_id (cr_json C) line = Some (v, i)"
      "dm_pending_json d i = Some ch"
      "deliver C line d = send_json_mail ch v
         (d\<lparr>dm_pending_json := (dm_pending_json d)(i := None)\<rparr>)"
proof (cases "json_id (cr_json C) line")
  case (Some vi)
  obtain v i where "vi = (v, i)" by fastforce
  with Some show ?thesis
    using assertion json deliver_simps(2,3) [of C line v i d]
    by (cases "dm_pending_json d i") auto
qed (use assertion deliver_simps(1) in blast)

lemma on_phone_message_cases:
  obtains (same) "waiting_part (on_phone_message C env w line d) = waiting_part d"
  | (verdict) resp ch where "parse_response (cr_json C) (cr_b64 C) line = Inr resp"
      "dm_pending d (resp_id resp) = Some ch"
      "on_phone_message C env w line d = send_mail ch (verdict_of resp)
         (d\<lparr>dm_pending := (dm_pending d)(resp_id resp := None)\<rparr>)"
  | (json) v i ch where "json_id (cr_json C) line = Some (v, i)"
      "dm_pending_json d i = Some ch"
      "on_phone_message C env w line d = send_json_mail ch v
         (d\<lparr>dm_pending_json := (dm_pending_json d)(i := None)\<rparr>)"
proof (cases "message_kind (cr_json C) line = Some ''pair.request''")
  case True
  obtain r d1 where c: "complete_pairing C env line d = (r, d1)" by fastforce
  obtain r2 d2 where l: "send_line w
      (json_to_string (cr_json C) (pair_refused (cr_json C) (case r of Inl e \<Rightarrow> e | Inr _ \<Rightarrow> [])))
      d1 = (r2, d2)" by fastforce
  have "on_phone_message C env w line d = (case r of Inl e \<Rightarrow> d2 | Inr _ \<Rightarrow> d1)"
    using True c l by (auto simp: on_phone_message_def split: sum.splits)
  then show ?thesis
    using same complete_pairing_waiting [OF c] send_line_waiting [OF l]
    by (auto split: sum.splits)
next
  case False
  then have e: "on_phone_message C env w line d = deliver C line d"
    by (simp add: on_phone_message_def)
  show ?thesis
  proof (cases rule: deliver_cases [of C line d])
    case assertion
    then show ?thesis
      using deliver_assertion_cases [of C line d] e same verdict by metis
  next
    case (json v i ch)
    then show ?thesis using e that(3) by simp
  qed
qed

end
