(* ===== verification/Waiters.thy ===== *)
theory Waiters
  imports Concurrency
begin

text \<open>
  The waiter tables under every interleaving: an abstract protocol of one table, the proof
  that each step of the system is a step of it for both tables, and the invariants of the
  reachable states that follow, with ids that are not shared.
\<close>

subsection \<open>The waiter tables and the tasks agree\<close>

text \<open>
  Where a task stands with respect to one table: it does not exist, it holds an id at a
  stage, or it does not use this table or has ended. Both tables obey the same invariant: a
  registered channel belongs to a task that registered under that id and has seen nothing
  yet, and a task that has not registered has an empty mailbox.
\<close>

datatype phase = Fresh | At u64 stage | Over

definition verify_phase :: "('v, 'vk) system \<Rightarrow> nat \<Rightarrow> phase" where
  "verify_phase s t =
     (case sy_tasks s t of
        None \<Rightarrow> Fresh
      | Some (call, Verifying dev key req st) \<Rightarrow> At (vr_id req) st
      | Some _ \<Rightarrow> Over)"

definition ask_phase :: "('v, 'vk) system \<Rightarrow> nat \<Rightarrow> phase" where
  "ask_phase s t =
     (case sy_tasks s t of
        None \<Rightarrow> Fresh
      | Some (call, Asking i line st) \<Rightarrow> At i st
      | Some _ \<Rightarrow> Over)"

definition waits :: "phase \<Rightarrow> u64 \<Rightarrow> bool" where
  "waits ph i \<longleftrightarrow> ph = At i Registered \<or> ph = At i Sending \<or> ph = At i Sent"

definition unregistered :: "phase \<Rightarrow> bool" where
  "unregistered ph \<longleftrightarrow> ph = Fresh \<or> (\<exists>i. ph = At i Allocated)"

definition table_ok :: "(nat \<Rightarrow> phase) \<Rightarrow> (u64 \<rightharpoonup> nat) \<Rightarrow> (nat \<Rightarrow> 'm mailbox) \<Rightarrow> bool" where
  "table_ok ph table mail \<longleftrightarrow>
     (\<forall>i t. table i = Some t \<longrightarrow> waits (ph t) i \<and> mail t = Empty)
     \<and> (\<forall>t. unregistered (ph t) \<longrightarrow> mail t = Empty)"

text \<open>And, while ids are not reused, a waiting task that has seen nothing is registered.\<close>

definition table_full :: "(nat \<Rightarrow> phase) \<Rightarrow> (u64 \<rightharpoonup> nat) \<Rightarrow> (nat \<Rightarrow> 'm mailbox) \<Rightarrow> bool" where
  "table_full ph table mail \<longleftrightarrow>
     (\<forall>i t. waits (ph t) i \<and> mail t = Empty \<longrightarrow> table i = Some t)"

definition ids_distinct :: "(nat \<Rightarrow> phase) \<Rightarrow> bool" where
  "ids_distinct ph \<longleftrightarrow> (\<forall>t t' i st st'. ph t = At i st \<and> ph t' = At i st' \<longrightarrow> t = t')"

lemma waits_simps [simp]:
  "\<not> waits Fresh i" "\<not> waits Over i" "\<not> waits (At j Allocated) i"
  "waits (At j Registered) i \<longleftrightarrow> i = j" "waits (At j Sending) i \<longleftrightarrow> i = j"
  "waits (At j Sent) i \<longleftrightarrow> i = j"
  by (auto simp: waits_def)

lemma unregistered_simps [simp]:
  "unregistered Fresh" "unregistered (At i Allocated)" "\<not> unregistered Over"
  "\<not> unregistered (At i Registered)" "\<not> unregistered (At i Sending)" "\<not> unregistered (At i Sent)"
  by (auto simp: unregistered_def)

lemma waits_id: "waits ph i \<Longrightarrow> waits ph j \<Longrightarrow> i = j"
  by (auto simp: waits_def)

lemma waits_registered: "waits ph i \<Longrightarrow> \<not> unregistered ph"
  by (auto simp: waits_def)

lemma drop_sender_eq:
  "drop_sender old mail t = (if old = Some t \<and> mail t = Empty then Dropped else mail t)"
  by (auto simp: drop_sender_def split: option.splits mailbox.splits)

lemma table_okD:
  assumes "table_ok ph table mail"
  shows "table i = Some t \<Longrightarrow> waits (ph t) i" "table i = Some t \<Longrightarrow> mail t = Empty"
    "unregistered (ph t) \<Longrightarrow> mail t = Empty"
  using assms by (auto simp: table_ok_def)

lemma table_ok_other:
  "\<lbrakk>table_ok ph table mail; table i = Some t; table j = Some t\<rbrakk> \<Longrightarrow> i = j"
  using table_okD(1) waits_id by metis

subsubsection \<open>The moves of a task preserve the invariant of its table\<close>

lemma table_ok_phase:
  assumes "table_ok ph table mail" and "\<And>i. table i = Some t \<Longrightarrow> waits x i"
    and "unregistered x \<Longrightarrow> mail t = Empty"
  shows "table_ok (ph(t := x)) table mail"
  using assms by (auto simp: table_ok_def)

lemma table_ok_take:
  assumes ok: "table_ok ph table mail" and i: "table i = Some ch"
  shows "table_ok ph (table(i := None)) (mail(ch := b))"
  unfolding table_ok_def
proof (intro conjI allI impI)
  fix j t assume j: "(table(i := None)) j = Some t"
  then have "table j = Some t" and "j \<noteq> i" by (auto split: if_splits)
  then show "waits (ph t) j" and "(mail(ch := b)) t = Empty"
    using i table_okD(1,2) [OF ok] table_ok_other [OF ok, of i ch j] by auto
next
  fix t assume "unregistered (ph t)"
  then show "(mail(ch := b)) t = Empty"
    using table_okD(3) [OF ok, of t] table_okD(1) [OF ok i] waits_registered [of "ph ch" i]
    by (cases "t = ch") auto
qed

lemma table_ok_drop:
  assumes ok: "table_ok ph table mail"
  shows "table_ok ph (table(i := None)) (drop_sender (table i) mail)"
proof (cases "table i")
  case None
  with ok show ?thesis by (simp add: drop_sender_def fun_upd_idem)
next
  case (Some ch)
  then have "drop_sender (table i) mail = mail(ch := Dropped)"
    using table_okD(2) [OF ok Some] by (simp add: drop_sender_def)
  then show ?thesis
    using table_ok_take [OF ok Some] by simp
qed

lemma table_ok_put:
  assumes "table_ok ph table mail" and "waits (ph t) i" and "mail t = Empty"
  shows "table_ok ph (table(i \<mapsto> t)) mail"
  using assms by (auto simp: table_ok_def)

lemma not_in_table:
  "\<lbrakk>table_ok ph table mail; unregistered (ph t)\<rbrakk> \<Longrightarrow> table i \<noteq> Some t"
  using table_okD(1) waits_registered by metis

lemma table_ok_start:
  assumes "table_ok ph table mail" and "ph t = Fresh"
  shows "table_ok (ph(t := At i Allocated)) table mail" "table_ok (ph(t := Over)) table mail"
proof -
  have out: "table j \<noteq> Some t" and empty: "mail t = Empty" for j
    using not_in_table [OF assms(1), of t] table_okD(3) [OF assms(1), of t] assms(2) by auto
  show "table_ok (ph(t := At i Allocated)) table mail"
    by (rule table_ok_phase [OF assms(1)]) (use out empty in auto)
  show "table_ok (ph(t := Over)) table mail"
    by (rule table_ok_phase [OF assms(1)]) (use out empty in auto)
qed

lemma table_ok_register:
  assumes ok: "table_ok ph table mail" and t: "ph t = At i Allocated"
  shows "table_ok (ph(t := At i Registered)) (table(i \<mapsto> t)) (drop_sender (table i) mail)"
proof -
  note ok1 = table_ok_drop [OF ok, of i]
  have out: "(table(i := None)) j \<noteq> Some t" for j
    using not_in_table [OF ok1, of t] t by simp
  have "table_ok (ph(t := At i Registered)) (table(i := None)) (drop_sender (table i) mail)"
    by (rule table_ok_phase [OF ok1]) (use out in auto)
  then have "table_ok (ph(t := At i Registered)) ((table(i := None))(i \<mapsto> t)) (drop_sender (table i) mail)"
    by (rule table_ok_put) (use table_okD(3) [OF ok1, of t] t in auto)
  then show ?thesis by simp
qed

lemma table_ok_sent:
  assumes "table_ok ph table mail"
  shows "ph t = At i Registered \<Longrightarrow> table_ok (ph(t := At i Sending)) table mail"
    and "ph t = At i Sending \<Longrightarrow> table_ok (ph(t := At i Sent)) table mail"
  by (rule table_ok_phase [OF assms]; fastforce dest: table_okD(1) [OF assms])+

lemma table_ok_retire:
  assumes ok: "table_ok ph table mail" and t: "waits (ph t) i"
  shows "table_ok (ph(t := Over)) (table(i := None)) (drop_sender (table i) mail)"
proof (rule table_ok_phase [OF table_ok_drop [OF ok]])
  fix j assume "(table(i := None)) j = Some t"
  then have "j \<noteq> i" and "waits (ph t) j"
    using table_okD(1) [OF ok] by (auto split: if_splits)
  then show "waits Over j"
    using waits_id [OF t] by auto
qed simp

lemma table_ok_received:
  assumes "table_ok ph table mail" and "mail t \<noteq> Empty"
  shows "table_ok (ph(t := Over)) table mail"
  by (rule table_ok_phase [OF assms(1)]) (use table_okD(2) [OF assms(1), of _ t] assms(2) in auto)

lemmas table_ok_moves =
  table_ok_start table_ok_register table_ok_sent table_ok_take table_ok_retire table_ok_received

subsubsection \<open>And, with distinct ids, that nobody is left out\<close>

lemma table_full_start:
  assumes "table_full ph table mail" and "ph t = Fresh"
  shows "table_full (ph(t := At i Allocated)) table mail" "table_full (ph(t := Over)) table mail"
  using assms by (auto simp: table_full_def)

lemma table_full_sent:
  assumes "table_full ph table mail"
  shows "ph t = At i Registered \<Longrightarrow> table_full (ph(t := At i Sending)) table mail"
    and "ph t = At i Sending \<Longrightarrow> table_full (ph(t := At i Sent)) table mail"
  using assms by (auto simp: table_full_def)

lemma table_full_register:
  assumes "table_full ph table mail" and "ids_distinct ph" and "ph t = At i Allocated"
  shows "table_full (ph(t := At i Registered)) (table(i \<mapsto> t)) (drop_sender (table i) mail)"
  using assms unfolding table_full_def ids_distinct_def waits_def
  by (auto simp: drop_sender_eq split: if_splits)

lemma table_full_deliver:
  assumes "table_full ph table mail" and "ids_distinct ph" and "table_ok ph table mail"
    and "table i = Some ch"
  shows "table_full ph (table(i := None)) (mail(ch := Delivered m))"
  using assms table_okD(1) [OF assms(3,4)] unfolding table_full_def ids_distinct_def waits_def
  by auto

lemma table_full_retire:
  assumes "table_full ph table mail" and "ids_distinct ph" and "waits (ph t) i"
  shows "table_full (ph(t := Over)) (table(i := None)) (drop_sender (table i) mail)"
  using assms unfolding table_full_def ids_distinct_def waits_def
  by (auto simp: drop_sender_eq split: if_splits)

lemma table_full_received:
  "table_full ph table mail \<Longrightarrow> table_full (ph(t := Over)) table mail"
  by (auto simp: table_full_def)

lemmas table_full_moves =
  table_full_start table_full_register table_full_sent table_full_deliver table_full_retire
  table_full_received

subsection \<open>The waiter protocol\<close>

text \<open>
  What the tasks and the phone do to one table, with everything else left out. Both tables of
  the daemon run this protocol: every step of the system is a step of it, or leaves its view
  alone.
\<close>

type_synonym 'm view = "(nat \<Rightarrow> phase) \<times> (u64 \<rightharpoonup> nat) \<times> (nat \<Rightarrow> 'm mailbox)"

inductive table_step :: "'m view \<Rightarrow> 'm view \<Rightarrow> bool" where
  stay: "table_step v v"
| start: "ph t = Fresh \<Longrightarrow> table_step (ph, table, mail) (ph(t := At i Allocated), table, mail)"
| skip: "ph t = Fresh \<Longrightarrow> table_step (ph, table, mail) (ph(t := Over), table, mail)"
| register: "ph t = At i Allocated \<Longrightarrow> table_step (ph, table, mail)
    (ph(t := At i Registered), table(i \<mapsto> t), drop_sender (table i) mail)"
| sending: "ph t = At i Registered \<Longrightarrow> table_step (ph, table, mail) (ph(t := At i Sending), table, mail)"
| sent: "ph t = At i Sending \<Longrightarrow> table_step (ph, table, mail) (ph(t := At i Sent), table, mail)"
| deliver: "table i = Some ch \<Longrightarrow> table_step (ph, table, mail)
    (ph, table(i := None), mail(ch := Delivered m))"
| retire: "waits (ph t) i \<Longrightarrow> table_step (ph, table, mail)
    (ph(t := Over), table(i := None), drop_sender (table i) mail)"
| received: "\<lbrakk>waits (ph t) i; mail t \<noteq> Empty\<rbrakk> \<Longrightarrow>
    table_step (ph, table, mail) (ph(t := Over), table, mail)"

inductive_cases table_stepE: "table_step v v'"

definition verify_view :: "('v, 'vk) system \<Rightarrow> verdict view" where
  "verify_view s = (verify_phase s, dm_pending (sy_daemon s), dm_mail (sy_daemon s))"

definition ask_view :: "('v, 'vk) system \<Rightarrow> 'v view" where
  "ask_view s = (ask_phase s, dm_pending_json (sy_daemon s), dm_json_mail (sy_daemon s))"

lemma table_step_ok:
  assumes "table_step v v'" and "case v of (ph, table, mail) \<Rightarrow> table_ok ph table mail"
  shows "case v' of (ph, table, mail) \<Rightarrow> table_ok ph table mail"
  using assms(1) by (rule table_stepE) (use assms(2) in \<open>auto intro: table_ok_moves\<close>)

text \<open>A move that starts a task keeps ids distinct when the id is new; the others do not add any.\<close>

lemma table_step_full:
  assumes "table_step v v'"
    and "case v of (ph, table, mail) \<Rightarrow> table_ok ph table mail \<and> table_full ph table mail \<and> ids_distinct ph"
  shows "case v' of (ph, table, mail) \<Rightarrow> table_full ph table mail"
  using assms(1) by (rule table_stepE) (use assms(2) in \<open>auto intro: table_full_moves\<close>)

subsubsection \<open>Views after a move of one task\<close>

lemma set_task_simps [simp]:
  "sy_daemon (set_task t call st d s) = d"
  "sy_tasks (set_task t call st d s) = (sy_tasks s)(t \<mapsto> (call, st))"
  "sy_heard (set_task t call st d s) = sy_heard s"
  "sy_ids (set_task t call st d s) = sy_ids s"
  "sy_writer (set_task t call st d s) = sy_writer s"
  "sy_adopting (set_task t call st d s) = sy_adopting s"
  "sy_accepted (set_task t call st d s) = sy_accepted s"
  by (simp_all add: set_task_def)

lemma phase_set_task [simp]:
  "verify_phase (set_task t call (Verifying dev key req st) d s) =
     (verify_phase s)(t := At (vr_id req) st)"
  "verify_phase (set_task t call (Verified x r) d s) = (verify_phase s)(t := Over)"
  "verify_phase (set_task t call (Asking i line st) d s) = (verify_phase s)(t := Over)"
  "verify_phase (set_task t call (Answered q) d s) = (verify_phase s)(t := Over)"
  "ask_phase (set_task t call (Verifying dev key req st) d s) = (ask_phase s)(t := Over)"
  "ask_phase (set_task t call (Verified x r) d s) = (ask_phase s)(t := Over)"
  "ask_phase (set_task t call (Asking i line st) d s) = (ask_phase s)(t := At i st)"
  "ask_phase (set_task t call (Answered q) d s) = (ask_phase s)(t := Over)"
  by (rule ext; simp add: verify_phase_def ask_phase_def)+

lemma phase_update [simp]:
  "verify_phase (s\<lparr>sy_daemon := d\<rparr>) = verify_phase s"
  "verify_phase (s\<lparr>sy_ids := n\<rparr>) = verify_phase s"
  "verify_phase (s\<lparr>sy_heard := l\<rparr>) = verify_phase s"
  "verify_phase (s\<lparr>sy_writer := w\<rparr>) = verify_phase s"
  "verify_phase (s\<lparr>sy_adopting := a\<rparr>) = verify_phase s"
  "verify_phase (s\<lparr>sy_accepted := p\<rparr>) = verify_phase s"
  "ask_phase (s\<lparr>sy_daemon := d\<rparr>) = ask_phase s"
  "ask_phase (s\<lparr>sy_ids := n\<rparr>) = ask_phase s"
  "ask_phase (s\<lparr>sy_heard := l\<rparr>) = ask_phase s"
  "ask_phase (s\<lparr>sy_writer := w\<rparr>) = ask_phase s"
  "ask_phase (s\<lparr>sy_adopting := a\<rparr>) = ask_phase s"
  "ask_phase (s\<lparr>sy_accepted := p\<rparr>) = ask_phase s"
  by (rule ext; simp add: verify_phase_def ask_phase_def)+

lemma phase_of_task:
  "sy_tasks s t = None \<Longrightarrow> verify_phase s t = Fresh"
  "sy_tasks s t = None \<Longrightarrow> ask_phase s t = Fresh"
  "sy_tasks s t = Some (call, Verifying dev key req st) \<Longrightarrow> verify_phase s t = At (vr_id req) st"
  "sy_tasks s t = Some (call, Verifying dev key req st) \<Longrightarrow> ask_phase s t = Over"
  "sy_tasks s t = Some (call, Asking i line st) \<Longrightarrow> ask_phase s t = At i st"
  "sy_tasks s t = Some (call, Asking i line st) \<Longrightarrow> verify_phase s t = Over"
  by (simp_all add: verify_phase_def ask_phase_def)

text \<open>A task that stays over in the other table does not change that table's view.\<close>

lemma fun_upd_same: "f t = x \<Longrightarrow> f(t := x) = f"
  by auto

subsubsection \<open>Effects of the operations on the waiting part\<close>

lemma fetch_id_simps [simp]:
  "fst (fetch_id d) = dm_next_id d"
  "dm_next_id (snd (fetch_id d)) = dm_next_id d + 1"
  "dm_pending (snd (fetch_id d)) = dm_pending d" "dm_mail (snd (fetch_id d)) = dm_mail d"
  "dm_pending_json (snd (fetch_id d)) = dm_pending_json d"
  "dm_json_mail (snd (fetch_id d)) = dm_json_mail d"
  by (simp_all add: fetch_id_def)

text \<open>What \<open>run_verification\<close> has in hand once it holds a request.\<close>

definition request_of_call ::
  "('v, 'pk, 'vk, 'sig) crates \<Rightarrow> pam_call \<Rightarrow> Device \<Rightarrow> 'vk \<Rightarrow> VerifyRequest \<Rightarrow> bool" where
  "request_of_call C call dev key req \<longleftrightarrow>
     (\<exists>user action detail. call = PamVerify user action detail
        \<and> vr_user req = user \<and> vr_action req = action \<and> vr_detail req = detail)
     \<and> load_verifying_key (cr_p256 C) (dev_public_key_pem dev) = Inr key"

lemma start_verification_cases:
  assumes "start_verification C venv user action detail d = (r, d')"
  obtains (failed) e where "r = Inl e" "d' = d \<or> d' = snd (fetch_id d)"
  | (started) dev key req where "r = Inr (dev, key, req)" "d' = snd (fetch_id d)"
      "vr_id req = dm_next_id d" "request_of_call C (PamVerify user action detail) dev key req"
      "active_device C (vi_read_dir venv) d = Inr dev"
proof -
  have "(\<exists>e. r = Inl e \<and> (d' = d \<or> d' = snd (fetch_id d)))
    \<or> (\<exists>dev key req. r = Inr (dev, key, req) \<and> d' = snd (fetch_id d)
         \<and> vr_id req = dm_next_id d \<and> request_of_call C (PamVerify user action detail) dev key req
         \<and> active_device C (vi_read_dir venv) d = Inr dev)"
  proof (cases r)
    case (Inl e)
    then show ?thesis
      using assms by (auto simp: start_verification_def fetch_id_def split: sum.splits prod.splits)
  next
    case (Inr x)
    then show ?thesis
      using assms
      by (auto simp: start_verification_def fetch_id_def VerifyRequest_new_def request_of_call_def
          result_simps split: sum.splits prod.splits)
  qed
  then show ?thesis using failed started by blast
qed

lemma remove_waiter_simps [simp]:
  "dm_next_id (remove_waiter i d) = dm_next_id d"
  "dm_pending (remove_waiter i d) = (dm_pending d)(i := None)"
  "dm_mail (remove_waiter i d) = drop_sender (dm_pending d i) (dm_mail d)"
  "dm_pending_json (remove_waiter i d) = dm_pending_json d"
  "dm_json_mail (remove_waiter i d) = dm_json_mail d"
  "dm_next_id (remove_json_waiter i d) = dm_next_id d"
  "dm_pending_json (remove_json_waiter i d) = (dm_pending_json d)(i := None)"
  "dm_json_mail (remove_json_waiter i d) = drop_sender (dm_pending_json d i) (dm_json_mail d)"
  "dm_pending (remove_json_waiter i d) = dm_pending d"
  "dm_mail (remove_json_waiter i d) = dm_mail d"
  by (simp_all add: waiter_defs)

lemma insert_waiter_simps [simp]:
  "dm_next_id (insert_waiter i ch d) = dm_next_id d"
  "dm_pending (insert_waiter i ch d) = (dm_pending d)(i \<mapsto> ch)"
  "dm_mail (insert_waiter i ch d) = drop_sender (dm_pending d i) (dm_mail d)"
  "dm_pending_json (insert_waiter i ch d) = dm_pending_json d"
  "dm_json_mail (insert_waiter i ch d) = dm_json_mail d"
  "dm_next_id (insert_json_waiter i ch d) = dm_next_id d"
  "dm_pending_json (insert_json_waiter i ch d) = (dm_pending_json d)(i \<mapsto> ch)"
  "dm_json_mail (insert_json_waiter i ch d) = drop_sender (dm_pending_json d i) (dm_json_mail d)"
  "dm_pending (insert_json_waiter i ch d) = dm_pending d"
  "dm_mail (insert_json_waiter i ch d) = dm_mail d"
  by (simp_all add: waiter_defs)

lemma send_mail_simps [simp]:
  "dm_next_id (send_mail ch m d) = dm_next_id d"
  "dm_pending (send_mail ch m d) = dm_pending d"
  "dm_mail (send_mail ch m d) = (dm_mail d)(ch := Delivered m)"
  "dm_pending_json (send_mail ch m d) = dm_pending_json d"
  "dm_json_mail (send_mail ch m d) = dm_json_mail d"
  "dm_next_id (send_json_mail ch v d) = dm_next_id d"
  "dm_pending (send_json_mail ch v d) = dm_pending d"
  "dm_mail (send_json_mail ch v d) = dm_mail d"
  "dm_pending_json (send_json_mail ch v d) = dm_pending_json d"
  "dm_json_mail (send_json_mail ch v d) = (dm_json_mail d)(ch := Delivered v)"
  by (simp_all add: waiter_defs)

lemma send_verification_cases:
  assumes "send_verification C written req d = (r, d')"
  obtains (failed) e where "r = Inl e" "waiting_part d' = waiting_part (remove_waiter (vr_id req) d)"
  | (sent) "r = Inr ()" "waiting_part d' = waiting_part d"
  using assms
  by (auto simp: send_verification_def waiting_part_def split: prod.splits sum.splits
      dest!: send_line_waiting)

lemma finish_verification_cases:
  assumes "finish_verification C limit key req w d = (r, d')"
  obtains (received) m where "w = Received m" "d' = d"
      "r = Inr () \<longleftrightarrow> (\<exists>sig. m = Inr sig
         \<and> verify_assertion (cr_p256 C) key (to_line (cr_json C) (cr_b64 C) req) sig = Inr ())"
  | (gone) "w = SenderDropped \<or> w = TimedOut" "d' = remove_waiter (vr_id req) d" "is_err r"
  using assms by (auto simp: finish_verification_def split: wait.splits sum.splits)

lemma send_ask_cases:
  assumes "send_ask written i line d = (r, d')"
  obtains (failed) e where "r = Inl e" "waiting_part d' = waiting_part (remove_json_waiter i d)"
  | (sent) "r = Inr ()" "waiting_part d' = waiting_part d"
  using assms
  by (auto simp: send_ask_def waiting_part_def split: prod.splits sum.splits
      dest!: send_line_waiting)

lemma finish_ask_cases:
  assumes "finish_ask C limit i w d = (r, d')"
  obtains (received) v where "w = Received v" "d' = d" "r = Inr v \<or> is_err r"
  | (gone) "w = SenderDropped \<or> w = TimedOut" "d' = remove_json_waiter i d" "is_err r"
  using assms by (auto simp: finish_ask_def split: wait.splits option.splits)

lemma start_ask_effect:
  "start_ask C request d = ((i, line), d') \<Longrightarrow> i = dm_next_id d \<and> d' = snd (fetch_id d)"
  by (auto simp: start_ask_def fetch_id_def Let_def)

subsubsection \<open>Every step is a step of the protocol of both tables\<close>

lemma waiting_part_views:
  assumes "waiting_part d = waiting_part (sy_daemon s)" and "sy_tasks s' = sy_tasks s"
    and "sy_daemon s' = d"
  shows "verify_view s' = verify_view s" "ask_view s' = ask_view s"
  using waiting_part_eqD [OF assms(1)] assms(2,3)
  by (auto simp: verify_view_def ask_view_def verify_phase_def ask_phase_def fun_eq_iff)

lemma hear_views:
  fixes s :: "('v, 'vk) system"
  assumes s': "sy_tasks s' = sy_tasks s"
    "sy_daemon s' = on_phone_message C env w line (sy_daemon s)"
  shows "table_step (verify_view s) (verify_view s') \<and> table_step (ask_view s) (ask_view s')"
proof -
  have ph: "verify_phase s' = verify_phase s" "ask_phase s' = ask_phase s"
    using s'(1) by (auto simp: verify_phase_def ask_phase_def fun_eq_iff)
  show ?thesis
  proof (cases rule: on_phone_message_cases [of C env w line "sy_daemon s"])
    case same
    then show ?thesis using waiting_part_views [OF same s'] table_step.stay by metis
  next
    case (verdict resp ch)
    then show ?thesis
      using ph s'(2) by (auto simp: verify_view_def ask_view_def intro: table_step.intros)
  next
    case (json v i ch)
    then show ?thesis
      using ph s'(2) by (auto simp: verify_view_def ask_view_def intro: table_step.intros)
  qed
qed

lemma task_views:
  "verify_view (set_task t call st d s) =
     (verify_phase (set_task t call st d s), dm_pending d, dm_mail d)"
  "ask_view (set_task t call st d s) =
     (ask_phase (set_task t call st d s), dm_pending_json d, dm_json_mail d)"
  by (simp_all add: verify_view_def ask_view_def)

lemmas view_intros = table_step.intros table_step.stay [of "(ph, T, M)" for ph T M]

lemma over_stays: "f t = Over \<Longrightarrow> f(t := Over) = (f :: nat \<Rightarrow> phase)"
  by auto

lemma start_verify_views:
  assumes "sy_tasks s t = None"
    and "start_verification C venv user action detail (sy_daemon s) = (r, d)"
    and "s' = set_task t call (verify_started r) d (s\<lparr>sy_ids := n\<rparr>)"
  shows "table_step (verify_view s) (verify_view s') \<and> table_step (ask_view s) (ask_view s')"
  using assms(2)
proof (cases rule: start_verification_cases)
  case (failed e)
  then show ?thesis
    using phase_of_task(1,2) [OF assms(1)] assms(3)
    by (auto simp: verify_started_def task_views verify_view_def ask_view_def intro: table_step.intros)
next
  case (started dev key req)
  then show ?thesis
    using phase_of_task(1,2) [OF assms(1)] assms(3)
    by (auto simp: verify_started_def task_views verify_view_def ask_view_def intro: table_step.intros)
qed

lemma send_verify_views:
  assumes t: "sy_tasks s t = Some (call, Verifying dev key req Sending)"
    and "send_verification C written req (sy_daemon s) = (r, d)"
    and s': "s' = set_task t call (verify_sent dev key req r) d (s\<lparr>sy_writer := None\<rparr>)"
  shows "table_step (verify_view s) (verify_view s') \<and> table_step (ask_view s) (ask_view s')"
  using assms(2)
proof (cases rule: send_verification_cases)
  case (failed e)
  note w = waiting_part_eqD [OF failed(2)]
  have "table_step (verify_phase s, dm_pending (sy_daemon s), dm_mail (sy_daemon s))
      ((verify_phase s)(t := Over), (dm_pending (sy_daemon s))(vr_id req := None),
       drop_sender (dm_pending (sy_daemon s) (vr_id req)) (dm_mail (sy_daemon s)))"
    by (rule table_step.retire) (simp add: phase_of_task(3) [OF t])
  then show ?thesis
    using w s' failed(1) over_stays [of "ask_phase s", OF phase_of_task(4) [OF t]]
    by (simp add: verify_sent_def task_views verify_view_def ask_view_def table_step.stay)
next
  case sent
  note w = waiting_part_eqD [OF sent(2)]
  show ?thesis
    using w s' sent(1) over_stays [of "ask_phase s", OF phase_of_task(4) [OF t]]
      table_step.sent [of "verify_phase s", OF phase_of_task(3) [OF t]]
    by (simp add: verify_sent_def task_views verify_view_def ask_view_def table_step.stay)
qed

lemma finish_verify_views:
  assumes t: "sy_tasks s t = Some (call, Verifying dev key req Sent)"
    and see: "may_see (dm_mail (sy_daemon s) t) w"
    and "finish_verification C limit key req w (sy_daemon s) = (r, d)"
    and s': "s' = set_task t call (Verified x r) d s"
  shows "table_step (verify_view s) (verify_view s') \<and> table_step (ask_view s) (ask_view s')"
proof -
  note ph = phase_of_task(3,4) [OF t]
  show ?thesis
    using assms(3)
  proof (cases rule: finish_verification_cases)
    case (received m)
    then have "dm_mail (sy_daemon s) t \<noteq> Empty"
      using see by (simp add: may_see_def)
    then show ?thesis
      using received(2) s' ph over_stays [of "ask_phase s", OF ph(2)]
        table_step.received [of "verify_phase s" t "vr_id req"]
      by (simp add: task_views verify_view_def ask_view_def table_step.stay)
  next
    case gone
    then show ?thesis
      using s' ph over_stays [of "ask_phase s", OF ph(2)]
        table_step.retire [of "verify_phase s" t "vr_id req"]
      by (simp add: task_views verify_view_def ask_view_def table_step.stay)
  qed
qed

lemma send_ask_views:
  assumes t: "sy_tasks s t = Some (call, Asking i line Sending)"
    and "send_ask written i line (sy_daemon s) = (r, d)"
    and s': "s' = set_task t call (ask_sent i line r) d (s\<lparr>sy_writer := None\<rparr>)"
  shows "table_step (verify_view s) (verify_view s') \<and> table_step (ask_view s) (ask_view s')"
  using assms(2)
proof (cases rule: send_ask_cases)
  case (failed e)
  note w = waiting_part_eqD [OF failed(2)]
  have "table_step (ask_phase s, dm_pending_json (sy_daemon s), dm_json_mail (sy_daemon s))
      ((ask_phase s)(t := Over), (dm_pending_json (sy_daemon s))(i := None),
       drop_sender (dm_pending_json (sy_daemon s) i) (dm_json_mail (sy_daemon s)))"
    by (rule table_step.retire) (simp add: phase_of_task(5) [OF t])
  then show ?thesis
    using w s' failed(1) over_stays [of "verify_phase s", OF phase_of_task(6) [OF t]]
    by (simp add: ask_sent_def task_views verify_view_def ask_view_def table_step.stay)
next
  case sent
  note w = waiting_part_eqD [OF sent(2)]
  show ?thesis
    using w s' sent(1) over_stays [of "verify_phase s", OF phase_of_task(6) [OF t]]
      table_step.sent [of "ask_phase s", OF phase_of_task(5) [OF t]]
    by (simp add: ask_sent_def task_views verify_view_def ask_view_def table_step.stay)
qed

lemma finish_ask_views:
  assumes t: "sy_tasks s t = Some (call, Asking i line Sent)"
    and see: "may_see (dm_json_mail (sy_daemon s) t) w"
    and "finish_ask C limit i w (sy_daemon s) = (r, d)"
    and s': "s' = set_task t call (Answered q) d s"
  shows "table_step (verify_view s) (verify_view s') \<and> table_step (ask_view s) (ask_view s')"
proof -
  note ph = phase_of_task(5,6) [OF t]
  show ?thesis
    using assms(3)
  proof (cases rule: finish_ask_cases)
    case (received v)
    then have "dm_json_mail (sy_daemon s) t \<noteq> Empty"
      using see by (simp add: may_see_def)
    then show ?thesis
      using received(2) s' ph over_stays [of "verify_phase s", OF ph(2)]
        table_step.received [of "ask_phase s" t i]
      by (simp add: task_views verify_view_def ask_view_def table_step.stay)
  next
    case gone
    then show ?thesis
      using s' ph over_stays [of "verify_phase s", OF ph(2)]
        table_step.retire [of "ask_phase s" t i]
      by (simp add: task_views verify_view_def ask_view_def table_step.stay)
  qed
qed

lemma step_views:
  assumes "step C s s'"
  shows "table_step (verify_view s) (verify_view s') \<and> table_step (ask_view s) (ask_view s')"
  using assms
proof cases
  case (connect conn)
  then show ?thesis
    using waiting_part_views [of "adopt_phone conn (sy_daemon s)" s s']
    by (simp add: finish_adopting_def adopt_phone_def table_step.stay)
next
  case (hear line env written)
  then show ?thesis using hear_views [of s' s C env written line] by simp
next
  case (register_verify t call dev key req)
  then show ?thesis
    using phase_of_task(3,4) [OF register_verify(2)] over_stays [of "ask_phase s" t]
    by (simp add: task_views verify_view_def ask_view_def table_step.intros)
next
  case (register_ask t call i line)
  then show ?thesis
    using phase_of_task(5,6) [OF register_ask(2)] over_stays [of "verify_phase s" t]
    by (simp add: task_views verify_view_def ask_view_def table_step.intros)
next
  case (lock_verify t call dev key req)
  then show ?thesis
    using phase_of_task(3,4) [OF lock_verify(2)] over_stays [of "ask_phase s" t]
    by (simp add: task_views verify_view_def ask_view_def table_step.intros)
next
  case (lock_ask t call i line)
  then show ?thesis
    using phase_of_task(5,6) [OF lock_ask(2)] over_stays [of "verify_phase s" t]
    by (simp add: task_views verify_view_def ask_view_def table_step.intros)
next
  case (refuse_ask t read_dir wcall e)
  then show ?thesis
    using phase_of_task(1,2) [OF refuse_ask(2)]
    by (simp add: task_views verify_view_def ask_view_def table_step.intros)
next
  case (start_ask t read_dir wcall request i line d)
  then show ?thesis
    using phase_of_task(1,2) [OF start_ask(2)] start_ask_effect [OF start_ask(4)]
    by (simp add: task_views verify_view_def ask_view_def table_step.intros)
next
  case start_verify
  then show ?thesis using start_verify_views [OF start_verify(2,3,1)] by simp
next
  case send_verify
  then show ?thesis using send_verify_views [OF send_verify(2,3,1)] by simp
next
  case finish_verify
  then show ?thesis using finish_verify_views [OF finish_verify(2-4,1)] by simp
next
  case send_ask
  then show ?thesis using send_ask_views [OF send_ask(2,3,1)] by simp
next
  case finish_ask
  then show ?thesis using finish_ask_views [OF finish_ask(2-4,1)] by simp
qed (simp_all add: verify_view_def ask_view_def accept_phone_def accept_pam_def table_step.stay)

subsection \<open>Invariants of the reachable states\<close>

lemma reachable_tables_ok:
  assumes "reachable C st files s"
  shows "table_ok (verify_phase s) (dm_pending (sy_daemon s)) (dm_mail (sy_daemon s))
    \<and> table_ok (ask_phase s) (dm_pending_json (sy_daemon s)) (dm_json_mail (sy_daemon s))"
  using assms
proof induction
  case init
  then show ?case
    by (simp add: table_ok_def system_init_def daemon_new_def)
next
  case (step s s')
  then show ?case
    using step_views [of C s s'] table_step_ok [of "verify_view s" "verify_view s'"]
      table_step_ok [of "ask_view s" "ask_view s'"]
    by (simp add: verify_view_def ask_view_def)
qed

subsubsection \<open>Ids\<close>

text \<open>The id a task took; a verification keeps it when it has its result.\<close>

definition task_id :: "('v, 'vk) system \<Rightarrow> nat \<Rightarrow> u64 option" where
  "task_id s t =
     (case sy_tasks s t of
        Some (call, Verifying dev key req st) \<Rightarrow> Some (vr_id req)
      | Some (call, Verified x r) \<Rightarrow> map_option (\<lambda>(dev, key, req). vr_id req) x
      | Some (call, Asking i line st) \<Rightarrow> Some i
      | _ \<Rightarrow> None)"

lemma task_id_set_task [simp]:
  "task_id (set_task t call (Verifying dev key req st) d s) = (task_id s)(t := Some (vr_id req))"
  "task_id (set_task t call (Asking i line st) d s) = (task_id s)(t := Some i)"
  "task_id (set_task t call (Verified x r) d s) =
     (task_id s)(t := map_option (\<lambda>(dev, key, req). vr_id req) x)"
  "task_id (set_task t call (Answered q) d s) = (task_id s)(t := None)"
  by (rule ext; simp add: task_id_def)+

lemma task_id_update [simp]:
  "task_id (s\<lparr>sy_daemon := d\<rparr>) = task_id s"
  "task_id (s\<lparr>sy_ids := n\<rparr>) = task_id s"
  "task_id (s\<lparr>sy_heard := l\<rparr>) = task_id s"
  "task_id (s\<lparr>sy_writer := w\<rparr>) = task_id s"
  "task_id (s\<lparr>sy_adopting := a\<rparr>) = task_id s"
  "task_id (s\<lparr>sy_accepted := p\<rparr>) = task_id s"
  by (rule ext; simp add: task_id_def)+

lemma task_id_of_task:
  "sy_tasks s t = Some (call, Verifying dev key req st) \<Longrightarrow> task_id s t = Some (vr_id req)"
  "sy_tasks s t = Some (call, Asking i line st) \<Longrightarrow> task_id s t = Some i"
  "sy_tasks s t = Some (call, Verified (Some (dev, key, req)) r) \<Longrightarrow> task_id s t = Some (vr_id req)"
  by (simp_all add: task_id_def)

lemma task_id_phase:
  "verify_phase s t = At i st \<Longrightarrow> task_id s t = Some i"
  "ask_phase s t = At i st \<Longrightarrow> task_id s t = Some i"
  by (auto simp: task_id_def verify_phase_def ask_phase_def split: option.splits prod.splits status.splits)

lemma on_phone_message_next_id:
  "dm_next_id (on_phone_message C env w line d) = dm_next_id d"
  by (cases rule: on_phone_message_cases [of C env w line d]) (auto dest: waiting_part_eqD)

text \<open>A step takes no id, or takes the next one for a task that was not there.\<close>

definition takes_id :: "('v, 'vk) system \<Rightarrow> ('v, 'vk) system \<Rightarrow> bool" where
  "takes_id s s' \<longleftrightarrow>
     sy_ids s' = sy_ids s + 1 \<and> dm_next_id (sy_daemon s') = dm_next_id (sy_daemon s) + 1
     \<and> (\<exists>t. (task_id s)(t := None) = (task_id s')(t := None)
          \<and> task_id s' t \<in> {None, Some (dm_next_id (sy_daemon s))})"

definition keeps_ids :: "('v, 'vk) system \<Rightarrow> ('v, 'vk) system \<Rightarrow> bool" where
  "keeps_ids s s' \<longleftrightarrow>
     sy_ids s' = sy_ids s \<and> dm_next_id (sy_daemon s') = dm_next_id (sy_daemon s)
     \<and> task_id s' \<subseteq>\<^sub>m task_id s"

lemma keeps_ids_set_task:
  assumes "dm_next_id d = dm_next_id (sy_daemon s)"
    and "task_id (set_task t call st d s) t \<in> {None, task_id s t}"
  shows "keeps_ids s (set_task t call st d s)" "keeps_ids s (set_task t call st d (s\<lparr>sy_writer := w\<rparr>))"
  using assms by (cases st; auto simp: keeps_ids_def map_le_def split: if_splits)+

lemma step_ids: "step C s s' \<Longrightarrow> keeps_ids s s' \<or> takes_id s s'"
proof (induction rule: step.induct)
  case (hear s env written line)
  then show ?case by (simp add: keeps_ids_def on_phone_message_next_id)
next
  case (start_verify s t venv user action detail r d)
  from start_verify(2) show ?case
  proof (cases rule: start_verification_cases)
    case (failed e)
    have "task_id s t = None" using start_verify(1) by (simp add: task_id_def)
    with failed show ?thesis
      by (auto simp: keeps_ids_def takes_id_def verify_started_def map_le_def)
  next
    case (started dev key req)
    then show ?thesis by (auto simp: takes_id_def verify_started_def)
  qed
next
  case (register_verify s t call dev key req)
  show ?case
    by (rule disjI1, rule keeps_ids_set_task) (simp_all add: task_id_of_task(1) [OF register_verify])
next
  case (send_verify s t call dev key req written r d)
  from send_verify(2) have "dm_next_id d = dm_next_id (sy_daemon s)"
    by (cases rule: send_verification_cases) (auto dest: waiting_part_eqD)
  then show ?case
    using task_id_of_task(1) [OF send_verify(1)]
    by (intro disjI1 keeps_ids_set_task) (auto simp: verify_sent_def split: sum.splits)
next
  case (finish_verify s t call dev key req w limit r d)
  from finish_verify(3) have "dm_next_id d = dm_next_id (sy_daemon s)"
    by (cases rule: finish_verification_cases) auto
  then show ?case
    by (intro disjI1 keeps_ids_set_task) (simp_all add: task_id_of_task(1) [OF finish_verify(1)])
next
  case (start_ask s t read_dir wcall e i line d)
  then show ?case
    using start_ask_effect [OF start_ask(3)] by (auto simp: takes_id_def)
next
  case (register_ask s t call i line)
  show ?case
    by (rule disjI1, rule keeps_ids_set_task) (simp_all add: task_id_of_task(2) [OF register_ask])
next
  case (send_ask s t call i line written r d)
  from send_ask(2) have "dm_next_id d = dm_next_id (sy_daemon s)"
    by (cases rule: send_ask_cases) (auto dest: waiting_part_eqD)
  then show ?case
    using task_id_of_task(2) [OF send_ask(1)]
    by (intro disjI1 keeps_ids_set_task) (auto simp: ask_sent_def split: sum.splits)
next
  case (finish_ask s t wcall i line w limit r d)
  from finish_ask(3) have "dm_next_id d = dm_next_id (sy_daemon s)"
    by (cases rule: finish_ask_cases) auto
  then show ?case
    by (intro disjI1 keeps_ids_set_task) auto
next
  case (lock_verify s t call dev key req)
  then show ?case
    by (intro disjI1 keeps_ids_set_task) (simp_all add: task_id_of_task(1) [OF lock_verify(1)])
next
  case (lock_ask s t call i line)
  then show ?case
    by (intro disjI1 keeps_ids_set_task) (simp_all add: task_id_of_task(2) [OF lock_ask(1)])
qed (auto simp: keeps_ids_def adopt_phone_def accept_phone_def finish_adopting_def accept_pam_def
    intro!: keeps_ids_set_task)

definition ids_ok :: "('v, 'vk) system \<Rightarrow> bool" where
  "ids_ok s \<longleftrightarrow>
     dm_next_id (sy_daemon s) = of_nat (sy_ids s + 1)
     \<and> (\<forall>t i. task_id s t = Some i \<longrightarrow> (\<exists>k \<le> sy_ids s. 0 < k \<and> i = of_nat k))
     \<and> (\<forall>t t' i. task_id s t = Some i \<and> task_id s t' = Some i \<longrightarrow> t = t')"

lemma of_nat_u64_inj: "\<lbrakk>a < 2 ^ 64; b < 2 ^ 64; (of_nat a :: u64) = of_nat b\<rbrakk> \<Longrightarrow> a = b"
proof -
  assume a: "a < 2 ^ 64" and b: "b < 2 ^ 64" and e: "(of_nat a :: u64) = of_nat b"
  then have "take_bit 64 a = take_bit 64 b"
    by (simp only: word_of_nat_eq_iff len_of_numeral_defs) simp
  then show "a = b"
    using a b by (simp only: take_bit_nat_eq_self)
qed

lemma keeps_ids_ok:
  assumes "ids_ok s" and "keeps_ids s s'"
  shows "ids_ok s'"
proof -
  have sub: "task_id s t = Some i" if "task_id s' t = Some i" for t i
    using assms(2) that by (auto simp: keeps_ids_def map_le_def dom_def)
  then show ?thesis
    using assms unfolding ids_ok_def keeps_ids_def by metis
qed

lemma takes_ids_ok:
  assumes ok: "ids_ok s" and take: "takes_id s s'" and small: "sy_ids s' < 2 ^ 64"
  shows "ids_ok s'"
proof -
  obtain t where same: "(task_id s)(t := None) = (task_id s')(t := None)"
    and t: "task_id s' t \<in> {None, Some (dm_next_id (sy_daemon s))}"
    and n: "sy_ids s' = sy_ids s + 1"
    and next_id: "dm_next_id (sy_daemon s') = dm_next_id (sy_daemon s) + 1"
    using take by (auto simp: takes_id_def)
  have other: "task_id s' u = task_id s u" if "u \<noteq> t" for u
    using fun_cong [OF same, of u] that by simp
  have mine: "i = of_nat (sy_ids s')" if "task_id s' t = Some i" for i
    using t that ok n by (auto simp: ids_ok_def)
  have fresh: "i \<noteq> of_nat (sy_ids s')" if "task_id s u = Some i" for u i
    using ok that small n of_nat_u64_inj [of _ "sy_ids s'"]
    by (metis ids_ok_def le_imp_less_Suc less_trans nat_neq_iff Suc_eq_plus1)
  show ?thesis
    unfolding ids_ok_def
  proof (intro conjI allI impI)
    show "dm_next_id (sy_daemon s') = of_nat (sy_ids s' + 1)"
      using ok next_id n by (simp add: ids_ok_def)
  next
    fix u i assume u: "task_id s' u = Some i"
    show "\<exists>k \<le> sy_ids s'. 0 < k \<and> i = of_nat k"
    proof (cases "u = t")
      case True
      then show ?thesis using u mine n by (intro exI [of _ "sy_ids s'"]) auto
    next
      case False
      then show ?thesis using u other ok n unfolding ids_ok_def by (metis le_SucI Suc_eq_plus1)
    qed
  next
    fix u v i assume "task_id s' u = Some i \<and> task_id s' v = Some i"
    then show "u = v"
      using other mine fresh ok unfolding ids_ok_def by metis
  qed
qed

lemma step_ids_mono: "step C s s' \<Longrightarrow> sy_ids s \<le> sy_ids s'"
  using step_ids [of C s s'] by (auto simp: keeps_ids_def takes_id_def)

lemma reachable_ids_ok:
  "reachable C st files s \<Longrightarrow> sy_ids s < 2 ^ 64 \<Longrightarrow> ids_ok s"
proof (induction rule: reachable.induct)
  case init
  then show ?case by (simp add: ids_ok_def system_init_def daemon_new_def task_id_def)
next
  case (step s s')
  then show ?case
    using step_ids [OF step(2)] step_ids_mono [OF step(2)] keeps_ids_ok takes_ids_ok
    by (metis le_less_trans)
qed

lemma ids_ok_distinct:
  assumes "ids_ok s"
  shows "ids_distinct (verify_phase s)" "ids_distinct (ask_phase s)"
    "verify_phase s t = At i x \<Longrightarrow> ask_phase s t' \<noteq> At i y"
proof -
  have u: "t = t'" if "task_id s t = Some i" "task_id s t' = Some i" for t t' i
    using assms that unfolding ids_ok_def by blast
  show "ids_distinct (verify_phase s)" "ids_distinct (ask_phase s)"
    using u task_id_phase unfolding ids_distinct_def by blast+
  show "ask_phase s t' \<noteq> At i y" if v: "verify_phase s t = At i x"
  proof
    assume "ask_phase s t' = At i y"
    then have "t = t'" using u v task_id_phase by blast
    then show False
      using v \<open>ask_phase s t' = At i y\<close>
      by (auto simp: verify_phase_def ask_phase_def split: option.splits prod.splits status.splits)
  qed
qed

lemma reachable_tables_full:
  "reachable C st files s \<Longrightarrow> sy_ids s < 2 ^ 64 \<Longrightarrow>
     table_full (verify_phase s) (dm_pending (sy_daemon s)) (dm_mail (sy_daemon s))
     \<and> table_full (ask_phase s) (dm_pending_json (sy_daemon s)) (dm_json_mail (sy_daemon s))"
proof (induction rule: reachable.induct)
  case init
  then show ?case
    by (simp add: table_full_def system_init_def verify_phase_def ask_phase_def)
next
  case (step s s')
  then have small: "sy_ids s < 2 ^ 64" using step_ids_mono [OF step(2)] by simp
  then show ?case
    using step step_views [of C s s'] reachable_tables_ok [OF step(1)]
      ids_ok_distinct(1,2) [OF reachable_ids_ok [OF step(1)]]
      table_step_full [of "verify_view s" "verify_view s'"]
      table_step_full [of "ask_view s" "ask_view s'"]
    by (simp add: verify_view_def ask_view_def)
qed

end
