(* ===== verification/Scenario.thy ===== *)
theory Scenario
  imports Concurrency Instances
begin

text \<open>
  One concrete run of the daemon on the functions of the theory \<open>Instances\<close>: a paired
  phone, a request for \<open>sudo\<close>, and the phone's signature on it. The witnesses of the
  properties about reachable states are instances of this run.
\<close>

definition toy_store :: Store where
  "toy_store = \<lparr>st_directory = ''/var/lib/kpk''\<rparr>"

definition toy_device :: Device where
  "toy_device = \<lparr>dev_id = ''phone'', dev_name = ''Pixel'', dev_model = ''Pixel 9'',
     dev_owner = ''ana'', dev_security_level = ''StrongBox'', dev_verified_boot = ''green'',
     dev_paired_at = 7, dev_public_key_pem = ''KEY''\<rparr>"

definition toy_files :: directory where
  "toy_files = [''phone.json'' \<mapsto> Inr (show_json (device_to_json toy_json toy_device))]"

definition toy_inputs :: verify_inputs where
  "toy_inputs = \<lparr>vi_read_dir = Inr [Inr ''phone.json''], vi_entropy = Inr (replicate 32 7),
     vi_host = Inr ''desk''\<rparr>"

definition toy_request :: VerifyRequest where
  "toy_request = \<lparr>vr_id = 1, vr_challenge = replicate 32 7, vr_user = ''ana'',
     vr_host = ''desk'', vr_action = ''sudo'', vr_detail = ''ls''\<rparr>"

definition toy_signature :: bytes where
  "toy_signature = as_bytes ''KEY'' @ as_bytes (to_line toy_json toy_base64 toy_request)"

definition toy_reply :: string where
  "toy_reply = show_json (JObject [(''id'', JNumber 1), (''sig'', JString (b64_encode toy_base64 toy_signature))])"

lemma extension_phone: "extension ''phone.json'' = Some ''json''"
  using split_extension_dot [of "''json''" "''phone''"] by (simp add: extension_def)

lemma toy_load: "load_entry toy_json toy_files ''phone.json'' = Some toy_device"
  by (simp add: load_entry_def extension_phone toy_files_def device_fields)
    (simp add: toy_device_def)

lemma toy_active:
  "active_device toy_crates (Inr [Inr ''phone.json'']) (daemon_new toy_store toy_files) = Inr toy_device"
  by (simp add: active_device_def list_devices_def daemon_new_def toy_load)

lemma toy_key: "load_verifying_key toy_p256 ''KEY'' = Inr ''KEY''"
  by (simp add: load_verifying_key_def toy_p256_def)

subsection \<open>The run\<close>

text \<open>
  Client 0 connects and its request is registered, the phone connects as connection 5, the
  request is written to it, and it answers.
\<close>

definition toy_call :: pam_call where
  "toy_call = PamVerify ''ana'' ''sudo'' ''ls''"

definition toy_task :: "stage \<Rightarrow> (jval, string) status" where
  "toy_task st = Verifying toy_device ''KEY'' toy_request st"

definition toy_line :: string where
  "toy_line = to_line toy_json toy_base64 toy_request"

definition toy_sent :: "(jval, string) system" where
  "toy_sent = \<lparr>sy_daemon = (daemon_new toy_store toy_files)\<lparr>dm_next_id := 2, dm_pending := [1 \<mapsto> 0],
       dm_outbound := Some 5, dm_sent := [(5, toy_line @ [newline])]\<rparr>,
     sy_tasks = [0 \<mapsto> (toy_call, toy_task Sent)], sy_writer = None, sy_adopting = None,
     sy_accepted = {0}, sy_heard = [], sy_ids = 1\<rparr>"

definition toy_heard :: "(jval, string) system" where
  "toy_heard = toy_sent\<lparr>sy_daemon := (sy_daemon toy_sent)\<lparr>dm_pending := Map.empty,
       dm_mail := (\<lambda>_. Empty)(0 := Delivered (Inr toy_signature))\<rparr>,
     sy_heard := [toy_reply]\<rparr>"

definition toy_approved :: "(jval, string) system" where
  "toy_approved = toy_heard\<lparr>sy_tasks :=
     [0 \<mapsto> (toy_call, Verified (Some (toy_device, ''KEY'', toy_request)) (Inr ()))]\<rparr>"

lemma toy_start:
  "start_verification toy_crates toy_inputs ''ana'' ''sudo'' ''ls'' (daemon_new toy_store toy_files) =
     (Inr (toy_device, ''KEY'', toy_request), (daemon_new toy_store toy_files)\<lparr>dm_next_id := 2\<rparr>)"
proof -
  have "trim ''desk'' = ''desk''"
    by (simp add: trim_def trim_from_stop ascii_space_def space2_def space3_def)
  moreover have "dev_public_key_pem toy_device = ''KEY''"
    by (simp add: toy_device_def)
  ultimately show ?thesis
    using toy_active toy_key
    by (simp add: start_verification_def toy_inputs_def fetch_id_def daemon_new_def
        VerifyRequest_new_def toy_request_def protocol_hostname_def)
qed

lemma system_eqI:
  fixes s s' :: "('v, 'vk) system"
  shows "\<lbrakk>sy_daemon s = sy_daemon s'; sy_tasks s = sy_tasks s'; sy_writer s = sy_writer s';
    sy_adopting s = sy_adopting s'; sy_accepted s = sy_accepted s'; sy_heard s = sy_heard s';
    sy_ids s = sy_ids s'\<rbrakk> \<Longrightarrow> s = s'"
  by (cases s; cases s') simp

definition toy_daemon :: "jval daemon" where
  "toy_daemon = (daemon_new toy_store toy_files)\<lparr>dm_next_id := 2\<rparr>"

definition toy_accepted :: "(jval, string) system" where
  "toy_accepted = accept_pam 0 (system_init toy_store toy_files)"

definition toy_started :: "(jval, string) system" where
  "toy_started = set_task 0 toy_call (toy_task Allocated) toy_daemon (toy_accepted\<lparr>sy_ids := 1\<rparr>)"

definition toy_registered :: "(jval, string) system" where
  "toy_registered = set_task 0 toy_call (toy_task Registered) (insert_waiter 1 0 toy_daemon) toy_started"

definition toy_connected :: "(jval, string) system" where
  "toy_connected = finish_adopting 5 (accept_phone 5 toy_registered)"

definition toy_sending :: "(jval, string) system" where
  "toy_sending = set_task 0 toy_call (toy_task Sending) (sy_daemon toy_connected)
     (toy_connected\<lparr>sy_writer := Some 0\<rparr>)"

text \<open>While the request is being written another phone connects.\<close>

definition toy_stalled :: "(jval, string) system" where
  "toy_stalled = accept_phone 6 toy_sending"

lemma toy_accepted_reachable: "reachable toy_crates toy_store toy_files toy_accepted"
  unfolding toy_accepted_def
  by (rule reachable.step [OF reachable.init], rule step.accept_pam) (simp add: system_init_def)

lemma toy_started_reachable: "reachable toy_crates toy_store toy_files toy_started"
proof -
  have "step toy_crates toy_accepted toy_started"
    using step.start_verify [of toy_accepted 0 toy_crates toy_inputs "''ana''" "''sudo''" "''ls''"]
      toy_start
    by (simp add: toy_accepted_def accept_pam_def system_init_def verify_started_def toy_call_def
        toy_task_def daemon_new_def toy_started_def toy_daemon_def)
  then show ?thesis using toy_accepted_reachable reachable.step by metis
qed

lemma toy_registered_reachable: "reachable toy_crates toy_store toy_files toy_registered"
proof -
  have "sy_tasks toy_started 0 = Some (toy_call, Verifying toy_device ''KEY'' toy_request Allocated)"
    by (simp add: toy_started_def set_task_def toy_task_def)
  from step.register_verify [OF this, of toy_crates]
  have "step toy_crates toy_started toy_registered"
    by (simp add: toy_registered_def toy_task_def) (simp add: toy_request_def toy_started_def set_task_def)
  then show ?thesis using toy_started_reachable reachable.step by metis
qed

lemma toy_registered_idle [simp]: "sy_adopting toy_registered = None" "sy_writer toy_registered = None"
  by (simp_all add: toy_registered_def toy_started_def toy_accepted_def accept_pam_def set_task_def
      system_init_def)

lemma toy_connected_reachable: "reachable toy_crates toy_store toy_files toy_connected"
proof -
  let ?s = "accept_phone 5 toy_registered"
  have "reachable toy_crates toy_store toy_files ?s"
    by (rule reachable.step [OF toy_registered_reachable], rule step.accept_phone) simp
  moreover have "step toy_crates ?s toy_connected"
    unfolding toy_connected_def by (rule step.connect) (simp_all add: accept_phone_def)
  ultimately show ?thesis by (rule reachable.step)
qed

lemma toy_connected_task:
  "sy_tasks toy_connected 0 = Some (toy_call, Verifying toy_device ''KEY'' toy_request Registered)"
  by (simp add: toy_connected_def finish_adopting_def accept_phone_def toy_registered_def set_task_def
      toy_task_def)

lemma toy_connected_idle [simp]: "sy_adopting toy_connected = None" "sy_writer toy_connected = None"
  by (simp_all add: toy_connected_def finish_adopting_def accept_phone_def)

lemma toy_sending_reachable: "reachable toy_crates toy_store toy_files toy_sending"
  using reachable.step [OF toy_connected_reachable step.lock_verify [OF toy_connected_task]]
  by (simp add: toy_sending_def toy_task_def)

lemma toy_sending_simps [simp]:
  "sy_writer toy_sending = Some 0" "sy_adopting toy_sending = None"
  "sy_daemon toy_sending = sy_daemon toy_connected"
  by (simp_all add: toy_sending_def set_task_def)

lemma toy_stalled_reachable: "reachable toy_crates toy_store toy_files toy_stalled"
  unfolding toy_stalled_def
  by (rule reachable.step [OF toy_sending_reachable], rule step.accept_phone) simp

lemma toy_sent_reachable: "reachable toy_crates toy_store toy_files toy_sent"
proof -
  let ?d = "sy_daemon toy_sending"
  have t: "sy_tasks toy_sending 0 = Some (toy_call, Verifying toy_device ''KEY'' toy_request Sending)"
    by (simp add: toy_sending_def set_task_def toy_task_def)
  have d: "?d = (insert_waiter 1 0 toy_daemon)\<lparr>dm_outbound := Some 5\<rparr>"
    by (simp add: toy_connected_def finish_adopting_def accept_phone_def toy_registered_def
        set_task_def adopt_phone_def)
  have send: "send_verification toy_crates (Inr ()) toy_request ?d = (Inr (), sy_daemon toy_sent)"
    by (simp add: d send_verification_def send_line_def toy_line_def insert_waiter_def drop_sender_def
        toy_daemon_def daemon_new_def toy_sent_def del: toy_sending_simps(3))
  have "set_task 0 toy_call (toy_task Sent) (sy_daemon toy_sent) (toy_sending\<lparr>sy_writer := None\<rparr>)
      = toy_sent"
    by (rule system_eqI) (simp_all add: toy_sent_def toy_sending_def set_task_def toy_connected_def
        finish_adopting_def accept_phone_def toy_registered_def toy_started_def toy_accepted_def
        accept_pam_def system_init_def)
  then show ?thesis
    using reachable.step [OF toy_sending_reachable, of toy_sent] step.send_verify [OF t send]
    by (simp add: verify_sent_def toy_task_def)
qed

lemma toy_parse:
  "parse_response toy_json toy_base64 toy_reply =
     Inr \<lparr>resp_id = 1, resp_signature = toy_signature, resp_denied = None\<rparr>"
  by (simp add: parse_response_def toy_reply_def json_field_defs)

lemma toy_kind:
  "message_kind toy_json toy_reply = None" "json_id toy_json toy_reply =
     Some (JObject [(''id'', JNumber 1), (''sig'', JString (b64_encode toy_base64 toy_signature))], 1)"
  by (simp_all add: message_kind_def json_id_def toy_reply_def json_field_defs)

lemma toy_heard_reachable: "reachable toy_crates toy_store toy_files toy_heard"
proof -
  let ?d = "sy_daemon toy_sent"
  have json: "dm_pending_json ?d 1 = None" and table: "dm_pending ?d 1 = Some 0"
    by (simp_all add: toy_sent_def daemon_new_def)
  have "deliver_assertion toy_crates toy_reply ?d =
      send_mail 0 (Inr toy_signature) (?d\<lparr>dm_pending := (dm_pending ?d)(1 := None)\<rparr>)"
    using deliver_assertion_simps(3) [of toy_crates toy_reply _ ?d 0] toy_parse table
    by (simp add: verdict_of_def)
  then have "on_phone_message toy_crates env w toy_reply ?d =
      send_mail 0 (Inr toy_signature) (?d\<lparr>dm_pending := (dm_pending ?d)(1 := None)\<rparr>)" for env w
    using toy_kind json deliver_simps(2) [of toy_crates toy_reply _ 1 ?d]
    by (simp add: on_phone_message_def)
  moreover have "?d\<lparr>dm_pending := Map.empty, dm_mail := (\<lambda>_. Empty)(0 := Delivered (Inr toy_signature))\<rparr>
      = send_mail 0 (Inr toy_signature) (?d\<lparr>dm_pending := (dm_pending ?d)(1 := None)\<rparr>)"
    by (simp add: send_mail_def toy_sent_def daemon_new_def)
  ultimately have "step toy_crates toy_sent toy_heard"
    using step.hear [where C = toy_crates and s = toy_sent and line = toy_reply]
    by (simp add: toy_heard_def) (simp add: toy_sent_def)
  then show ?thesis
    using toy_sent_reachable reachable.step by metis
qed

lemma toy_verifies: "verify_assertion toy_p256 ''KEY'' toy_line toy_signature = Inr ()"
  by (simp add: verify_assertion_def toy_p256_def toy_signature_def toy_line_def)

lemma toy_approved_reachable: "reachable toy_crates toy_store toy_files toy_approved"
proof -
  have t: "sy_tasks toy_heard 0 = Some (toy_call, Verifying toy_device ''KEY'' toy_request Sent)"
    by (simp add: toy_heard_def toy_sent_def toy_task_def)
  have m: "may_see (dm_mail (sy_daemon toy_heard) 0) (Received (Inr toy_signature))"
    by (simp add: may_see_def toy_heard_def)
  have f: "finish_verification toy_crates limit ''KEY'' toy_request (Received (Inr toy_signature))
      (sy_daemon toy_heard) = (Inr (), sy_daemon toy_heard)" for limit
    using toy_verifies by (simp add: finish_verification_def toy_line_def)
  have "set_task 0 toy_call (Verified (Some (toy_device, ''KEY'', toy_request)) (Inr ()))
      (sy_daemon toy_heard) toy_heard = toy_approved"
    by (simp add: set_task_def toy_approved_def toy_heard_def toy_sent_def)
  then show ?thesis
    using step.finish_verify [OF t m f [of "''30s''"]] toy_heard_reachable reachable.step by metis
qed

end
