(* ===== verification/Safety.thy ===== *)
theory Safety
  imports Waiters Scenario
begin

text \<open>
  Where an approval comes from: the invariant that ties the result of a verification to a
  signature the phone sent after it began, and the properties of the daemon as a whole.
\<close>

subsection \<open>Where an approval comes from\<close>

fun locals_of :: "('v, 'vk) status \<Rightarrow> (Device \<times> 'vk \<times> VerifyRequest) option" where
  "locals_of (Verifying dev key req st) = Some (dev, key, req)"
| "locals_of (Verified x r) = x"
| "locals_of (Asking i line st) = None"
| "locals_of (Answered q) = None"

fun approved :: "('v, 'vk) status \<Rightarrow> bool" where
  "approved (Verified x r) \<longleftrightarrow> r = Inr ()"
| "approved (Verifying dev key req st) \<longleftrightarrow> False"
| "approved (Asking i line st) \<longleftrightarrow> False"
| "approved (Answered q) \<longleftrightarrow> False"

text \<open>
  \<open>s0\<close> is the state in which task \<open>t\<close> started: the device was the active one there, and
  \<open>new\<close> is what the phone said since.
\<close>

definition origin ::
  "('v, 'pk, 'vk, 'sig) crates \<Rightarrow> Store \<Rightarrow> directory \<Rightarrow> ('v, 'vk) system \<Rightarrow> nat \<Rightarrow> pam_call \<Rightarrow> Device
   \<Rightarrow> 'vk \<Rightarrow> VerifyRequest \<Rightarrow> ('v, 'vk) system \<Rightarrow> string list \<Rightarrow> bool" where
  "origin C st files s t call dev key req s0 new \<longleftrightarrow>
     reachable C st files s0 \<and> (step C)\<^sup>*\<^sup>* s0 s \<and> sy_tasks s0 t = None
     \<and> sy_heard s = new @ sy_heard s0
     \<and> (\<exists>read_dir. active_device C read_dir (sy_daemon s0) = Inr dev)
     \<and> request_of_call C call dev key req"

text \<open>One of the lines is a reply to the request with that verdict.\<close>

definition answered ::
  "('v, 'pk, 'vk, 'sig) crates \<Rightarrow> string list \<Rightarrow> VerifyRequest \<Rightarrow> verdict \<Rightarrow> bool" where
  "answered C new req m \<longleftrightarrow>
     (\<exists>line resp. line \<in> set new \<and> parse_response (cr_json C) (cr_b64 C) line = Inr resp
        \<and> resp_id resp = vr_id req \<and> verdict_of resp = m)"

text \<open>What holds of a task with these locals, mailbox and status.\<close>

definition backed ::
  "('v, 'pk, 'vk, 'sig) crates \<Rightarrow> string list \<Rightarrow> 'vk \<Rightarrow> VerifyRequest \<Rightarrow> verdict mailbox
   \<Rightarrow> ('v, 'vk) status \<Rightarrow> bool" where
  "backed C new key req box status \<longleftrightarrow>
     (\<forall>m. box = Delivered m \<longrightarrow> answered C new req m)
     \<and> (approved status \<longrightarrow> (\<exists>sig. answered C new req (Inr sig)
          \<and> verify_assertion (cr_p256 C) key (to_line (cr_json C) (cr_b64 C) req) sig = Inr ()))"

definition task_authentic ::
  "('v, 'pk, 'vk, 'sig) crates \<Rightarrow> Store \<Rightarrow> directory \<Rightarrow> ('v, 'vk) system \<Rightarrow> nat \<Rightarrow> bool" where
  "task_authentic C st files s t \<longleftrightarrow>
     (case sy_tasks s t of
        None \<Rightarrow> \<forall>m. dm_mail (sy_daemon s) t \<noteq> Delivered m
      | Some (call, status) \<Rightarrow>
          (case locals_of status of
             None \<Rightarrow> \<not> approved status \<and> (\<forall>m. dm_mail (sy_daemon s) t \<noteq> Delivered m)
           | Some (dev, key, req) \<Rightarrow>
               \<exists>s0 new. origin C st files s t call dev key req s0 new
                 \<and> backed C new key req (dm_mail (sy_daemon s) t) status))"

lemma drop_sender_Delivered [simp]:
  "drop_sender old mail t = Delivered m \<longleftrightarrow> mail t = Delivered m"
  by (simp add: drop_sender_eq)

lemma answered_mono: "set new \<subseteq> set new' \<Longrightarrow> answered C new req m \<Longrightarrow> answered C new' req m"
  unfolding answered_def by blast

text \<open>Origins survive later steps.\<close>

lemma origin_step:
  "\<lbrakk>origin C st files s t call dev key req s0 new; step C s s'; sy_heard s' = later @ sy_heard s\<rbrakk> \<Longrightarrow>
     origin C st files s' t call dev key req s0 (later @ new)"
  unfolding origin_def by (auto intro: rtranclp.rtrancl_into_rtrancl)

text \<open>A task that does not move stays authentic while its mailbox receives nothing.\<close>

lemma task_authentic_idle:
  assumes "task_authentic C st files s t" and "step C s s'" and "sy_heard s' = later @ sy_heard s"
    and "sy_tasks s' t = sy_tasks s t"
    and "\<And>m. dm_mail (sy_daemon s') t = Delivered m \<Longrightarrow> dm_mail (sy_daemon s) t = Delivered m"
  shows "task_authentic C st files s' t"
proof (cases "sy_tasks s t")
  case None
  then show ?thesis using assms(1,4,5) by (auto simp: task_authentic_def)
next
  case (Some cs)
  obtain call status where cs: "cs = (call, status)" by fastforce
  show ?thesis
  proof (cases "locals_of status")
    case None
    then show ?thesis using assms(1,4,5) Some cs by (auto simp: task_authentic_def)
  next
    case (Some l)
    obtain dev key req where l: "l = (dev, key, req)" by (cases l) auto
    obtain s0 new where o: "origin C st files s t call dev key req s0 new"
      and b: "backed C new key req (dm_mail (sy_daemon s) t) status"
      using assms(1) \<open>sy_tasks s t = Some cs\<close> cs Some l by (auto simp: task_authentic_def)
    have "backed C (later @ new) key req (dm_mail (sy_daemon s') t) status"
      using b assms(5) answered_mono [of new "later @ new" C req]
      unfolding backed_def by (metis (no_types) Un_upper2 set_append)
    then show ?thesis
      using origin_step [OF o assms(2,3)] \<open>sy_tasks s t = Some cs\<close> cs Some l assms(4)
      by (auto simp: task_authentic_def)
  qed
qed

text \<open>
  A task that moves on with the same locals stays authentic, provided an approval is backed.
\<close>

lemma task_authentic_move:
  assumes "task_authentic C st files s t" and "step C s s'" and "sy_heard s' = sy_heard s"
    and t: "sy_tasks s t = Some (call, status)" and "locals_of status = Some (dev, key, req)"
    and "sy_tasks s' t = Some (call, status')" and "locals_of status' = Some (dev, key, req)"
    and mail: "\<And>m. dm_mail (sy_daemon s') t = Delivered m \<Longrightarrow> dm_mail (sy_daemon s) t = Delivered m"
    and ok: "approved status' \<Longrightarrow> \<exists>sig. dm_mail (sy_daemon s) t = Delivered (Inr sig)
      \<and> verify_assertion (cr_p256 C) key (to_line (cr_json C) (cr_b64 C) req) sig = Inr ()"
  shows "task_authentic C st files s' t"
proof -
  obtain s0 new where o: "origin C st files s t call dev key req s0 new"
    and b: "backed C new key req (dm_mail (sy_daemon s) t) status"
    using assms(1) t assms(5) by (auto simp: task_authentic_def)
  have "backed C new key req (dm_mail (sy_daemon s') t) status'"
    using b ok mail unfolding backed_def by blast
  moreover have "origin C st files s' t call dev key req s0 new"
    using origin_step [OF o assms(2), of "[]"] assms(3) by simp
  ultimately show ?thesis
    using assms(6,7) by (auto simp: task_authentic_def)
qed

text \<open>Only a phone line delivers a verdict.\<close>

lemma step_mail:
  assumes "step C s s'"
  shows "(\<exists>env w line. sy_heard s' = line # sy_heard s \<and> sy_tasks s' = sy_tasks s
            \<and> sy_daemon s' = on_phone_message C env w line (sy_daemon s))
    \<or> (sy_heard s' = sy_heard s
        \<and> (\<forall>t m. dm_mail (sy_daemon s') t = Delivered m \<longrightarrow> dm_mail (sy_daemon s) t = Delivered m))"
  using assms
proof (induction rule: step.induct)
  case (start_verify s t venv user action detail r d)
  from start_verify(2) show ?case
    by (cases rule: start_verification_cases) auto
next
  case (send_verify s t call dev key req written r d)
  from send_verify(2) show ?case
    by (cases rule: send_verification_cases) (auto dest: waiting_part_eqD)
next
  case (finish_verify s t call dev key req w limit r d)
  from finish_verify(3) show ?case
    by (cases rule: finish_verification_cases) auto
next
  case (start_ask s t read_dir wcall e i line d)
  then show ?case using start_ask_effect [OF start_ask(3)] by auto
next
  case (send_ask s t call i line written r d)
  from send_ask(2) show ?case
    by (cases rule: send_ask_cases) (auto dest: waiting_part_eqD)
next
  case (finish_ask s t wcall i line w limit r d)
  from finish_ask(3) show ?case
    by (cases rule: finish_ask_cases) auto
qed (auto simp: adopt_phone_def accept_phone_def finish_adopting_def accept_pam_def)

text \<open>How the entry of one task may change in a step.\<close>

definition may_start ::
  "('v, 'pk, 'vk, 'sig) crates \<Rightarrow> ('v, 'vk) system \<Rightarrow> pam_call \<Rightarrow> ('v, 'vk) status \<Rightarrow> bool" where
  "may_start C s call status \<longleftrightarrow> \<not> approved status
     \<and> (\<forall>dev key req. locals_of status = Some (dev, key, req) \<longrightarrow>
          (\<exists>read_dir. active_device C read_dir (sy_daemon s) = Inr dev)
          \<and> request_of_call C call dev key req)"

definition may_move ::
  "('v, 'pk, 'vk, 'sig) crates \<Rightarrow> ('v, 'vk) system \<Rightarrow> nat \<Rightarrow> ('v, 'vk) status \<Rightarrow> ('v, 'vk) status \<Rightarrow> bool" where
  "may_move C s t status status' \<longleftrightarrow> locals_of status' = locals_of status
     \<and> (approved status' \<longrightarrow> (\<exists>dev key req sig. locals_of status = Some (dev, key, req)
          \<and> dm_mail (sy_daemon s) t = Delivered (Inr sig)
          \<and> verify_assertion (cr_p256 C) key (to_line (cr_json C) (cr_b64 C) req) sig = Inr ()))"

lemma step_tasks:
  assumes "step C s s'"
  shows "sy_tasks s' = sy_tasks s
    \<or> (\<exists>t call status. sy_tasks s t = None \<and> sy_tasks s' = (sy_tasks s)(t \<mapsto> (call, status))
         \<and> may_start C s call status)
    \<or> (\<exists>t call status status'. sy_tasks s t = Some (call, status)
         \<and> sy_tasks s' = (sy_tasks s)(t \<mapsto> (call, status')) \<and> may_move C s t status status')"
  using assms
proof (induction rule: step.induct)
  case (start_verify s t venv user action detail r d)
  have "may_start C s (PamVerify user action detail) (verify_started r)"
    using start_verify(2)
    by (cases rule: start_verification_cases) (auto simp: may_start_def verify_started_def)
  with start_verify(1) show ?case by auto
next
  case (register_verify s t call dev key req)
  have "may_move C s t (Verifying dev key req Allocated) (Verifying dev key req Registered)"
    by (simp add: may_move_def)
  with register_verify show ?case by auto
next
  case (send_verify s t call dev key req written r d)
  have "may_move C s t (Verifying dev key req Sending) (verify_sent dev key req r)"
    using send_verify(2)
    by (cases rule: send_verification_cases) (simp_all add: may_move_def verify_sent_def)
  with send_verify(1) show ?case by auto
next
  case (lock_verify s t call dev key req)
  have "may_move C s t (Verifying dev key req Registered) (Verifying dev key req Sending)"
    by (simp add: may_move_def)
  with lock_verify(1) show ?case by auto
next
  case (lock_ask s t call i line)
  have "may_move C s t (Asking i line Registered) (Asking i line Sending)"
    by (simp add: may_move_def)
  with lock_ask(1) show ?case by auto
next
  case (finish_verify s t call dev key req w limit r d)
  have "may_move C s t (Verifying dev key req Sent) (Verified (Some (dev, key, req)) r)"
    using finish_verify(3)
  proof (cases rule: finish_verification_cases)
    case (received m)
    then show ?thesis using finish_verify(2) by (auto simp: may_move_def may_see_def)
  next
    case gone
    then show ?thesis by (auto simp: may_move_def)
  qed
  with finish_verify(1) show ?case by auto
next
  case (refuse_ask s t read_dir wcall e)
  have "may_start C s (PamWebauthn wcall) (Answered (Inl e))"
    by (simp add: may_start_def)
  with refuse_ask(1) show ?case by auto
next
  case (start_ask s t read_dir wcall e i line d)
  have "may_start C s (PamWebauthn wcall) (Asking i line Allocated)"
    by (simp add: may_start_def)
  with start_ask(1) show ?case by auto
next
  case (register_ask s t call i line)
  have "may_move C s t (Asking i line Allocated) (Asking i line Registered)"
    by (simp add: may_move_def)
  with register_ask show ?case by auto
next
  case (send_ask s t call i line written r d)
  have "may_move C s t (Asking i line Sending) (ask_sent i line r)"
    by (simp add: may_move_def ask_sent_def split: sum.splits)
  with send_ask(1) show ?case by auto
next
  case (finish_ask s t wcall i line w limit r d)
  have "may_move C s t (Asking i line Sent) (Answered (tryR r (webauthn_answer C wcall)))"
    by (simp add: may_move_def)
  with finish_ask(1) show ?case by auto
qed (simp_all add: accept_phone_def finish_adopting_def accept_pam_def)

lemma task_authentic_none:
  assumes "task_authentic C st files s t" and "sy_tasks s t = Some (call, status)"
    and "locals_of status = None" and "sy_tasks s' t = Some (call, status')"
    and "may_move C s t status status'"
    and "\<And>m. dm_mail (sy_daemon s') t = Delivered m \<Longrightarrow> dm_mail (sy_daemon s) t = Delivered m"
  shows "task_authentic C st files s' t"
  using assms by (auto simp: task_authentic_def may_move_def)

lemma task_authentic_start:
  assumes "reachable C st files s" and "step C s s'" and "sy_heard s' = sy_heard s"
    and "task_authentic C st files s t" and "sy_tasks s t = None"
    and "sy_tasks s' t = Some (call, status)" and "may_start C s call status"
    and mail: "\<And>m. dm_mail (sy_daemon s') t = Delivered m \<Longrightarrow> dm_mail (sy_daemon s) t = Delivered m"
  shows "task_authentic C st files s' t"
proof -
  have quiet: "dm_mail (sy_daemon s') t \<noteq> Delivered m" for m
    using assms(4,5) mail by (auto simp: task_authentic_def)
  show ?thesis
  proof (cases "locals_of status")
    case None
    then show ?thesis using assms(6,7) quiet by (simp add: task_authentic_def may_start_def)
  next
    case (Some l)
    obtain dev key req where l: "l = (dev, key, req)" by (cases l) auto
    have "origin C st files s' t call dev key req s []"
      using assms(1,2,3,5,7) Some l by (auto simp: origin_def may_start_def)
    moreover have "backed C [] key req (dm_mail (sy_daemon s') t) status"
      using quiet assms(7) by (simp add: backed_def may_start_def)
    ultimately show ?thesis
      using assms(6) Some l by (auto simp: task_authentic_def)
  qed
qed

lemma task_authentic_hear:
  assumes r: "reachable C st files s" and st: "step C s s'"
    and h: "sy_heard s' = line # sy_heard s" and tasks: "sy_tasks s' = sy_tasks s"
    and d: "sy_daemon s' = on_phone_message C env w line (sy_daemon s)"
    and ok: "task_authentic C st files s t"
  shows "task_authentic C st files s' t"
proof (cases "\<forall>m. dm_mail (sy_daemon s') t = Delivered m \<longrightarrow> dm_mail (sy_daemon s) t = Delivered m")
  case True
  then show ?thesis
    using task_authentic_idle [OF ok st, of "[line]"] h tasks by simp
next
  case False
  then obtain resp where parse: "parse_response (cr_json C) (cr_b64 C) line = Inr resp"
    and table: "dm_pending (sy_daemon s) (resp_id resp) = Some t"
    and mail: "dm_mail (sy_daemon s') t = Delivered (verdict_of resp)"
    using d by (cases rule: on_phone_message_cases [of C env w line "sy_daemon s"])
      (auto dest: waiting_part_eqD split: if_splits)
  have waits: "waits (verify_phase s t) (resp_id resp)"
    using reachable_tables_ok [OF r] table table_okD(1) by blast
  then obtain call dev key req stage where
    t: "sy_tasks s t = Some (call, Verifying dev key req stage)" and i: "vr_id req = resp_id resp"
    by (auto simp: waits_def verify_phase_def split: option.splits prod.splits status.splits)
  obtain s0 new where o: "origin C st files s t call dev key req s0 new"
    using ok t by (auto simp: task_authentic_def)
  have "answered C (line # new) req (verdict_of resp)"
    using parse i unfolding answered_def by auto
  then have "backed C (line # new) key req (dm_mail (sy_daemon s') t) (Verifying dev key req stage)"
    using mail by (simp add: backed_def)
  moreover have "origin C st files s' t call dev key req s0 (line # new)"
    using origin_step [OF o st, of "[line]"] h by simp
  ultimately show ?thesis
    using t tasks by (auto simp: task_authentic_def)
qed

lemma step_task_cases:
  assumes "step C s s'"
  obtains (idle) "sy_tasks s' t = sy_tasks s t"
  | (start) call status where "sy_tasks s t = None" "sy_tasks s' t = Some (call, status)"
      "may_start C s call status"
  | (move) call status status' where "sy_tasks s t = Some (call, status)"
      "sy_tasks s' t = Some (call, status')" "may_move C s t status status'"
proof -
  from step_tasks [OF assms] consider (same) "sy_tasks s' = sy_tasks s"
    | (new) u call status where "sy_tasks s u = None" "sy_tasks s' = (sy_tasks s)(u \<mapsto> (call, status))"
        "may_start C s call status"
    | (moved) u call status status' where "sy_tasks s u = Some (call, status)"
        "sy_tasks s' = (sy_tasks s)(u \<mapsto> (call, status'))" "may_move C s u status status'"
    by blast
  then show thesis
  proof cases
    case new
    then show thesis using idle start by (cases "t = u") simp_all
  next
    case moved
    then show thesis using idle move by (cases "t = u") simp_all
  qed (use idle in simp)
qed

lemma step_authentic:
  assumes r: "reachable C st files s" and st: "step C s s'"
    and ok: "\<And>t. task_authentic C st files s t"
  shows "task_authentic C st files s' t"
  using step_mail [OF st]
proof
  assume "\<exists>env w line. sy_heard s' = line # sy_heard s \<and> sy_tasks s' = sy_tasks s
    \<and> sy_daemon s' = on_phone_message C env w line (sy_daemon s)"
  then show ?thesis using task_authentic_hear [OF r st _ _ _ ok] by blast
next
  assume "sy_heard s' = sy_heard s \<and> (\<forall>t m. dm_mail (sy_daemon s') t = Delivered m \<longrightarrow>
    dm_mail (sy_daemon s) t = Delivered m)"
  then have h: "sy_heard s' = sy_heard s"
    and m: "\<And>u v. dm_mail (sy_daemon s') u = Delivered v \<Longrightarrow> dm_mail (sy_daemon s) u = Delivered v"
    by blast+
  have idle: "task_authentic C st files s' t" if "sy_tasks s' t = sy_tasks s t"
    using task_authentic_idle [OF ok st, of "[]" t] h m that by simp
  from st show ?thesis
  proof (cases rule: step_task_cases [of _ _ _ t])
    case start
    then show ?thesis using task_authentic_start [OF r st h ok _ _ _ m] by blast
  next
    case (move call status status')
    show ?thesis
    proof (cases "locals_of status")
      case None
      then show ?thesis using task_authentic_none [OF ok move(1) None move(2,3) m] by blast
    next
      case (Some l)
      obtain dev key req where l: "l = (dev, key, req)" by (cases l) auto
      show ?thesis
        by (rule task_authentic_move [OF ok st h move(1) _ move(2) _ m])
          (use move(3) Some l in \<open>auto simp: may_move_def\<close>)
    qed
  qed (use idle in blast)
qed

lemma reachable_authentic:
  "reachable C st files s \<Longrightarrow> task_authentic C st files s t"
proof (induction arbitrary: t rule: reachable.induct)
  case init
  then show ?case
    by (simp add: task_authentic_def system_init_def daemon_new_def)
next
  case (step s s')
  then show ?case using step_authentic by blast
qed

subsection \<open>What is written to the phone\<close>

text \<open>
  Only adopting a phone changes the connection written to, and what was written is never
  taken back.
\<close>

definition only_writes :: "'v daemon \<Rightarrow> 'v daemon \<Rightarrow> bool" where
  "only_writes d d' \<longleftrightarrow> dm_outbound d' = dm_outbound d \<and> (\<exists>more. dm_sent d' = dm_sent d @ more)"

lemma only_writes_refl [simp]: "only_writes d d"
  by (simp add: only_writes_def)

lemma only_writes_trans: "only_writes d d' \<Longrightarrow> only_writes d' d'' \<Longrightarrow> only_writes d d''"
  by (auto simp: only_writes_def)

lemma only_writes_updates [simp]:
  "only_writes d (d'\<lparr>dm_pairings := p\<rparr>) = only_writes d d'"
  "only_writes d (d'\<lparr>dm_files := f\<rparr>) = only_writes d d'"
  "only_writes (d\<lparr>dm_pairings := p\<rparr>) d' = only_writes d d'"
  "only_writes (d\<lparr>dm_files := f\<rparr>) d' = only_writes d d'"
  "only_writes d (remove_waiter i d') = only_writes d d'"
  "only_writes d (remove_json_waiter i d') = only_writes d d'"
  "only_writes d (insert_waiter i t d') = only_writes d d'"
  "only_writes d (insert_json_waiter i t d') = only_writes d d'"
  "only_writes d (snd (fetch_id d')) = only_writes d d'"
  by (simp_all add: only_writes_def waiter_defs fetch_id_def)

lemma send_line_writes: "send_line w line d = (r, d') \<Longrightarrow> only_writes d d'"
  by (auto simp: send_line_def only_writes_def split: option.splits sum.splits)

lemma record_device_writes: "record_device C env dev d = (r, d') \<Longrightarrow> only_writes d d'"
  by (auto simp: record_device_def Let_def dest!: send_line_writes split: prod.splits sum.splits)

lemma complete_pairing_writes: "complete_pairing C env line d = (r, d') \<Longrightarrow> only_writes d d'"
  by (auto simp: complete_pairing_def Let_def dest!: record_device_writes
      split: prod.splits sum.splits option.splits)

lemma deliver_writes: "only_writes d (deliver C line d)"
  by (auto simp: deliver_def deliver_assertion_def waiter_defs Let_def only_writes_def
      split: option.splits prod.splits sum.splits)

lemma on_phone_message_writes: "only_writes d (on_phone_message C env w line d)"
proof (cases "message_kind (cr_json C) line = Some ''pair.request''")
  case True
  obtain r d1 where c: "complete_pairing C env line d = (r, d1)" by fastforce
  obtain r2 d2 where l: "send_line w
      (json_to_string (cr_json C) (pair_refused (cr_json C) (case r of Inl e \<Rightarrow> e | Inr _ \<Rightarrow> [])))
      d1 = (r2, d2)" by fastforce
  have "on_phone_message C env w line d = (case r of Inl e \<Rightarrow> d2 | Inr _ \<Rightarrow> d1)"
    using True c l by (auto simp: on_phone_message_def split: sum.splits)
  then show ?thesis
    using complete_pairing_writes [OF c] send_line_writes [OF l] only_writes_trans
    by (auto split: sum.splits)
qed (simp add: on_phone_message_def deliver_writes)

lemma send_verification_writes:
  "send_verification C written req d = (r, d') \<Longrightarrow> only_writes d d'"
  by (auto simp: send_verification_def dest!: send_line_writes split: prod.splits sum.splits)

lemma send_ask_writes: "send_ask written i line d = (r, d') \<Longrightarrow> only_writes d d'"
  by (auto simp: send_ask_def dest!: send_line_writes split: prod.splits sum.splits)

lemma step_writes:
  assumes "step C s s'"
  shows "only_writes (sy_daemon s) (sy_daemon s')
    \<or> (\<exists>conn. sy_adopting s = Some conn \<and> sy_writer s = None \<and> s' = finish_adopting conn s)"
  using assms
proof (induction rule: step.induct)
  case (start_verify s t venv user action detail r d)
  from start_verify(2) show ?case
    by (cases rule: start_verification_cases) auto
next
  case (finish_verify s t call dev key req w limit r d)
  from finish_verify(3) show ?case
    by (cases rule: finish_verification_cases) auto
next
  case (start_ask s t read_dir wcall e i line d)
  then show ?case using start_ask_effect [OF start_ask(3)] by auto
next
  case (finish_ask s t wcall i line w limit r d)
  from finish_ask(3) show ?case
    by (cases rule: finish_ask_cases) auto
qed (auto simp: accept_phone_def accept_pam_def
    intro: on_phone_message_writes send_verification_writes send_ask_writes)

lemma step_sent_mono:
  assumes "step C s s'" and "x \<in> set (dm_sent (sy_daemon s))"
  shows "x \<in> set (dm_sent (sy_daemon s'))"
  using step_writes [OF assms(1)] assms(2)
  by (auto simp: only_writes_def finish_adopting_def adopt_phone_def)

text \<open>A verification waits for its reply, or is approved, only after its line was written.\<close>

definition line_written ::
  "('v, 'pk, 'vk, 'sig) crates \<Rightarrow> VerifyRequest \<Rightarrow> 'v daemon \<Rightarrow> bool" where
  "line_written C req d \<longleftrightarrow>
     (\<exists>conn. (conn, to_line (cr_json C) (cr_b64 C) req @ [newline]) \<in> set (dm_sent d))"

lemma send_verification_line:
  assumes "send_verification C written req d = (Inr (), d')"
  shows "\<exists>conn. dm_outbound d = Some conn
    \<and> d' = d\<lparr>dm_sent := dm_sent d @ [(conn, to_line (cr_json C) (cr_b64 C) req @ [newline])]\<rparr>"
proof (cases "dm_outbound d")
  case None
  with assms show ?thesis by (simp add: send_verification_def send_line_def)
next
  case (Some conn)
  with assms show ?thesis
    by (cases "written") (simp_all add: send_verification_def send_line_def)
qed

lemma becomes_sent:
  assumes "step C s s'" and "sy_tasks s' t = Some (call, Verifying dev key req Sent)"
    and "sy_tasks s' t \<noteq> sy_tasks s t"
  shows "line_written C req (sy_daemon s')"
  using assms
proof cases
  case (send_verify u call' dev' key' req' written r d)
  then have "u = t" and "r = Inr ()" and "req' = req"
    using assms(2,3) by (auto simp: verify_sent_def split: if_splits sum.splits)
  then show ?thesis
    using send_verification_line [of C written req "sy_daemon s" d] send_verify
    by (auto simp: line_written_def)
qed (auto simp: accept_phone_def accept_pam_def finish_adopting_def verify_started_def ask_sent_def
    split: if_splits sum.splits prod.splits)

lemma becomes_approved:
  assumes "step C s s'" and "sy_tasks s' t = Some (call, Verified (Some (dev, key, req)) (Inr ()))"
    and "sy_tasks s' t \<noteq> sy_tasks s t"
  shows "sy_tasks s t = Some (call, Verifying dev key req Sent)"
  using assms(1)
proof cases
  case (finish_verify u call' dev' key' req' w limit r d)
  then show ?thesis using assms(2,3) by (auto split: if_splits)
next
  case start_verify
  then show ?thesis
    using assms(2,3) by (simp add: verify_started_def split: if_splits sum.splits prod.splits)
next
  case send_verify
  then show ?thesis using assms(2,3) by (simp add: verify_sent_def split: if_splits sum.splits)
next
  case send_ask
  then show ?thesis using assms(2,3) by (simp add: ask_sent_def split: if_splits sum.splits)
qed (use assms(2,3) in \<open>simp_all add: accept_phone_def accept_pam_def finish_adopting_def split: if_splits\<close>)

lemma reachable_line_written:
  "reachable C st files s \<Longrightarrow>
    sy_tasks s t = Some (call, Verifying dev key req Sent)
      \<or> sy_tasks s t = Some (call, Verified (Some (dev, key, req)) (Inr ())) \<Longrightarrow>
    line_written C req (sy_daemon s)"
proof (induction rule: reachable.induct)
  case init
  then show ?case by (simp add: system_init_def)
next
  case (step s s')
  have keep: "line_written C req (sy_daemon s')" if "line_written C req (sy_daemon s)"
    using that step_sent_mono [OF step(2)] by (auto simp: line_written_def)
  show ?case
  proof (cases "sy_tasks s' t = sy_tasks s t")
    case True
    then show ?thesis using step(3,4) keep by simp
  next
    case False
    then show ?thesis
      using step(4) becomes_sent [OF step(2) _ False] becomes_approved [OF step(2) _ False] step(3) keep
      by blast
  qed
qed

subsection \<open>Properties of the daemon\<close>

text \<open>
  C1. However the tasks, the phone connections, System Settings and whoever writes to the
  phone port interleave, a verification that was approved holds the locals of one request
  for exactly this user, action and detail, made with the key of a device that was the active
  one when the task started; the line of that request was written to a phone, and one of the
  lines received since the task started is a reply to it whose signature verifies under that
  key over that very line.
\<close>

theorem approval_is_authentic:
  assumes "reachable C st files s" and "sy_tasks s t = Some (call, Verified x (Inr ()))"
  shows "\<exists>dev key req s0 new line resp conn. x = Some (dev, key, req)
    \<and> origin C st files s t call dev key req s0 new
    \<and> (conn, to_line (cr_json C) (cr_b64 C) req @ [newline]) \<in> set (dm_sent (sy_daemon s))
    \<and> line \<in> set new \<and> parse_response (cr_json C) (cr_b64 C) line = Inr resp
    \<and> resp_id resp = vr_id req \<and> resp_denied resp = None
    \<and> verify_assertion (cr_p256 C) key (to_line (cr_json C) (cr_b64 C) req) (resp_signature resp) = Inr ()"
proof -
  have ok: "task_authentic C st files s t" by (rule reachable_authentic [OF assms(1)])
  with assms(2) obtain dev key req where x: "x = Some (dev, key, req)"
    by (cases x) (auto simp: task_authentic_def)
  obtain s0 new where o: "origin C st files s t call dev key req s0 new"
    and b: "backed C new key req (dm_mail (sy_daemon s) t) (Verified x (Inr ()))"
    using ok assms(2) x by (auto simp: task_authentic_def)
  obtain conn where w: "(conn, to_line (cr_json C) (cr_b64 C) req @ [newline]) \<in> set (dm_sent (sy_daemon s))"
    using reachable_line_written [OF assms(1), of t call dev key req] assms(2) x
    by (auto simp: line_written_def)
  obtain sig where a: "answered C new req (Inr sig)"
    and v: "verify_assertion (cr_p256 C) key (to_line (cr_json C) (cr_b64 C) req) sig = Inr ()"
    using b by (auto simp: backed_def)
  from a obtain line resp where "line \<in> set new" "parse_response (cr_json C) (cr_b64 C) line = Inr resp"
    "resp_id resp = vr_id req" and "verdict_of resp = Inr sig"
    by (auto simp: answered_def)
  moreover from \<open>verdict_of resp = Inr sig\<close> have "resp_denied resp = None \<and> resp_signature resp = sig"
    by (simp add: verdict_of_def split: option.splits)
  ultimately show ?thesis
    using x o v w by blast
qed

theorem approval_is_authentic_witness:
  "\<exists>s0 new line resp conn. origin toy_crates toy_store toy_files toy_approved 0
       (PamVerify ''ana'' ''sudo'' ''ls'') toy_device ''KEY'' toy_request s0 new
     \<and> (conn, toy_line @ [newline]) \<in> set (dm_sent (sy_daemon toy_approved))
     \<and> line \<in> set new \<and> parse_response toy_json toy_base64 line = Inr resp
     \<and> resp_denied resp = None
     \<and> verify_assertion toy_p256 ''KEY'' toy_line (resp_signature resp) = Inr ()"
proof -
  have "sy_tasks toy_approved 0 = Some (PamVerify ''ana'' ''sudo'' ''ls'',
      Verified (Some (toy_device, ''KEY'', toy_request)) (Inr ()))"
    by (simp add: toy_approved_def toy_call_def)
  from approval_is_authentic [OF toy_approved_reachable this] show ?thesis
    by (auto simp: toy_line_def)
qed

text \<open>
  C7. In every reachable state a registered waiter belongs to a task that registered under
  that id, is still waiting, and has seen nothing yet; this holds of both tables, so a reply
  is never handed to a task that asked under another id or has already been answered.
\<close>

theorem waiters_belong_to_waiting_tasks:
  assumes "reachable C st files s"
  shows "(dm_pending (sy_daemon s) i = Some t \<longrightarrow> dm_mail (sy_daemon s) t = Empty
      \<and> (\<exists>call dev key req stage. sy_tasks s t = Some (call, Verifying dev key req stage)
           \<and> vr_id req = i \<and> stage \<noteq> Allocated))
    \<and> (dm_pending_json (sy_daemon s) i = Some t \<longrightarrow> dm_json_mail (sy_daemon s) t = Empty
      \<and> (\<exists>call line stage. sy_tasks s t = Some (call, Asking i line stage) \<and> stage \<noteq> Allocated))"
proof -
  note ok = reachable_tables_ok [OF assms]
  have v: "\<exists>call dev key req stage. sy_tasks s t = Some (call, Verifying dev key req stage)
      \<and> vr_id req = i \<and> stage \<noteq> Allocated" if "waits (verify_phase s t) i"
    using that by (auto simp: waits_def verify_phase_def split: option.splits prod.splits status.splits)
  have a: "\<exists>call line stage. sy_tasks s t = Some (call, Asking i line stage) \<and> stage \<noteq> Allocated"
    if "waits (ask_phase s t) i"
    using that by (auto simp: waits_def ask_phase_def split: option.splits prod.splits status.splits)
  show ?thesis
    using v a table_okD(1,2) [OF conjunct1 [OF ok], of i t] table_okD(1,2) [OF conjunct2 [OF ok], of i t]
    by blast
qed

theorem waiters_belong_to_waiting_tasks_witness:
  "dm_pending (sy_daemon toy_sent) 1 = Some 0 \<and> dm_mail (sy_daemon toy_sent) 0 = Empty"
proof -
  have "dm_pending (sy_daemon toy_sent) 1 = Some 0" by (simp add: toy_sent_def)
  then show ?thesis
    using waiters_belong_to_waiting_tasks [OF toy_sent_reachable, of 1 0] by blast
qed

text \<open>
  C8. Each step of the daemon is, seen from either waiter table, one move of the abstract
  waiter protocol: a task registers after it took its id, is served at most once, and leaves
  the table when its request cannot be sent, when it is served, or when it stops waiting.
\<close>

theorem step_follows_waiter_protocol:
  assumes "step C s s'"
  shows "table_step (verify_view s) (verify_view s') \<and> table_step (ask_view s) (ask_view s')"
  by (rule step_views [OF assms])

theorem step_follows_waiter_protocol_witness:
  "table_step (verify_view toy_started) (verify_view toy_registered)
     \<and> verify_view toy_registered \<noteq> verify_view toy_started"
proof -
  have t: "sy_tasks toy_started 0 = Some (toy_call, Verifying toy_device ''KEY'' toy_request Allocated)"
    by (simp add: toy_started_def toy_task_def)
  have "step toy_crates toy_started toy_registered"
    using step.register_verify [OF t, of toy_crates]
    by (simp add: toy_registered_def toy_task_def) (simp add: toy_request_def toy_started_def)
  moreover have "dm_pending (sy_daemon toy_registered) 1 = Some 0"
    and "dm_pending (sy_daemon toy_started) 1 = None"
    by (simp_all add: toy_registered_def toy_started_def toy_daemon_def daemon_new_def)
  ultimately show ?thesis
    using step_follows_waiter_protocol [of toy_crates toy_started toy_registered]
    by (auto simp: verify_view_def)
qed

subsubsection \<open>Routing\<close>

text \<open>A reply that parses as an assertion carries the id \<open>deliver\<close> looks up in both tables.\<close>

lemma parse_response_json_id:
  "parse_response (cr_json C) (cr_b64 C) line = Inr resp \<Longrightarrow>
     \<exists>v. json_id (cr_json C) line = Some (v, resp_id resp)"
  by (auto dest!: parse_response_InrD simp: json_id_def)

lemma deliver_verdict:
  assumes "parse_response (cr_json C) (cr_b64 C) line = Inr resp"
    and "dm_pending_json d (resp_id resp) = None" and "dm_pending d (resp_id resp) = Some t"
  shows "deliver C line d = send_mail t (verdict_of resp)
    (d\<lparr>dm_pending := (dm_pending d)(resp_id resp := None)\<rparr>)"
proof -
  obtain v where "json_id (cr_json C) line = Some (v, resp_id resp)"
    using parse_response_json_id [OF assms(1)] by blast
  then show ?thesis
    using deliver_simps(2) [OF _ assms(2)] deliver_assertion_simps(3) [OF assms(1,3)] by metis
qed


lemma deliver_no_id:
  assumes "json_id (cr_json C) line = None"
  shows "deliver C line d = d"
proof -
  have "parse_response (cr_json C) (cr_b64 C) line = Inl e" if "\<And>resp.
      parse_response (cr_json C) (cr_b64 C) line \<noteq> Inr resp" "parse_response (cr_json C) (cr_b64 C) line = x"
      "x = Inl e" for x e using that by simp
  moreover have "parse_response (cr_json C) (cr_b64 C) line \<noteq> Inr resp" for resp
    using parse_response_json_id [of C line resp] assms by auto
  ultimately obtain e where "parse_response (cr_json C) (cr_b64 C) line = Inl e"
    by (metis sum.exhaust)
  then show ?thesis
    using deliver_simps(1) [OF assms] deliver_assertion_simps(1) by metis
qed

lemma tables_disjoint:
  assumes "reachable C st files s" and "sy_ids s < 2 ^ 64"
    and "dm_pending (sy_daemon s) i = Some t"
  shows "dm_pending_json (sy_daemon s) i = None"
proof (rule ccontr)
  assume "dm_pending_json (sy_daemon s) i \<noteq> None"
  then obtain t' where "dm_pending_json (sy_daemon s) i = Some t'" by blast
  then have "waits (verify_phase s t) i" "waits (ask_phase s t') i"
    using reachable_tables_ok [OF assms(1)] assms(3) table_okD(1) by blast+
  then show False
    using ids_ok_distinct(3) [OF reachable_ids_ok [OF assms(1,2)]] unfolding waits_def by blast
qed

text \<open>
  C3. A reply reaches the task it answers: while fewer than \<open>2 ^ 64\<close> ids were taken, if a
  task waits for the reply to its request and has seen nothing, then handling a line that is
  a reply to that request (and not a pairing request) puts exactly its verdict in the task's
  mailbox and changes no other mailbox. Which connection the line came on does not matter,
  so a reply survives a reconnection of the phone.
\<close>

theorem reply_reaches_its_task:
  assumes "reachable C st files s" and "sy_ids s < 2 ^ 64"
    and "sy_tasks s t = Some (call, Verifying dev key req Sent)"
    and "dm_mail (sy_daemon s) t = Empty"
    and "parse_response (cr_json C) (cr_b64 C) line = Inr resp" and "resp_id resp = vr_id req"
    and "message_kind (cr_json C) line \<noteq> Some ''pair.request''"
  shows "dm_mail (on_phone_message C env w line (sy_daemon s)) =
    (dm_mail (sy_daemon s))(t := Delivered (verdict_of resp))"
proof -
  have "waits (verify_phase s t) (vr_id req)"
    by (simp add: phase_of_task(3) [OF assms(3)])
  then have table: "dm_pending (sy_daemon s) (resp_id resp) = Some t"
    using reachable_tables_full [OF assms(1,2)] assms(4,6) by (simp add: table_full_def)
  then have "dm_pending_json (sy_daemon s) (resp_id resp) = None"
    by (rule tables_disjoint [OF assms(1,2)])
  then show ?thesis
    using deliver_verdict [OF assms(5) _ table] assms(7) by (simp add: on_phone_message_def)
qed

theorem reply_reaches_its_task_witness:
  "\<forall>env w. dm_mail (on_phone_message toy_crates env w toy_reply (sy_daemon toy_sent)) 0 =
     Delivered (Inr toy_signature)"
proof -
  have "sy_tasks toy_sent 0 = Some (toy_call, Verifying toy_device ''KEY'' toy_request Sent)"
    and "sy_ids toy_sent < 2 ^ 64" and "dm_mail (sy_daemon toy_sent) 0 = Empty"
    by (simp_all add: toy_sent_def toy_task_def daemon_new_def)
  from reply_reaches_its_task [OF toy_sent_reachable this(2,1,3)] show ?thesis
    by (simp add: toy_parse toy_kind toy_request_def verdict_of_def)
qed



text \<open>
  C15. No waiter is left behind: once every task has its result, both
  waiter tables are empty, whatever errors, timeouts and lost connections there were.
\<close>

theorem no_waiter_left_behind:
  assumes "reachable C st files s"
    and "\<And>t call status. sy_tasks s t = Some (call, status) \<Longrightarrow>
      (\<exists>x r. status = Verified x r) \<or> (\<exists>q. status = Answered q)"
  shows "dm_pending (sy_daemon s) = Map.empty \<and> dm_pending_json (sy_daemon s) = Map.empty"
proof -
  have "\<not> waits (verify_phase s t) i \<and> \<not> waits (ask_phase s t) i" for t i
    using assms(2) [of t]
    by (auto simp: verify_phase_def ask_phase_def split: option.splits status.splits)
  then show ?thesis
    using reachable_tables_ok [OF assms(1)] table_okD(1) by (metis not_Some_eq)
qed

theorem no_waiter_left_behind_witness:
  "dm_pending (sy_daemon toy_approved) = Map.empty"
  using no_waiter_left_behind [OF toy_approved_reachable] by (simp add: toy_approved_def toy_heard_def toy_sent_def)

text \<open>
  C17. Ids are not shared: while fewer than \<open>2 ^ 64\<close> were taken, no two tasks have the same id,
  neither WebAuthn requests that are under way nor verifications, under way or decided.
\<close>

theorem ids_are_not_shared:
  assumes "reachable C st files s" and "sy_ids s < 2 ^ 64"
    and "task_id s t = Some i" and "task_id s t' = Some i"
  shows "t = t'"
  using reachable_ids_ok [OF assms(1,2)] assms(3,4) unfolding ids_ok_def by blast

theorem ids_are_not_shared_witness:
  "task_id toy_sent 0 = Some 1 \<and> (\<forall>t. task_id toy_sent t = Some 1 \<longleftrightarrow> t = 0)"
proof -
  have t0: "task_id toy_sent 0 = Some 1"
    by (simp add: task_id_def toy_sent_def toy_task_def toy_request_def)
  have "sy_ids toy_sent < 2 ^ 64" by (simp add: toy_sent_def)
  from ids_are_not_shared [OF toy_sent_reachable this _ t0] t0 show ?thesis by blast
qed

end
