(* ===== verification/Progress.thy ===== *)
theory Progress
  imports Safety
begin

text \<open>
  How a verification moves on and ends, and what can keep it from ending: the lock of
  \<open>outbound\<close> is held while \<open>send_line\<close> writes, nothing bounds that write, and the accept loop
  of \<open>serve\<close> waits for the same lock when a phone connects.
\<close>

subsection \<open>The moves of a verification\<close>

lemma verifying_move_cases:
  assumes "step C s s'" and "sy_tasks s t = Some (call, Verifying dev key req stage)"
    and "sy_tasks s' t \<noteq> sy_tasks s t"
  obtains (register) "stage = Allocated"
      "s' = set_task t call (Verifying dev key req Registered) (insert_waiter (vr_id req) t (sy_daemon s)) s"
  | (lock) "stage = Registered" "sy_writer s = None"
      "s' = set_task t call (Verifying dev key req Sending) (sy_daemon s) (s\<lparr>sy_writer := Some t\<rparr>)"
  | (send) written r d where "stage = Sending" "send_verification C written req (sy_daemon s) = (r, d)"
      "s' = set_task t call (verify_sent dev key req r) d (s\<lparr>sy_writer := None\<rparr>)"
  | (finish) limit w r d where "stage = Sent" "may_see (dm_mail (sy_daemon s) t) w"
      "finish_verification C limit key req w (sy_daemon s) = (r, d)"
      "s' = set_task t call (Verified (Some (dev, key, req)) r) d s"
  using assms(1)
proof cases
  case register_verify
  then show thesis using assms(2,3) register by (auto split: if_splits)
next
  case lock_verify
  then show thesis using assms(2,3) lock by (auto split: if_splits)
next
  case send_verify
  then show thesis using assms(2,3) send by (auto split: if_splits)
next
  case finish_verify
  then show thesis using assms(2,3) finish by (auto split: if_splits)
qed (use assms(2,3) in \<open>auto simp: accept_phone_def accept_pam_def finish_adopting_def split: if_splits\<close>)

text \<open>A task that is over is in no entry of its table.\<close>

lemma over_not_registered:
  assumes "reachable C st files s" and "sy_tasks s t = Some (call, Verified x r)"
  shows "dm_pending (sy_daemon s) i \<noteq> Some t"
  using reachable_tables_ok [OF assms(1)] table_okD(1) [of "verify_phase s" "dm_pending (sy_daemon s)"]
    assms(2) by (fastforce simp: verify_phase_def)

lemma timeout_move:
  assumes "sy_tasks s t = Some (call, Verifying dev key req Sent)"
  shows "\<exists>s'. step C s s' \<and> sy_tasks s' t =
    Some (call, Verified (Some (dev, key, req)) (bail (timeout_text limit)))"
proof -
  obtain d where "finish_verification C limit key req TimedOut (sy_daemon s) = (bail (timeout_text limit), d)"
    by (simp add: finish_verification_def)
  then show ?thesis
    using step.finish_verify [OF assms, of TimedOut C limit] by (fastforce simp: may_see_def)
qed

text \<open>What became of a verification whose write has returned.\<close>

definition written_or_refused ::
  "('v, 'pk, 'vk, 'sig) crates \<Rightarrow> Device \<Rightarrow> 'vk \<Rightarrow> VerifyRequest \<Rightarrow> 'v daemon \<Rightarrow> 'v daemon
   \<Rightarrow> ('v, 'vk) status \<Rightarrow> bool" where
  "written_or_refused C dev key req d d' status \<longleftrightarrow>
     (status = Verifying dev key req Sent
        \<and> (\<exists>conn. dm_outbound d = Some conn
             \<and> dm_sent d' = dm_sent d @ [(conn, to_line (cr_json C) (cr_b64 C) req @ [newline])]))
     \<or> (status = Verified (Some (dev, key, req)) (bail ''no phone connected'')
        \<and> dm_sent d' = dm_sent d \<and> dm_pending d' (vr_id req) = None)"

lemma send_verification_returns:
  assumes "send_verification C written req d = (r, d')"
  shows "written_or_refused C dev key req d d' (verify_sent dev key req r)"
proof (cases r)
  case (Inl e)
  then show ?thesis
    using assms
    by (cases "dm_outbound d"; cases written)
      (auto simp: send_verification_def send_line_def written_or_refused_def verify_sent_def waiter_defs)
next
  case (Inr u)
  then show ?thesis
    using send_verification_line [of C written req d d'] assms
    by (auto simp: written_or_refused_def verify_sent_def)
qed

text \<open>
  C12. How a verification proceeds, whatever the others do: it takes its id, registers its
  waiter, waits for the writer to be free, writes exactly the line of its request to the phone
  that is connected then, or is refused with its waiter withdrawn, and waits for the reply.
  Each of its moves is one of these, in this order, so there are at most four. Once its line is
  written it can always be ended by the timeout, as a refusal that names the limit, and however
  it ends no waiter of it is left and it is approved only on a delivered signature that
  verifies. Nothing bounds the wait for the writer or the write.
\<close>

theorem verification_is_decided:
  assumes "reachable C st files s"
    and "sy_tasks s t = Some (call, Verifying dev key req stage)"
  shows "(\<forall>s'. step C s s' \<and> sy_tasks s' t \<noteq> sy_tasks s t \<longrightarrow>
      (case stage of
         Allocated \<Rightarrow> sy_tasks s' t = Some (call, Verifying dev key req Registered)
           \<and> dm_pending (sy_daemon s') (vr_id req) = Some t
       | Registered \<Rightarrow> sy_tasks s' t = Some (call, Verifying dev key req Sending)
           \<and> sy_writer s = None \<and> sy_writer s' = Some t
       | Sending \<Rightarrow> \<exists>status. sy_tasks s' t = Some (call, status) \<and> sy_writer s' = None
           \<and> written_or_refused C dev key req (sy_daemon s) (sy_daemon s') status
       | Sent \<Rightarrow> \<exists>r. sy_tasks s' t = Some (call, Verified (Some (dev, key, req)) r)
           \<and> (\<forall>i. dm_pending (sy_daemon s') i \<noteq> Some t)
           \<and> (r = Inr () \<longrightarrow> (\<exists>sig. dm_mail (sy_daemon s) t = Delivered (Inr sig)
                \<and> verify_assertion (cr_p256 C) key (to_line (cr_json C) (cr_b64 C) req) sig = Inr ()))))
    \<and> (stage = Sent \<longrightarrow> (\<exists>s'. step C s s' \<and> sy_tasks s' t =
         Some (call, Verified (Some (dev, key, req)) (bail (timeout_text limit)))))"
proof (intro conjI allI impI, elim conjE)
  fix s' assume st: "step C s s'" and moved: "sy_tasks s' t \<noteq> sy_tasks s t"
  have r': "reachable C st files s'" by (rule reachable.step [OF assms(1) st])
  from st assms(2) moved show "case stage of
      Allocated \<Rightarrow> sy_tasks s' t = Some (call, Verifying dev key req Registered)
        \<and> dm_pending (sy_daemon s') (vr_id req) = Some t
    | Registered \<Rightarrow> sy_tasks s' t = Some (call, Verifying dev key req Sending)
        \<and> sy_writer s = None \<and> sy_writer s' = Some t
    | Sending \<Rightarrow> \<exists>status. sy_tasks s' t = Some (call, status) \<and> sy_writer s' = None
        \<and> written_or_refused C dev key req (sy_daemon s) (sy_daemon s') status
    | Sent \<Rightarrow> \<exists>r. sy_tasks s' t = Some (call, Verified (Some (dev, key, req)) r)
        \<and> (\<forall>i. dm_pending (sy_daemon s') i \<noteq> Some t)
        \<and> (r = Inr () \<longrightarrow> (\<exists>sig. dm_mail (sy_daemon s) t = Delivered (Inr sig)
             \<and> verify_assertion (cr_p256 C) key (to_line (cr_json C) (cr_b64 C) req) sig = Inr ()))"
  proof (cases rule: verifying_move_cases)
    case (send written r d)
    then show ?thesis
      using send_verification_returns [OF send(2), of dev key] by simp
  next
    case (finish limit' w r d)
    have "\<forall>i. dm_pending (sy_daemon s') i \<noteq> Some t"
      using over_not_registered [OF r', of t] finish(4) by simp
    moreover have "\<exists>sig. dm_mail (sy_daemon s) t = Delivered (Inr sig)
        \<and> verify_assertion (cr_p256 C) key (to_line (cr_json C) (cr_b64 C) req) sig = Inr ()" if "r = Inr ()"
      using finish(3) that
    proof (cases rule: finish_verification_cases)
      case (received m)
      then show ?thesis using finish(2) that by (auto simp: may_see_def)
    qed auto
    ultimately show ?thesis using finish(1,4) by auto
  qed simp_all
next
  assume "stage = Sent"
  then show "\<exists>s'. step C s s' \<and> sy_tasks s' t =
      Some (call, Verified (Some (dev, key, req)) (bail (timeout_text limit)))"
    using timeout_move [of s t call dev key req C limit] assms(2) by simp
qed

theorem verification_is_decided_witness:
  "(\<exists>s'. step toy_crates toy_sent s' \<and> sy_tasks s' 0 =
      Some (toy_call, Verified (Some (toy_device, ''KEY'', toy_request)) (bail (timeout_text ''45s''))))
   \<and> (\<nexists>s' x. step toy_crates toy_sent s' \<and> sy_tasks s' 0 = Some (toy_call, Verified x (Inr ())))"
proof -
  have t: "sy_tasks toy_sent 0 = Some (toy_call, Verifying toy_device ''KEY'' toy_request Sent)"
    and m: "dm_mail (sy_daemon toy_sent) 0 = Empty"
    by (simp_all add: toy_sent_def toy_task_def daemon_new_def)
  show ?thesis
    using verification_is_decided [OF toy_sent_reachable t, of "''45s''"] t m by fastforce
qed

subsection \<open>A write that does not return\<close>

text \<open>The lock of \<open>outbound\<close> and the tasks agree on who is writing.\<close>

definition sending :: "('v, 'vk) status \<Rightarrow> bool" where
  "sending status \<longleftrightarrow> (case status of
     Verifying dev key req stage \<Rightarrow> stage = Sending
   | Asking i line stage \<Rightarrow> stage = Sending
   | _ \<Rightarrow> False)"

definition writer_ok :: "('v, 'vk) system \<Rightarrow> bool" where
  "writer_ok s \<longleftrightarrow> (\<forall>t. sy_writer s = Some t \<longleftrightarrow>
     (\<exists>call status. sy_tasks s t = Some (call, status) \<and> sending status))"

lemma sending_simps [simp]:
  "sending (Verifying dev key req stage) \<longleftrightarrow> stage = Sending"
  "sending (Asking i line stage) \<longleftrightarrow> stage = Sending"
  "\<not> sending (Verified x r)" "\<not> sending (Answered q)"
  by (simp_all add: sending_def)

lemma sending_after [simp]:
  "\<not> sending (verify_started r)" "\<not> sending (verify_sent dev key req r')" "\<not> sending (ask_sent i line r')"
  by (simp_all add: verify_started_def verify_sent_def ask_sent_def split: sum.splits prod.splits)

lemma writer_ok_idle:
  assumes "writer_ok s" and "\<And>call st. sy_tasks s t = Some (call, st) \<Longrightarrow> \<not> sending st"
    and "\<not> sending status" and "sy_writer s1 = sy_writer s" and "sy_tasks s1 = sy_tasks s"
  shows "writer_ok (set_task t call status d s1)"
  using assms by (auto simp: writer_ok_def)

lemma writer_ok_take:
  assumes "writer_ok s" and "sy_writer s = None" and "sending status"
  shows "writer_ok (set_task t call status d (s\<lparr>sy_writer := Some t\<rparr>))"
  using assms by (auto simp: writer_ok_def)

lemma writer_ok_release:
  assumes "writer_ok s" and "sy_tasks s t = Some (call, st)" and "sending st" and "\<not> sending status"
  shows "writer_ok (set_task t call status d (s\<lparr>sy_writer := None\<rparr>))"
proof -
  have "sy_writer s = Some t" using assms(1-3) by (auto simp: writer_ok_def)
  then have "u = t" if "sy_tasks s u = Some (c, x)" "sending x" for u c x
    using assms(1) that by (auto simp: writer_ok_def)
  then show ?thesis using assms(4) by (auto simp: writer_ok_def)
qed

lemma step_writer_ok: "step C s s' \<Longrightarrow> writer_ok s \<Longrightarrow> writer_ok s'"
proof (induction rule: step.induct)
  case (send_verify s t call dev key req written r d)
  then show ?case by (intro writer_ok_release) auto
next
  case (send_ask s t call i line written r d)
  then show ?case by (intro writer_ok_release) auto
next
  case (lock_verify s t call dev key req)
  then show ?case by (intro writer_ok_take) auto
next
  case (lock_ask s t call i line)
  then show ?case by (intro writer_ok_take) auto
qed (auto simp: accept_phone_def accept_pam_def finish_adopting_def
    intro: writer_ok_idle, auto simp: writer_ok_def)

lemma reachable_writer_ok: "reachable C st files s \<Longrightarrow> writer_ok s"
proof (induction rule: reachable.induct)
  case init
  then show ?case by (simp add: writer_ok_def system_init_def)
next
  case (step s s')
  then show ?case by (blast intro: step_writer_ok)
qed

text \<open>One step while the write of task \<open>t\<close> has not returned.\<close>

definition waits_for_writer :: "('v, 'vk) status \<Rightarrow> bool" where
  "waits_for_writer status \<longleftrightarrow> (case status of
     Verifying dev key req stage \<Rightarrow> stage = Registered
   | Asking i line stage \<Rightarrow> stage = Registered
   | _ \<Rightarrow> False)"

lemma waits_for_writer_simps [simp]:
  "waits_for_writer (Verifying dev key req stage) \<longleftrightarrow> stage = Registered"
  "waits_for_writer (Asking i line stage) \<longleftrightarrow> stage = Registered"
  "\<not> waits_for_writer (Verified x r)" "\<not> waits_for_writer (Answered q)"
  by (simp_all add: waits_for_writer_def)

definition stuck_alike :: "nat \<Rightarrow> ('v, 'vk) system \<Rightarrow> ('v, 'vk) system \<Rightarrow> bool" where
  "stuck_alike t s s' \<longleftrightarrow> sy_adopting s' = sy_adopting s \<and> sy_accepted s' = sy_accepted s
     \<and> dm_outbound (sy_daemon s') = dm_outbound (sy_daemon s) \<and> sy_tasks s' t = sy_tasks s t
     \<and> (\<forall>u call status. sy_tasks s u = Some (call, status) \<and> waits_for_writer status
          \<longrightarrow> sy_tasks s' u = sy_tasks s u)
     \<and> (\<forall>u. u \<notin> sy_accepted s \<and> sy_tasks s u = None \<longrightarrow> sy_tasks s' u = None)"

lemma stuck_alike_trans: "stuck_alike t s s' \<Longrightarrow> stuck_alike t s' s'' \<Longrightarrow> stuck_alike t s s''"
  unfolding stuck_alike_def by metis

lemma stuck_alike_set_task:
  assumes "u \<noteq> t" and "\<And>c x. sy_tasks s u = Some (c, x) \<Longrightarrow> \<not> waits_for_writer x"
    and "sy_tasks s u = None \<Longrightarrow> u \<in> sy_accepted s"
    and "sy_tasks s1 = sy_tasks s" and "sy_adopting s1 = sy_adopting s"
    and "sy_accepted s1 = sy_accepted s" and "only_writes (sy_daemon s) d"
  shows "stuck_alike t s (set_task u call status d s1)"
  using assms by (cases "sy_tasks s u") (auto simp: stuck_alike_def only_writes_def)

lemma stuck_step:
  assumes "step C s s'" and "writer_ok s" and "sy_writer s = Some t" and "sy_adopting s = Some conn"
    and "sy_writer s' = Some t"
  shows "stuck_alike t s s'"
proof -
  have t: "\<exists>call status. sy_tasks s t = Some (call, status) \<and> sending status"
    using assms(2,3) by (auto simp: writer_ok_def)
  have w: "only_writes (sy_daemon s) (sy_daemon s')"
    using step_writes [OF assms(1)] assms(3) by auto
  from assms(1) show ?thesis
  proof cases
    case hear
    then show ?thesis using w by (auto simp: stuck_alike_def only_writes_def)
  next
    case start_verify
    then show ?thesis using w t by (auto intro!: stuck_alike_set_task)
  next
    case register_verify
    then show ?thesis using w t by (auto intro!: stuck_alike_set_task)
  next
    case finish_verify
    then show ?thesis using w t by (auto intro!: stuck_alike_set_task)
  next
    case refuse_ask
    then show ?thesis using w t by (auto intro!: stuck_alike_set_task)
  next
    case start_ask
    then show ?thesis using w t by (auto intro!: stuck_alike_set_task)
  next
    case register_ask
    then show ?thesis using w t by (auto intro!: stuck_alike_set_task)
  next
    case finish_ask
    then show ?thesis using w t by (auto intro!: stuck_alike_set_task)
  qed (use assms(3-5) in \<open>auto simp: stuck_alike_def\<close>)
qed

text \<open>
  C23. A write to a phone that does not return stops the daemon: from a state in which a task
  holds the writer and another phone connection is being adopted, as long as that one write is
  pending, whatever else happens, the accept loop stays in \<open>adopt_phone\<close>, no client of the
  socket and no phone is accepted any more, the connection written to is not replaced, and
  every request that waits for the writer goes on waiting; no timeout ends any of it.
\<close>

theorem stalled_write_stops_daemon:
  assumes "reachable C st files s" and "sy_writer s = Some t" and "sy_adopting s = Some conn"
    and "(\<lambda>a b. step C a b \<and> sy_writer b = Some t)\<^sup>*\<^sup>* s s'"
  shows "sy_adopting s' = Some conn \<and> sy_accepted s' = sy_accepted s
    \<and> dm_outbound (sy_daemon s') = dm_outbound (sy_daemon s) \<and> sy_tasks s' t = sy_tasks s t
    \<and> (\<forall>u call status. sy_tasks s u = Some (call, status) \<and> waits_for_writer status
         \<longrightarrow> sy_tasks s' u = Some (call, status))
    \<and> (\<forall>u. u \<notin> sy_accepted s \<and> sy_tasks s u = None \<longrightarrow> sy_tasks s' u = None)"
proof -
  have "stuck_alike t s s' \<and> reachable C st files s' \<and> sy_writer s' = Some t"
    using assms(4)
  proof (induction rule: rtranclp_induct)
    case base
    then show ?case using assms(1,2) by (simp add: stuck_alike_def)
  next
    case (step a b)
    then have "sy_adopting a = Some conn" using assms(3) by (simp add: stuck_alike_def)
    then have "stuck_alike t a b"
      using step stuck_step reachable_writer_ok by blast
    then show ?case
      using step stuck_alike_trans reachable.step by blast
  qed
  then show ?thesis using assms(3) by (auto simp: stuck_alike_def)
qed

theorem stalled_write_stops_daemon_witness:
  "reachable toy_crates toy_store toy_files toy_stalled \<and> sy_writer toy_stalled = Some 0
   \<and> {s'. (\<lambda>a b. step toy_crates a b \<and> sy_writer b = Some 0)\<^sup>*\<^sup>* toy_stalled s'}
     \<subseteq> {s'. sy_adopting s' = Some 6 \<and> sy_accepted s' = {0}
        \<and> sy_tasks s' 0 = Some (toy_call, Verifying toy_device ''KEY'' toy_request Sending)}"
proof -
  have w: "sy_writer toy_stalled = Some 0" and a: "sy_adopting toy_stalled = Some 6"
    by (simp_all add: toy_stalled_def accept_phone_def)
  have acc: "sy_accepted toy_stalled = {0}"
    by (simp add: toy_stalled_def accept_phone_def toy_sending_def toy_connected_def finish_adopting_def
        toy_registered_def toy_started_def toy_accepted_def accept_pam_def system_init_def)
  have task: "sy_tasks toy_stalled 0 = Some (toy_call, Verifying toy_device ''KEY'' toy_request Sending)"
    by (simp add: toy_stalled_def accept_phone_def toy_sending_def toy_task_def)
  have "sy_adopting s' = Some 6 \<and> sy_accepted s' = {0}
      \<and> sy_tasks s' 0 = Some (toy_call, Verifying toy_device ''KEY'' toy_request Sending)"
    if "(\<lambda>a b. step toy_crates a b \<and> sy_writer b = Some 0)\<^sup>*\<^sup>* toy_stalled s'" for s'
    using stalled_write_stops_daemon [OF toy_stalled_reachable w a that] acc task by metis
  then show ?thesis
    using toy_stalled_reachable w by blast
qed

end
