(* ===== verification/Bytes.thy ===== *)
theory Bytes
  imports Prelude
begin

text \<open>
  Byte-level access: the bounds-checked slice helpers \<open>put\<close> and \<open>take\<close> of
  \<open>daemon/crates/kpk-spike/src/uhid.rs\<close> and the fixed-width integer encodings of the
  standard library they are used with. The contract of a fixed-width encoding is the
  locale \<open>fixed_codec\<close>, interpreted for every encoding the program uses.
\<close>

subsection \<open>Slices: uhid.rs put and take\<close>

text \<open>\<open>put\<close> returns the buffer with \<open>data\<close> copied over \<open>offset..offset + len\<close>.\<close>

definition put_bytes :: "bytes \<Rightarrow> nat \<Rightarrow> bytes \<Rightarrow> bytes result" where
  "put_bytes buffer offset data =
     tryR (ok_or ''uhid buffer offset overflow'' (usize_checked_add offset (length data)))
       (\<lambda>stop. if stop \<le> length buffer
               then Inr (take offset buffer @ data @ drop stop buffer)
               else bail ''uhid buffer too small'')"

definition take_bytes :: "bytes \<Rightarrow> nat \<Rightarrow> nat \<Rightarrow> bytes result" where
  "take_bytes buffer offset len =
     tryR (ok_or ''slice overflow'' (usize_checked_add offset len))
       (\<lambda>stop. if stop \<le> length buffer
               then Inr (take len (drop offset buffer))
               else bail ''slice out of range'')"

text \<open>No buffer of the program comes near \<open>2^63\<close> bytes (Rust caps an allocation there).\<close>

lemma put_bytes_Inr:
  assumes "offset + length data \<le> length buffer" and "length buffer < 2 ^ 64"
  shows "put_bytes buffer offset data =
           Inr (take offset buffer @ data @ drop (offset + length data) buffer)"
  using assms by (simp add: put_bytes_def usize_checked_add_def)

lemma put_bytes_length:
  "put_bytes buffer offset data = Inr out \<Longrightarrow> length out = length buffer"
  by (auto simp: put_bytes_def usize_checked_add_def split: if_splits)

lemma take_bytes_Inr:
  assumes "offset + len \<le> length buffer" and "length buffer < 2 ^ 64"
  shows "take_bytes buffer offset len = Inr (take len (drop offset buffer))"
  using assms by (simp add: take_bytes_def usize_checked_add_def)

lemma take_bytes_InrD:
  "take_bytes buffer offset len = Inr out \<Longrightarrow>
     offset + len \<le> length buffer \<and> out = take len (drop offset buffer)"
  by (auto simp: take_bytes_def usize_checked_add_def split: if_splits)

lemma take_bytes_length:
  "take_bytes buffer offset len = Inr out \<Longrightarrow> length out = len"
  by (auto dest: take_bytes_InrD)

lemma take_bytes_short:
  assumes "length buffer < offset + len" and "length buffer < 2 ^ 64"
  shows "\<exists>e. take_bytes buffer offset len = Inl e"
  using assms by (auto simp: take_bytes_def usize_checked_add_def)

text \<open>Reading back what \<open>put\<close> wrote.\<close>

lemma take_after_put:
  assumes "put_bytes buffer offset data = Inr out" and "length buffer < 2 ^ 64"
  shows "take_bytes out offset (length data) = Inr data"
  using assms
  by (auto simp: put_bytes_def take_bytes_def usize_checked_add_def min_def split: if_splits)

subsection \<open>Integers as bytes\<close>

text \<open>Big-endian digits in base 256, most significant first.\<close>

fun be_digits :: "nat \<Rightarrow> nat \<Rightarrow> bytes" where
  "be_digits 0 k = []"
| "be_digits (Suc n) k = be_digits n (k div 256) @ [of_nat (k mod 256)]"

definition be_value :: "bytes \<Rightarrow> nat" where
  "be_value bs = foldl (\<lambda>acc b. acc * 256 + unat b) 0 bs"

lemma be_value_Nil [simp]: "be_value [] = 0"
  by (simp add: be_value_def)

lemma be_value_snoc [simp]: "be_value (bs @ [b]) = be_value bs * 256 + unat b"
  by (simp add: be_value_def)

lemma length_be_digits [simp, layout_simps]: "length (be_digits n k) = n"
  by (induction n arbitrary: k) auto

lemma unat_of_nat_byte [simp]: "unat (of_nat k :: byte) = k mod 256"
  by (simp add: unat_of_nat)

lemma be_value_be_digits: "be_value (be_digits n k) = k mod 256 ^ n"
proof (induction n arbitrary: k)
  case (Suc n)
  have "k mod 256 ^ Suc n = 256 * (k div 256 mod 256 ^ n) + k mod 256"
    by (simp add: mod_mult2_eq)
  with Suc show ?case by simp
qed simp

lemma be_value_less: "be_value bs < 256 ^ length bs"
proof (induction bs rule: rev_induct)
  case (snoc b bs)
  have "be_value bs * 256 + unat b < (be_value bs + 1) * 256" by simp
  also have "\<dots> \<le> 256 ^ length bs * 256" using snoc by (intro mult_right_mono) auto
  finally show ?case by (simp add: mult.commute)
qed simp

lemma be_digits_be_value: "be_digits (length bs) (be_value bs) = bs"
  by (induction bs rule: rev_induct) simp_all

text \<open>
  \<open>to_be_bytes\<close>, \<open>from_be_bytes\<close> after \<open>try_into\<close> (which refuses a slice of the wrong
  length), and the native-endian forms, for a target of either byte order.
\<close>

definition to_be_bytes :: "'a::len word \<Rightarrow> bytes" where
  "to_be_bytes w = be_digits (LENGTH('a) div 8) (unat w)"

definition from_be_bytes :: "bytes \<Rightarrow> 'a::len word option" where
  "from_be_bytes bs = (if length bs = LENGTH('a) div 8 then Some (of_nat (be_value bs)) else None)"

definition to_ne_bytes :: "bool \<Rightarrow> 'a::len word \<Rightarrow> bytes" where
  "to_ne_bytes big_endian w = (if big_endian then to_be_bytes w else rev (to_be_bytes w))"

definition from_ne_bytes :: "bool \<Rightarrow> bytes \<Rightarrow> 'a::len word option" where
  "from_ne_bytes big_endian bs = from_be_bytes (if big_endian then bs else rev bs)"

lemma length_to_be_bytes [layout_simps]:
  "length (to_be_bytes (w :: 'a::len word)) = LENGTH('a) div 8"
  by (simp add: to_be_bytes_def)

lemma length_to_ne_bytes [layout_simps]:
  "length (to_ne_bytes big (w :: 'a::len word)) = LENGTH('a) div 8"
  by (simp add: to_ne_bytes_def length_to_be_bytes)

subsection \<open>The contract of a fixed-width encoding\<close>

locale fixed_codec =
  fixes enc :: "'a \<Rightarrow> bytes"
    and dec :: "bytes \<Rightarrow> 'a option"
    and width :: nat
  assumes width_enc: "length (enc x) = width"
    and dec_enc: "dec (enc x) = Some x"
    and enc_dec: "dec bs = Some x \<Longrightarrow> enc x = bs"
begin

lemma inj_enc: "enc x = enc y \<longleftrightarrow> x = y"
  by (metis dec_enc option.inject)

lemma dec_length: "dec bs = Some x \<Longrightarrow> length bs = width"
  using enc_dec width_enc by metis

lemma dec_prefix: "dec (take width (enc x @ rest)) = Some x"
  by (simp add: width_enc dec_enc)

lemma split_prefix: "drop width (enc x @ rest) = rest"
  by (simp add: width_enc)

lemma enc_appstopinj: "enc x @ xs = enc y @ ys \<longleftrightarrow> x = y \<and> xs = ys"
  by (simp add: append_eq_append_conv width_enc inj_enc)

lemma read_field:
  assumes "length pre = off" and "length (pre @ enc x @ rest) < 2 ^ 64"
  shows "take_bytes (pre @ enc x @ rest) off width = Inr (enc x)"
  using assms by (simp add: take_bytes_Inr width_enc)

end

lemma be_codec:
  assumes "LENGTH('a::len) = 8 * n"
  shows "fixed_codec (to_be_bytes :: 'a word \<Rightarrow> bytes) from_be_bytes n"
proof
  fix w :: "'a word" and bs :: bytes
  have pow: "(256::nat) ^ n = 2 ^ LENGTH('a)"
    by (simp add: assms power_mult)
  show "length (to_be_bytes w) = n"
    by (simp add: to_be_bytes_def assms)
  have "unat w < 256 ^ n"
    by (simp add: pow)
  then show "from_be_bytes (to_be_bytes w) = Some w"
    by (simp add: from_be_bytes_def to_be_bytes_def assms be_value_be_digits)
  assume "from_be_bytes bs = Some w"
  then have len: "length bs = n" and w: "w = of_nat (be_value bs)"
    by (auto simp: from_be_bytes_def assms split: if_splits)
  have "be_value bs < 2 ^ LENGTH('a)"
    using be_value_less [of bs] by (simp add: len pow)
  then have "unat w = be_value bs"
    by (simp add: w unat_of_nat)
  then show "to_be_bytes w = bs"
    using be_digits_be_value [of bs] by (simp add: to_be_bytes_def assms len)
qed

lemma ne_codec:
  assumes "LENGTH('a::len) = 8 * n"
  shows "fixed_codec (to_ne_bytes big :: 'a word \<Rightarrow> bytes) (from_ne_bytes big) n"
proof
  note be = be_codec [OF assms]
  fix w :: "'a word" and bs :: bytes
  show "length (to_ne_bytes big w) = n"
    by (simp add: length_to_ne_bytes assms)
  show "from_ne_bytes big (to_ne_bytes big w) = Some w"
    by (simp add: from_ne_bytes_def to_ne_bytes_def fixed_codec.dec_enc [OF be])
  assume "from_ne_bytes big bs = Some w"
  then have "to_be_bytes w = (if big then bs else rev bs)"
    unfolding from_ne_bytes_def by (rule fixed_codec.enc_dec [OF be])
  then show "to_ne_bytes big w = bs"
    by (simp add: to_ne_bytes_def split: if_splits)
qed

interpretation be16: fixed_codec "to_be_bytes :: u16 \<Rightarrow> bytes" from_be_bytes 2
  by (rule be_codec) simp

interpretation be32: fixed_codec "to_be_bytes :: u32 \<Rightarrow> bytes" from_be_bytes 4
  by (rule be_codec) simp

interpretation ne16: fixed_codec "to_ne_bytes big :: u16 \<Rightarrow> bytes" "from_ne_bytes big" 2 for big
  by (rule ne_codec) simp

interpretation ne32: fixed_codec "to_ne_bytes big :: u32 \<Rightarrow> bytes" "from_ne_bytes big" 4 for big
  by (rule ne_codec) simp

end
