(* ===== verification/Webauthn.thy ===== *)
theory Webauthn
  imports Bytes Instances
begin

unbundle bit_operations_syntax

text \<open>
  \<open>daemon/crates/kpk-spike/src/webauthn.rs\<close>: the CTAP2 request parsers, the
  authenticator data and attested credential data layouts, and the response encoders.
  \<open>ciborium\<close> and \<open>sha2\<close> are parameters.
\<close>

subsection \<open>Constants and requests\<close>

definition AAGUID :: bytes where
  "AAGUID = [0x6f, 0x1d, 0x2b, 0x1a, 0x9c, 0x4e, 0x4f, 0x57,
             0xa1, 0xd3, 0x7b, 0x8e, 0x2c, 0x05, 0xf9, 0xa4]"

definition FLAG_USER_PRESENT :: byte where "FLAG_USER_PRESENT = 0x01"
definition FLAG_USER_VERIFIED :: byte where "FLAG_USER_VERIFIED = 0x04"
definition FLAG_ATTESTED :: byte where "FLAG_ATTESTED = 0x40"

lemmas flag_defs = FLAG_USER_PRESENT_def FLAG_USER_VERIFIED_def FLAG_ATTESTED_def

record MakeCredential =
  mc_rp_id :: string
  mc_user_name :: string

record GetAssertion =
  ga_client_data_hash :: bytes
  ga_rp_id :: string
  ga_allowed :: "bytes list"

subsection \<open>Reading CBOR values\<close>

definition top_level_map :: "ciborium \<Rightarrow> bytes \<Rightarrow> (cbor \<times> cbor) list result" where
  "top_level_map C payload =
     tryR (with_context ''request body is not valid CBOR'' (cbor_from_reader C payload))
       (\<lambda>value. case value of
           CMap entries \<Rightarrow> Inr entries
         | _ \<Rightarrow> bail ''request body is not a CBOR map'')"

definition cbor_entry :: "(cbor \<times> cbor) list \<Rightarrow> int \<Rightarrow> cbor option" where
  "cbor_entry m key =
     map_option snd
       (find (\<lambda>(candidate, _). case candidate of CInteger number \<Rightarrow> number = key | _ \<Rightarrow> False) m)"

definition cbor_field :: "cbor \<Rightarrow> string \<Rightarrow> cbor option" where
  "cbor_field value name =
     (case value of
        CMap entries \<Rightarrow>
          map_option snd
            (find (\<lambda>(key, _). case key of CText text \<Rightarrow> text = name | _ \<Rightarrow> False) entries)
      | _ \<Rightarrow> None)"

definition text_field :: "cbor \<Rightarrow> string \<Rightarrow> string option" where
  "text_field value name =
     (case cbor_field value name of Some (CText text) \<Rightarrow> Some text | _ \<Rightarrow> None)"

definition cbor_bytes :: "cbor \<Rightarrow> bytes result" where
  "cbor_bytes value =
     (case value of CBytes raw \<Rightarrow> Inr raw | _ \<Rightarrow> bail ''expected a CBOR byte string'')"

subsection \<open>Request parsers\<close>

definition parse_make_credential :: "ciborium \<Rightarrow> bytes \<Rightarrow> MakeCredential result" where
  "parse_make_credential C payload =
     tryR (top_level_map C payload) (\<lambda>m.
     tryR (ok_or ''makeCredential has no rp'' (cbor_entry m 2)) (\<lambda>rp.
     tryR (ok_or ''rp has no id'' (text_field rp ''id'')) (\<lambda>rp_id.
       let user_name =
         (case Option.bind (cbor_entry m 3) (\<lambda>user. text_field user ''name'') of
            Some name \<Rightarrow> name
          | None \<Rightarrow> ''user'')
       in Inr \<lparr>mc_rp_id = rp_id, mc_user_name = user_name\<rparr>)))"

definition parse_allowed :: "cbor option \<Rightarrow> bytes list" where
  "parse_allowed value =
     (case value of
        Some (CArray items) \<Rightarrow>
          filter_map (\<lambda>v. result_ok (cbor_bytes v))
            (filter_map (\<lambda>item. cbor_field item ''id'') items)
      | _ \<Rightarrow> [])"

definition parse_get_assertion :: "ciborium \<Rightarrow> bytes \<Rightarrow> GetAssertion result" where
  "parse_get_assertion C payload =
     tryR (top_level_map C payload) (\<lambda>m.
     tryR (tryR (ok_or ''getAssertion has no rpId'' (cbor_entry m 1))
       (\<lambda>v. case v of CText text \<Rightarrow> Inr text | _ \<Rightarrow> bail ''rpId is not a string'')) (\<lambda>rp_id.
     tryR (tryR (ok_or ''getAssertion has no clientDataHash'' (cbor_entry m 2))
       cbor_bytes) (\<lambda>client_data_hash.
       Inr \<lparr>ga_client_data_hash = client_data_hash, ga_rp_id = rp_id,
             ga_allowed = parse_allowed (cbor_entry m 3)\<rparr>)))"

subsection \<open>Layouts and responses\<close>

definition authenticator_data ::
  "(bytes \<Rightarrow> bytes) \<Rightarrow> string \<Rightarrow> byte \<Rightarrow> u32 \<Rightarrow> bytes option \<Rightarrow> bytes" where
  "authenticator_data sha256 rp_id flags sign_count attested =
     sha256 (as_bytes rp_id) @ [flags] @ to_be_bytes sign_count
     @ (case attested of Some extra \<Rightarrow> extra | None \<Rightarrow> [])"

definition attested_credential_data :: "bytes \<Rightarrow> bytes \<Rightarrow> bytes result" where
  "attested_credential_data credential_id cose_key =
     tryR (with_context ''credential id is too long'' (u16_try_from (length credential_id)))
       (\<lambda>len. Inr (AAGUID @ to_be_bytes len @ credential_id @ cose_key))"

definition cbor_encode :: "ciborium \<Rightarrow> cbor \<Rightarrow> bytes result" where
  "cbor_encode C value = with_context ''encoding a CTAP2 response'' (cbor_into_writer C value)"

definition cose_map :: "bytes \<Rightarrow> bytes \<Rightarrow> cbor" where
  "cose_map x y = CMap
     [(CInteger 1, CInteger 2), (CInteger 3, CInteger (-7)), (CInteger (-1), CInteger 1),
      (CInteger (-2), CBytes x), (CInteger (-3), CBytes y)]"

definition cose_key :: "ciborium \<Rightarrow> bytes \<Rightarrow> bytes \<Rightarrow> bytes result" where
  "cose_key C x y =
     (if length x \<noteq> 32 \<or> length y \<noteq> 32
      then bail ''P-256 coordinates must be 32 bytes each''
      else cbor_encode C (cose_map x y))"

definition make_credential_response :: "ciborium \<Rightarrow> bytes \<Rightarrow> bytes result" where
  "make_credential_response C auth_data =
     cbor_encode C (CMap
       [(CInteger 1, CText ''none''), (CInteger 2, CBytes auth_data), (CInteger 3, CMap [])])"

definition get_assertion_response :: "ciborium \<Rightarrow> bytes \<Rightarrow> bytes \<Rightarrow> bytes \<Rightarrow> bytes result" where
  "get_assertion_response C credential_id auth_data signature =
     (let descriptor = CMap
        [(CText ''type'', CText ''public-key''), (CText ''id'', CBytes credential_id)]
      in cbor_encode C (CMap
        [(CInteger 1, descriptor), (CInteger 2, CBytes auth_data),
         (CInteger 3, CBytes signature)]))"

subsection \<open>Lemmas\<close>

lemma cbor_encode_Inr_iff: "cbor_encode C v = Inr bs \<longleftrightarrow> cbor_into_writer C v = Inr bs"
  by (simp add: cbor_encode_def result_simps)

lemma length_AAGUID [simp]: "length AAGUID = 16"
  by (simp add: AAGUID_def)

lemma top_level_written:
  "ciborium_ok C \<Longrightarrow> cbor_into_writer C (CMap entries) = Inr bs \<Longrightarrow> top_level_map C bs = Inr entries"
  by (simp add: top_level_map_def cbor_read_written)

lemma cbor_entry_simps [simp]:
  "cbor_entry [] k = None"
  "cbor_entry ((CInteger n, v) # m) k = (if n = k then Some v else cbor_entry m k)"
  by (simp_all add: cbor_entry_def)

lemma cbor_field_simps [simp]:
  "cbor_field (CMap []) name = None"
  "cbor_field (CMap ((CText t, v) # m)) name = (if t = name then Some v else cbor_field (CMap m) name)"
  by (simp_all add: cbor_field_def)

text \<open>What a browser sends: the descriptors it accepts, and anything that is not one.\<close>

definition credential_descriptor :: "bytes \<Rightarrow> cbor" where
  "credential_descriptor i = CMap [(CText ''type'', CText ''public-key''), (CText ''id'', CBytes i)]"

definition no_credential :: "cbor \<Rightarrow> bool" where
  "no_credential v \<longleftrightarrow> (\<forall>i. cbor_field v ''id'' \<noteq> Some (CBytes i))"

lemma parse_allowed_simps:
  "parse_allowed (Some (CArray [])) = []"
  "parse_allowed (Some (CArray (credential_descriptor i # items))) = i # parse_allowed (Some (CArray items))"
  "no_credential v \<Longrightarrow> parse_allowed (Some (CArray (v # items))) = parse_allowed (Some (CArray items))"
  by (auto simp: parse_allowed_def credential_descriptor_def no_credential_def cbor_bytes_def
      split: option.splits cbor.splits)

lemma parse_allowed_descriptors:
  "parse_allowed (Some (CArray (map credential_descriptor ids))) = ids"
  by (induction ids) (simp_all add: parse_allowed_simps)

lemma parse_allowed_append:
  "parse_allowed (Some (CArray (xs @ ys))) = parse_allowed (Some (CArray xs)) @ parse_allowed (Some (CArray ys))"
  by (simp add: parse_allowed_def filter_map_append)

subsection \<open>Properties\<close>

text \<open>
  Authenticator data has the layout a relying party reads: the hash of the RP id, the
  flags, the counter in big-endian order, and then the attested credential data and nothing
  else, 37 bytes in all when there is none.
\<close>

lemma authenticator_data_layout:
  assumes "sha256_ok H"
  shows "take 32 (authenticator_data H rp flags count attested) = H (as_bytes rp)
    \<and> authenticator_data H rp flags count attested ! 32 = flags
    \<and> from_be_bytes (take 4 (drop 33 (authenticator_data H rp flags count attested))) = Some count
    \<and> drop 37 (authenticator_data H rp flags count attested) = unwrap_or [] attested"
proof -
  let ?h = "H (as_bytes rp)" and ?x = "unwrap_or [] attested"
  have h: "length ?h = 32" using assms by simp
  have d: "authenticator_data H rp flags count attested = ?h @ flags # to_be_bytes count @ ?x"
    by (simp add: authenticator_data_def unwrap_or_def split: option.splits)
  have "drop 33 (?h @ flags # to_be_bytes count @ ?x) = to_be_bytes count @ ?x"
    using h by simp
  moreover have "drop 37 (?h @ flags # to_be_bytes count @ ?x) = ?x"
    using h be32.width_enc [of count] by simp
  ultimately show ?thesis
    unfolding d using h be32.dec_prefix [of count ?x] by (simp add: nth_append)
qed

lemma authenticator_data_layout_witness:
  "take 32 (authenticator_data toy_sha256 ''a.org'' 0x45 7 (Some [1, 2])) = toy_sha256 (as_bytes ''a.org'')
   \<and> drop 37 (authenticator_data toy_sha256 ''a.org'' 0x45 7 (Some [1, 2])) = [1, 2]"
  using authenticator_data_layout [OF toy_sha256_ok, of "''a.org''" "0x45" 7 "Some [1, 2]"] by simp

text \<open>
  C34. Attested credential data can be read back without knowing where the id ends: after our
  AAGUID a 16-bit length gives exactly the credential id, and the key follows; an id that
  the length cannot describe is refused.
\<close>

theorem attested_credential_data_layout:
  "(case attested_credential_data i cose of
      Inl e \<Rightarrow> 65536 \<le> length i
    | Inr d \<Rightarrow> length i < 65536 \<and> take 16 d = AAGUID
        \<and> (\<exists>n :: u16. from_be_bytes (take 2 (drop 16 d)) = Some n \<and> unat n = length i
             \<and> take (unat n) (drop 18 d) = i \<and> drop (18 + unat n) d = cose))"
proof (cases "length i < 65536")
  case True
  let ?n = "of_nat (length i) :: u16"
  have e: "attested_credential_data i cose = Inr (AAGUID @ to_be_bytes ?n @ i @ cose)"
    using True by (simp add: attested_credential_data_def u16_try_from_def)
  have "drop 18 (AAGUID @ to_be_bytes ?n @ i @ cose) = i @ cose"
    using be16.width_enc [of ?n] by simp
  moreover have "drop (18 + length i) (AAGUID @ to_be_bytes ?n @ i @ cose) = cose"
    using be16.width_enc [of ?n] by simp
  moreover have "from_be_bytes (take 2 (drop 16 (AAGUID @ to_be_bytes ?n @ i @ cose))) = Some ?n"
    using be16.dec_prefix [of ?n "i @ cose"] by simp
  ultimately show ?thesis
    unfolding e using True by (auto simp: unat_of_nat_u16)
next
  case False
  then show ?thesis
    by (simp add: attested_credential_data_def u16_try_from_def)
qed

text \<open>
  Reading a makeCredential request: the RP id and the user name are found wherever they
  stand among the parameters, and a user without a name is called \<open>user\<close>.
\<close>

lemma make_credential_request_read:
  assumes "ciborium_ok C"
    and "cbor_into_writer C (CMap [(CInteger 1, CBytes hash),
      (CInteger 2, CMap [(CText ''name'', CText shown), (CText ''id'', CText rp)]),
      (CInteger 3, CMap user), (CInteger 4, CArray algorithms)]) = Inr payload"
  shows "parse_make_credential C payload = Inr \<lparr>mc_rp_id = rp,
    mc_user_name = (case text_field (CMap user) ''name'' of Some name \<Rightarrow> name | None \<Rightarrow> ''user'')\<rparr>"
  using top_level_written [OF assms]
  by (simp add: parse_make_credential_def text_field_def Let_def)

lemma make_credential_request_read_witness:
  "\<exists>C payload. ciborium_ok C \<and> parse_make_credential C payload =
     Inr \<lparr>mc_rp_id = ''a.org'', mc_user_name = ''ana''\<rparr>"
proof -
  let ?v = "CMap [(CInteger 1, CBytes [0]),
      (CInteger 2, CMap [(CText ''name'', CText ''A''), (CText ''id'', CText ''a.org'')]),
      (CInteger 3, CMap [(CText ''name'', CText ''ana'')]), (CInteger 4, CArray [])]"
  have w: "cbor_into_writer (table_ciborium [?v]) ?v = Inr [0]"
    by (simp add: table_ciborium_def)
  show ?thesis
    using make_credential_request_read [OF table_ciborium_ok w] table_ciborium_ok [of "[?v]"]
    by (intro exI [of _ "table_ciborium [?v]"] exI [of _ "[0]"]) (simp add: text_field_def)
qed

text \<open>
  C33. Reading a getAssertion request: the client data hash and the credentials the site
  accepts come back in the site's order of preference, and an entry of the allow list that
  names no credential is passed over without losing the others.
\<close>

theorem get_assertion_request_read:
  assumes "ciborium_ok C" and "no_credential junk"
    and "cbor_into_writer C (CMap [(CInteger 1, CText rp), (CInteger 2, CBytes hash),
      (CInteger 3, CArray (map credential_descriptor ids @ junk # map credential_descriptor ids'))]) = Inr payload"
  shows "parse_get_assertion C payload =
    Inr \<lparr>ga_client_data_hash = hash, ga_rp_id = rp, ga_allowed = ids @ ids'\<rparr>"
  using top_level_written [OF assms(1,3)] assms(2)
  by (simp add: parse_get_assertion_def cbor_bytes_def parse_allowed_append parse_allowed_simps
      parse_allowed_descriptors)

theorem get_assertion_request_read_witness:
  "\<exists>C payload. ciborium_ok C \<and> parse_get_assertion C payload =
     Inr \<lparr>ga_client_data_hash = [9], ga_rp_id = ''a.org'', ga_allowed = [[1], [2, 3]]\<rparr>"
proof -
  let ?v = "CMap [(CInteger 1, CText ''a.org''), (CInteger 2, CBytes [9]),
      (CInteger 3, CArray (map credential_descriptor [[1]] @ CNull # map credential_descriptor [[2, 3]]))]"
  have j: "no_credential CNull" by (simp add: no_credential_def cbor_field_def)
  have w: "cbor_into_writer (table_ciborium [?v]) ?v = Inr [0]"
    by (simp add: table_ciborium_def)
  show ?thesis
    using get_assertion_request_read [OF table_ciborium_ok j w] table_ciborium_ok [of "[?v]"]
    by (intro exI [of _ "table_ciborium [?v]"] exI [of _ "[0]"]) simp
qed

end
