(* ===== verification/Ctaphid.thy ===== *)
theory Ctaphid
  imports Webauthn
begin

text \<open>
  CTAPHID framing and dispatch of \<open>daemon/crates/kpk-spike/src/uhid.rs\<close>: \<open>frame\<close>
  splits a response into 64-byte reports, \<open>handle_report\<close> reassembles a request from
  reports and \<open>dispatch\<close> answers it. The state is the pair of locals of \<open>run\<close> the
  handler mutates: the message being assembled and the channel counter.
\<close>

subsection \<open>Constants\<close>

definition HID_REPORT_SIZE :: nat where "HID_REPORT_SIZE = 64"

definition CTAPHID_PING :: byte where "CTAPHID_PING = 0x01"
definition CTAPHID_INIT :: byte where "CTAPHID_INIT = 0x06"
definition CTAPHID_CBOR :: byte where "CTAPHID_CBOR = 0x10"
definition CTAPHID_ERROR :: byte where "CTAPHID_ERROR = 0x3f"
definition CTAPHID_KEEPALIVE :: byte where "CTAPHID_KEEPALIVE = 0x3b"
definition KEEPALIVE_UP_NEEDED :: byte where "KEEPALIVE_UP_NEEDED = 0x02"
definition CTAP_BROADCAST_CID :: u32 where "CTAP_BROADCAST_CID = 0xffffffff"
definition CTAP2_MAKE_CREDENTIAL :: byte where "CTAP2_MAKE_CREDENTIAL = 0x01"
definition CTAP2_GET_ASSERTION :: byte where "CTAP2_GET_ASSERTION = 0x02"
definition CTAP2_GET_INFO :: byte where "CTAP2_GET_INFO = 0x04"
definition CTAP1_ERR_INVALID_COMMAND :: byte where "CTAP1_ERR_INVALID_COMMAND = 0x01"
definition CTAP2_ERR_OPERATION_DENIED :: byte where "CTAP2_ERR_OPERATION_DENIED = 0x27"
definition CTAP2_ERR_NO_CREDENTIALS :: byte where "CTAP2_ERR_NO_CREDENTIALS = 0x2e"
definition CTAP2_OK :: byte where "CTAP2_OK = 0x00"

lemmas ctaphid_consts =
  HID_REPORT_SIZE_def CTAPHID_PING_def CTAPHID_INIT_def CTAPHID_CBOR_def CTAPHID_ERROR_def
  CTAPHID_KEEPALIVE_def KEEPALIVE_UP_NEEDED_def CTAP_BROADCAST_CID_def
  CTAP2_MAKE_CREDENTIAL_def CTAP2_GET_ASSERTION_def CTAP2_GET_INFO_def
  CTAP1_ERR_INVALID_COMMAND_def CTAP2_ERR_OPERATION_DENIED_def CTAP2_ERR_NO_CREDENTIALS_def
  CTAP2_OK_def

subsection \<open>State and outcomes\<close>

record Assembly =
  asm_channel :: u32
  asm_command :: byte
  asm_expected :: nat
  asm_payload :: bytes

text \<open>
  \<open>Waiting\<close> carries the work the spawned thread was given, the CTAP2 command and the
  request body, in place of the receiving end of its channel.
\<close>

datatype Outcome =
    Ready "bytes list"
  | Waiting byte bytes

record hid_state =
  assembly :: "Assembly option"
  next_channel :: u32

subsection \<open>frame\<close>

function frame_loop :: "u32 \<Rightarrow> bytes \<Rightarrow> nat \<Rightarrow> byte \<Rightarrow> bytes list \<Rightarrow> bytes list result" where
  "frame_loop channel payload offset sequence packets =
     (if offset < length payload then
        let chunk = min (length payload - offset) (HID_REPORT_SIZE - 5) in
        tryR (put_bytes (replicate HID_REPORT_SIZE 0) 0 (to_be_bytes channel)) (\<lambda>packet.
        tryR (put_bytes packet 4 [sequence]) (\<lambda>packet.
        tryR (take_bytes payload offset chunk) (\<lambda>data.
        tryR (put_bytes packet 5 data) (\<lambda>packet.
          frame_loop channel payload (offset + chunk) (sequence + 1) (packets @ [packet])))))
      else Inr packets)"
  by pat_completeness auto
termination
  by (relation "measure (\<lambda>(channel, payload, offset, sequence, packets). length payload - offset)")
     (auto simp: HID_REPORT_SIZE_def)

declare frame_loop.simps [simp del]

definition frame :: "u32 \<Rightarrow> byte \<Rightarrow> bytes \<Rightarrow> bytes list result" where
  "frame channel command payload =
     tryR (with_context ''response too long for CTAPHID'' (u16_try_from (length payload))) (\<lambda>len.
     let first_chunk = min (length payload) (HID_REPORT_SIZE - 7) in
     tryR (put_bytes (replicate HID_REPORT_SIZE 0) 0 (to_be_bytes channel)) (\<lambda>packet.
     tryR (put_bytes packet 4 [command OR 0x80]) (\<lambda>packet.
     tryR (put_bytes packet 5 (to_be_bytes len)) (\<lambda>packet.
     tryR (take_bytes payload 0 first_chunk) (\<lambda>data.
     tryR (put_bytes packet 7 data) (\<lambda>packet.
       frame_loop channel payload first_chunk 0 [packet]))))))"

subsection \<open>dispatch\<close>

definition get_info_response :: bytes where
  "get_info_response = [CTAP2_OK] @
     ([0xa3, 0x01, 0x81, 0x68] @ as_bytes ''FIDO_2_0'' @ [0x03, 0x50] @ AAGUID @
      [0x04, 0xa3, 0x62] @ as_bytes ''rk'' @ [0xf4, 0x62] @ as_bytes ''up'' @ [0xf5, 0x62]
      @ as_bytes ''uv'' @ [0xf5])"

definition map_ready :: "bytes list result \<Rightarrow> Outcome result" where
  "map_ready r = tryR r (\<lambda>packets. Inr (Ready packets))"

definition dispatch_init :: "u32 \<Rightarrow> bytes \<Rightarrow> u32 \<Rightarrow> Outcome result \<times> u32" where
  "dispatch_init channel payload counter =
     (case take_bytes payload 0 8 of
        Inl e \<Rightarrow> (Inl e, counter)
      | Inr nonce \<Rightarrow>
          let counter' = (if channel = CTAP_BROADCAST_CID then counter + 1 else counter);
              assigned = (if channel = CTAP_BROADCAST_CID then counter' else channel);
              body = nonce @ to_be_bytes assigned @ [2, 1, 0, 0, 0x04]
          in (map_ready (frame channel CTAPHID_INIT body), counter'))"

definition dispatch_cbor :: "u32 \<Rightarrow> bytes \<Rightarrow> Outcome result" where
  "dispatch_cbor channel payload =
     (let ctap_command = unwrap_or 0 (list_get payload 0);
          body = drop 1 payload
      in if ctap_command = CTAP2_GET_INFO
           then map_ready (frame channel CTAPHID_CBOR get_info_response)
         else if ctap_command = CTAP2_MAKE_CREDENTIAL \<or> ctap_command = CTAP2_GET_ASSERTION
           then Inr (Waiting ctap_command body)
         else map_ready (frame channel CTAPHID_CBOR [CTAP1_ERR_INVALID_COMMAND]))"

definition dispatch :: "u32 \<Rightarrow> byte \<Rightarrow> bytes \<Rightarrow> u32 \<Rightarrow> Outcome result \<times> u32" where
  "dispatch channel command payload counter =
     (if command = CTAPHID_INIT then dispatch_init channel payload counter
      else if command = CTAPHID_PING then (map_ready (frame channel CTAPHID_PING payload), counter)
      else if command = CTAPHID_CBOR then (dispatch_cbor channel payload, counter)
      else (map_ready (frame channel CTAPHID_ERROR [CTAP1_ERR_INVALID_COMMAND]), counter))"

subsection \<open>handle\_report\<close>

text \<open>\<open>dispatch(...).map(Some)\<close>, with the counter written back.\<close>

definition dispatch_some ::
  "u32 \<Rightarrow> byte \<Rightarrow> bytes \<Rightarrow> hid_state \<Rightarrow> Outcome option result \<times> hid_state" where
  "dispatch_some channel command payload st =
     (let (r, counter) = dispatch channel command payload (next_channel st)
      in (tryR r (\<lambda>out. Inr (Some out)), st\<lparr>next_channel := counter\<rparr>))"

definition read_channel :: "bytes \<Rightarrow> u32 result" where
  "read_channel report =
     tryR (take_bytes report 0 4)
       (\<lambda>bs. ok_or ''could not convert slice to array'' (from_be_bytes bs))"

definition handle_init_frame ::
  "bytes \<Rightarrow> u32 \<Rightarrow> byte \<Rightarrow> hid_state \<Rightarrow> Outcome option result \<times> hid_state" where
  "handle_init_frame report channel marker st =
     (let command = marker AND 0x7f;
          header = tryR (ok_or ''short report'' (list_get report 5)) (\<lambda>high.
                   tryR (ok_or ''short report'' (list_get report 6)) (\<lambda>low.
                   let expected = unat (push_bit 8 (ucast high :: u16) OR ucast low);
                       available = min expected (HID_REPORT_SIZE - 7)
                   in tryR (take_bytes report 7 available) (\<lambda>payload. Inr (expected, payload))))
      in case header of
           Inl e \<Rightarrow> (Inl e, st)
         | Inr (expected, payload) \<Rightarrow>
             if length payload < expected
             then (Inr None,
                   st\<lparr>assembly := Some \<lparr>asm_channel = channel, asm_command = command,
                                        asm_expected = expected, asm_payload = payload\<rparr>\<rparr>)
             else dispatch_some channel command payload st)"

definition handle_continuation ::
  "bytes \<Rightarrow> u32 \<Rightarrow> hid_state \<Rightarrow> Outcome option result \<times> hid_state" where
  "handle_continuation report channel st =
     (case assembly st of
        None \<Rightarrow> (Inr None, st)
      | Some state \<Rightarrow>
          if asm_channel state \<noteq> channel then (Inr None, st)
          else
            let remaining = asm_expected state - length (asm_payload state);
                available = min remaining (HID_REPORT_SIZE - 5)
            in case take_bytes report 5 available of
                 Inl e \<Rightarrow> (Inl e, st)
               | Inr data \<Rightarrow>
                   let state' = state\<lparr>asm_payload := asm_payload state @ data\<rparr>
                   in if length (asm_payload state') < asm_expected state'
                      then (Inr None, st\<lparr>assembly := Some state'\<rparr>)
                      else dispatch_some (asm_channel state') (asm_command state')
                             (asm_payload state') (st\<lparr>assembly := None\<rparr>))"

definition handle_report :: "bytes \<Rightarrow> hid_state \<Rightarrow> Outcome option result \<times> hid_state" where
  "handle_report report st =
     (case tryR (read_channel report) (\<lambda>channel.
           tryR (ok_or ''short report'' (list_get report 4)) (\<lambda>marker. Inr (channel, marker))) of
        Inl e \<Rightarrow> (Inl e, st)
      | Inr (channel, marker) \<Rightarrow>
          if marker AND 0x80 \<noteq> 0
          then handle_init_frame report channel marker st
          else handle_continuation report channel st)"

text \<open>
  The reports of a sequence of reads, handled one after the other as \<open>run\<close> does: an
  error ends the helper, so the remaining reports are not looked at.
\<close>

fun handle_reports :: "bytes list \<Rightarrow> hid_state \<Rightarrow> Outcome option list result \<times> hid_state" where
  "handle_reports [] st = (Inr [], st)"
| "handle_reports (r # rs) st =
     (case handle_report r st of
        (Inl e, st') \<Rightarrow> (Inl e, st')
      | (Inr out, st') \<Rightarrow>
          (case handle_reports rs st' of
             (Inl e, st'') \<Rightarrow> (Inl e, st'')
           | (Inr outs, st'') \<Rightarrow> (Inr (out # outs), st'')))"

end
