(* ===== verification/Framing.thy ===== *)
theory Framing
  imports Ctaphid
begin

text \<open>
  What the framing code of \<open>uhid.rs\<close> promises: \<open>frame\<close> equals a reference layout,
  every report is 64 bytes, and feeding the reports of a message to \<open>handle_report\<close>
  reassembles the message, up to the 7609 bytes that 128 continuation reports carry.
\<close>

subsection \<open>The reference layout\<close>

definition pad_report :: "bytes \<Rightarrow> bytes" where
  "pad_report bs = bs @ replicate (64 - length bs) 0"

definition init_frame :: "u32 \<Rightarrow> byte \<Rightarrow> bytes \<Rightarrow> bytes" where
  "init_frame ch cmd p =
     pad_report (to_be_bytes ch @ [cmd OR 0x80] @ to_be_bytes (of_nat (length p) :: u16) @ take 57 p)"

function cont_frames :: "u32 \<Rightarrow> byte \<Rightarrow> bytes \<Rightarrow> bytes list" where
  "cont_frames ch n rest =
     (if rest = [] then []
      else pad_report (to_be_bytes ch @ [n] @ take 59 rest) # cont_frames ch (n + 1) (drop 59 rest))"
  by pat_completeness auto
termination
  by (relation "measure (\<lambda>(ch, n, rest). length rest)") auto

declare cont_frames.simps [simp del]

lemma cont_frames_Nil [simp]: "cont_frames ch n [] = []"
  by (simp add: cont_frames.simps)

lemma cont_frames_step:
  "rest \<noteq> [] \<Longrightarrow> cont_frames ch n rest =
     pad_report (to_be_bytes ch @ [n] @ take 59 rest) # cont_frames ch (n + 1) (drop 59 rest)"
  by (subst cont_frames.simps) simp

lemma length_pad_report [layout_simps]: "length bs \<le> 64 \<Longrightarrow> length (pad_report bs) = 64"
  by (simp add: pad_report_def)

lemma length_to_be_32 [simp]: "length (to_be_bytes (w :: u32)) = 4"
  by (simp add: length_to_be_bytes)

lemma length_to_be_16 [simp]: "length (to_be_bytes (w :: u16)) = 2"
  by (simp add: length_to_be_bytes)

lemma length_init_frame [layout_simps]: "length (init_frame ch cmd p) = 64"
  unfolding init_frame_def by (rule length_pad_report) simp

lemma length_cont_frames [layout_simps]: "f \<in> set (cont_frames ch n rest) \<Longrightarrow> length f = 64"
proof (induction ch n rest rule: cont_frames.induct)
  case (1 ch n rest)
  show ?case
  proof (cases "rest = []")
    case False
    then consider "f = pad_report (to_be_bytes ch @ [n] @ take 59 rest)"
      | "f \<in> set (cont_frames ch (n + 1) (drop 59 rest))"
      using "1.prems" unfolding cont_frames_step [OF False] by auto
    then show ?thesis
    proof cases
      case 1
      then show ?thesis by (simp add: length_pad_report)
    next
      case 2
      with False show ?thesis by (rule "1.IH")
    qed
  qed (use "1.prems" in simp)
qed

lemma put_after:
  assumes "length pre = off" and "length data \<le> k" and "off + k < 2 ^ 64"
  shows "put_bytes (pre @ replicate k 0) off data = Inr (pre @ data @ replicate (k - length data) 0)"
  using assms by (simp add: put_bytes_Inr)

subsection \<open>frame computes the reference layout\<close>

lemma frame_loop_step:
  assumes "offset < length payload" and "length payload < 2 ^ 64"
  shows "frame_loop ch payload offset n packets =
    frame_loop ch payload (offset + min (length payload - offset) 59) (n + 1)
      (packets @ [pad_report (to_be_bytes ch @ [n] @ take 59 (drop offset payload))])"
proof -
  let ?chunk = "min (length payload - offset) 59"
  let ?data = "take ?chunk (drop offset payload)"
  have data: "?data = take 59 (drop offset payload)"
    by (simp add: min_def)
  have p1: "put_bytes (replicate 64 0) 0 (to_be_bytes ch) = Inr (to_be_bytes ch @ replicate 60 0)"
    using put_after [of "[]" 0 "to_be_bytes ch" 64] by simp
  have p2: "put_bytes (to_be_bytes ch @ replicate 60 0) 4 [n] =
      Inr ((to_be_bytes ch @ [n]) @ replicate 59 0)"
    using put_after [of "to_be_bytes ch" 4 "[n]" 60] by simp
  have p3: "put_bytes ((to_be_bytes ch @ [n]) @ replicate 59 0) 5 ?data =
      Inr (pad_report (to_be_bytes ch @ [n] @ take 59 (drop offset payload)))"
    using put_after [of "to_be_bytes ch @ [n]" 5 "?data" 59]
    by (simp add: pad_report_def data)
  have t: "take_bytes payload offset ?chunk = Inr ?data"
    by (rule take_bytes_Inr) (use assms in auto)
  show ?thesis
    by (subst frame_loop.simps)
       (simp add: assms HID_REPORT_SIZE_def Let_def p1 p2 t p3 del: append_assoc take_take)
qed

lemma frame_loop_eq:
  assumes "length payload < 2 ^ 64"
  shows "frame_loop ch payload offset n packets = Inr (packets @ cont_frames ch n (drop offset payload))"
proof (induction "length payload - offset" arbitrary: offset n packets rule: less_induct)
  case less
  show ?case
  proof (cases "offset < length payload")
    case True
    let ?next = "offset + min (length payload - offset) 59"
    have "drop ?next payload = drop 59 (drop offset payload)"
      by (auto simp: min_def add.commute)
    moreover have "length payload - ?next < length payload - offset"
      using True by auto
    ultimately show ?thesis
      using True less by (simp add: frame_loop_step [OF True assms] cont_frames_step)
  next
    case False
    then show ?thesis by (subst frame_loop.simps) simp
  qed
qed

text \<open>The whole of \<open>frame\<close>, on both branches of its length check.\<close>

lemma frame_eq:
  assumes "length payload < 65536"
  shows "frame ch cmd payload =
    Inr (init_frame ch cmd payload # cont_frames ch 0 (drop 57 payload))"
proof -
  let ?n = "min (length payload) 57"
  let ?len = "of_nat (length payload) :: u16"
  let ?pre = "to_be_bytes ch @ [cmd OR 0x80]"
  have p1: "put_bytes (replicate 64 0) 0 (to_be_bytes ch) = Inr (to_be_bytes ch @ replicate 60 0)"
    using put_after [of "[]" 0 "to_be_bytes ch" 64] by simp
  have p2: "put_bytes (to_be_bytes ch @ replicate 60 0) 4 [cmd OR 0x80] = Inr (?pre @ replicate 59 0)"
    using put_after [of "to_be_bytes ch" 4 "[cmd OR 0x80]" 60] by simp
  have p3: "put_bytes (?pre @ replicate 59 0) 5 (to_be_bytes ?len) =
      Inr ((?pre @ to_be_bytes ?len) @ replicate 57 0)"
    using put_after [of ?pre 5 "to_be_bytes ?len" 59] by simp
  have t: "take_bytes payload 0 ?n = Inr (take 57 payload)"
    using assms by (simp add: take_bytes_Inr min_def)
  have p4: "put_bytes ((?pre @ to_be_bytes ?len) @ replicate 57 0) 7 (take 57 payload) =
      Inr (init_frame ch cmd payload)"
    using put_after [of "?pre @ to_be_bytes ?len" 7 "take 57 payload" 57]
    by (simp add: init_frame_def pad_report_def)
  have "drop ?n payload = drop 57 payload"
    by (simp add: min_def)
  then show ?thesis
    using assms
    by (simp add: frame_def u16_try_from_def HID_REPORT_SIZE_def p1 p2 p3 t p4 frame_loop_eq
        del: append_assoc)
qed

lemma frame_too_long:
  assumes "65536 \<le> length payload"
  shows "frame ch cmd payload =
    Inl [''response too long for CTAPHID'', ''out of range integral type conversion attempted'']"
  using assms by (simp add: frame_def u16_try_from_def)

subsection \<open>handle\_report reads the layout back\<close>

lemma unat_ucast_byte [simp]: "unat (ucast (b :: byte) :: u16) = unat b"
proof -
  have "unat b < 2 ^ 16"
    using less_trans [OF unat_byte_less [of b], of "2 ^ 16"] by simp
  then show ?thesis
    by (simp add: unsigned_ucast_eq take_bit_nat_eq_self)
qed

lemma unat_be_pair: "unat (push_bit 8 (ucast h :: u16) OR ucast (l :: byte)) = unat (h :: byte) * 256 + unat l"
proof -
  have "push_bit 8 (ucast h :: u16) AND ucast l = 0"
    by (rule bit_word_eqI) (auto simp: bit_simps dest: bit_imp_le_length)
  then have "push_bit 8 (ucast h :: u16) OR ucast l = push_bit 8 (ucast h) + ucast l"
    by (simp add: disjunctive_add_eq_or)
  moreover have "unat (push_bit 8 (ucast h :: u16)) = unat h * 256"
    using unat_byte_less [of h] by (simp add: push_bit_eq_mult unat_word_ariths)
  moreover have "unat h * 256 + unat l < 65536"
    using unat_byte_less [of h] unat_byte_less [of l] by linarith
  ultimately show ?thesis
    by (simp add: unat_word_ariths)
qed

lemma be16_pair:
  assumes "n < 65536"
  obtains h l where "to_be_bytes (of_nat n :: u16) = [h, l]" and "unat h * 256 + unat l = n"
proof -
  let ?bs = "to_be_bytes (of_nat n :: u16)"
  obtain h l where hl: "?bs = [h, l]"
    by (metis (no_types, lifting) One_nat_def Suc_1 length_0_conv length_Suc_conv length_to_be_16)
  have "(of_nat (be_value ?bs) :: u16) = of_nat n"
    using be16.dec_enc [of "of_nat n"] by (simp add: from_be_bytes_def split: if_splits)
  then have "unat (of_nat (be_value ?bs) :: u16) = unat (of_nat n :: u16)"
    by simp
  moreover have "be_value ?bs < 65536"
    using be_value_less [of ?bs] by simp
  ultimately have "be_value ?bs = n"
    using assms by (simp only: unat_of_nat_u16)
  then show ?thesis
    using that hl by (simp add: be_value_def)
qed

lemma bit_0x80: "bit (0x80 :: byte) n \<longleftrightarrow> n = 7"
  using bit_exp_iff [of 7 n, where ?'a = byte] by auto

lemma high_bit_iff: "(n :: byte) AND 0x80 \<noteq> 0 \<longleftrightarrow> 128 \<le> unat n"
proof -
  have "n AND 0x80 \<noteq> 0 \<longleftrightarrow> bit n 7"
  proof
    assume "n AND 0x80 \<noteq> 0"
    moreover have "\<not> bit n 7 \<Longrightarrow> n AND 0x80 = 0"
      by (rule bit_word_eqI) (simp only: bit_and_iff bit_0x80, auto)
    ultimately show "bit n 7" by blast
  next
    assume "bit n 7"
    then have "bit (n AND 0x80) 7" by (simp add: bit_and_iff bit_0x80)
    then show "n AND 0x80 \<noteq> 0" by force
  qed
  also have "\<dots> \<longleftrightarrow> bit (unat n) 7"
    by (simp add: bit_unsigned_iff)
  also have "\<dots> \<longleftrightarrow> odd (unat n div 128)"
    by (simp add: bit_iff_odd)
  also have "\<dots> \<longleftrightarrow> 128 \<le> unat n"
  proof
    assume "128 \<le> unat n"
    with unat_byte_less [of n] have "unat n div 128 = 1"
      by (intro div_nat_eqI) simp_all
    then show "odd (unat n div 128)" by simp
  next
    assume "odd (unat n div 128)"
    then show "128 \<le> unat n" by (metis div_less even_zero not_le)
  qed
  finally show ?thesis .
qed

lemma marker_bits:
  assumes "(cmd :: byte) AND 0x80 = 0"
  shows "(cmd OR 0x80) AND 0x80 \<noteq> 0" and "(cmd OR 0x80) AND 0x7f = cmd"
proof -
  have low7: "bit (0x7f :: byte) n \<longleftrightarrow> n < 7" for n
    using bit_mask_iff [of 7 n, where ?'a = byte] by (auto simp: mask_eq_exp_minus_1)
  have "bit ((cmd OR 0x80) AND 0x80) 7"
    by (simp add: bit_and_iff bit_or_iff bit_0x80)
  then show "(cmd OR 0x80) AND 0x80 \<noteq> 0"
    by force
  have "\<not> bit cmd 7"
  proof
    assume "bit cmd 7"
    then have "bit (cmd AND 0x80) 7" by (simp add: bit_and_iff bit_0x80)
    then show False by (simp add: assms)
  qed
  then show "(cmd OR 0x80) AND 0x7f = cmd"
    by (intro bit_word_eqI) (auto simp: bit_and_iff bit_or_iff bit_0x80 low7 less_Suc_eq numeral_eq_Suc)
qed

text \<open>The header fields of a report that starts with a channel and a marker.\<close>

lemma read_channel_report:
  "length rest < 1000 \<Longrightarrow> read_channel (to_be_bytes ch @ rest) = Inr ch"
  by (simp add: read_channel_def take_bytes_Inr be32.dec_enc)

lemma handle_report_unfold:
  assumes "length rest < 500"
  shows "handle_report (to_be_bytes ch @ [m] @ rest) st =
    (if m AND 0x80 \<noteq> 0 then handle_init_frame (to_be_bytes ch @ [m] @ rest) ch m st
     else handle_continuation (to_be_bytes ch @ [m] @ rest) ch st)"
proof -
  have "read_channel (to_be_bytes ch @ [m] @ rest) = Inr ch"
    using assms by (intro read_channel_report) simp
  moreover have "list_get (to_be_bytes ch @ [m] @ rest) 4 = Some m"
    by (simp add: list_get_append_exact)
  ultimately show ?thesis
    by (simp add: handle_report_def)
qed

lemma handle_init_report:
  assumes cmd: "cmd AND 0x80 = 0" and len: "length p < 65536"
  shows "handle_report (init_frame ch cmd p) st =
    (if length p \<le> 57 then dispatch_some ch cmd p st
     else (Inr None, st\<lparr>assembly := Some \<lparr>asm_channel = ch, asm_command = cmd,
             asm_expected = length p, asm_payload = take 57 p\<rparr>\<rparr>))"
proof -
  obtain h l where hl: "to_be_bytes (of_nat (length p) :: u16) = [h, l]"
    and val: "unat h * 256 + unat l = length p"
    using be16_pair [OF len] by blast
  let ?m = "cmd OR 0x80"
  let ?rest = "[h, l] @ take 57 p @ replicate (64 - (7 + min (length p) 57)) 0"
  have f: "init_frame ch cmd p = to_be_bytes ch @ [?m] @ ?rest"
    by (simp add: init_frame_def pad_report_def hl)
  have g5: "list_get (to_be_bytes ch @ [?m] @ ?rest) 5 = Some h"
    using list_get_append_exact [of "to_be_bytes ch @ [?m]" 5 h] by simp
  have g6: "list_get (to_be_bytes ch @ [?m] @ ?rest) 6 = Some l"
    using list_get_append_exact [of "to_be_bytes ch @ [?m] @ [h]" 6 l] by simp
  have t: "take_bytes (to_be_bytes ch @ [?m] @ ?rest) 7 (min (length p) 57) = Inr (take 57 p)"
    by (subst take_bytes_Inr) (auto simp: min_def)
  have "handle_report (init_frame ch cmd p) st = handle_init_frame (init_frame ch cmd p) ch ?m st"
    unfolding f by (subst handle_report_unfold) (auto simp: marker_bits [OF cmd])
  also have "\<dots> = (if length p \<le> 57 then dispatch_some ch cmd p st
     else (Inr None, st\<lparr>assembly := Some \<lparr>asm_channel = ch, asm_command = cmd,
             asm_expected = length p, asm_payload = take 57 p\<rparr>\<rparr>))"
    unfolding f handle_init_frame_def Let_def g5 g6
    using t by (auto simp: marker_bits [OF cmd] unat_be_pair val HID_REPORT_SIZE_def min_def)
  finally show ?thesis .
qed

lemma handle_cont_report:
  assumes n: "n AND 0x80 = 0" and rest: "rest \<noteq> []"
    and asm: "assembly st = Some a" "asm_channel a = ch"
      "asm_expected a = length (asm_payload a) + length rest"
  shows "handle_report (pad_report (to_be_bytes ch @ [n] @ take 59 rest)) st =
    (if length rest \<le> 59
     then dispatch_some ch (asm_command a) (asm_payload a @ rest) (st\<lparr>assembly := None\<rparr>)
     else (Inr None, st\<lparr>assembly := Some (a\<lparr>asm_payload := asm_payload a @ take 59 rest\<rparr>)\<rparr>))"
proof -
  let ?tail = "take 59 rest @ replicate (64 - (5 + min (length rest) 59)) 0"
  have f: "pad_report (to_be_bytes ch @ [n] @ take 59 rest) = to_be_bytes ch @ [n] @ ?tail"
    by (simp add: pad_report_def)
  have t: "take_bytes (to_be_bytes ch @ [n] @ ?tail) 5 (min (length rest) 59) = Inr (take 59 rest)"
    by (subst take_bytes_Inr) (auto simp: min_def)
  have "handle_report (pad_report (to_be_bytes ch @ [n] @ take 59 rest)) st =
      handle_continuation (to_be_bytes ch @ [n] @ ?tail) ch st"
    unfolding f by (subst handle_report_unfold) (auto simp: n)
  also have "\<dots> = (if length rest \<le> 59
     then dispatch_some ch (asm_command a) (asm_payload a @ rest) (st\<lparr>assembly := None\<rparr>)
     else (Inr None, st\<lparr>assembly := Some (a\<lparr>asm_payload := asm_payload a @ take 59 rest\<rparr>)\<rparr>))"
    unfolding handle_continuation_def Let_def
    using t rest by (auto simp: asm HID_REPORT_SIZE_def)
  finally show ?thesis .
qed

text \<open>
  \<open>after_silence k r\<close>: \<open>k\<close> reports that are answered with nothing, then \<open>r\<close>.
\<close>

definition after_silence ::
  "nat \<Rightarrow> Outcome option result \<times> hid_state \<Rightarrow> Outcome option list result \<times> hid_state" where
  "after_silence k r =
     (case r of
        (Inl e, s) \<Rightarrow> (Inl e, s)
      | (Inr out, s) \<Rightarrow> (Inr (replicate k None @ [out]), s))"

lemma handle_reports_single: "handle_reports [r] st = after_silence 0 (handle_report r st)"
  by (auto simp: after_silence_def split: prod.splits sum.splits)

lemma handle_reports_silent:
  assumes "handle_report r st = (Inr None, st')"
    and "handle_reports rs st' = after_silence k res"
  shows "handle_reports (r # rs) st = after_silence (Suc k) res"
  using assms by (auto simp: after_silence_def split: prod.splits sum.splits)

lemma handle_cont_frames:
  assumes "rest \<noteq> []" and "length rest + 59 * unat n \<le> 59 * 128"
    and "assembly st = Some a" and "asm_channel a = ch"
    and "asm_expected a = length (asm_payload a) + length rest"
  shows "handle_reports (cont_frames ch n rest) st =
    after_silence (length (cont_frames ch n rest) - 1)
      (dispatch_some ch (asm_command a) (asm_payload a @ rest) (st\<lparr>assembly := None\<rparr>))"
  using assms
proof (induction ch n rest arbitrary: st a rule: cont_frames.induct)
  case (1 ch n rest)
  have "0 < length rest" using "1.prems" by simp
  then have n: "unat n < 128" using "1.prems"(2) by linarith
  then have n0: "n AND 0x80 = 0" using high_bit_iff [of n] by auto
  note step = handle_cont_report [OF n0 "1.prems"(1,3,4,5)]
  show ?case
  proof (cases "length rest \<le> 59")
    case True
    then show ?thesis
      using "1.prems"(1) step
      by (simp add: cont_frames_step handle_reports_single del: handle_reports.simps)
  next
    case False
    let ?a = "a\<lparr>asm_payload := asm_payload a @ take 59 rest\<rparr>"
    let ?st = "st\<lparr>assembly := Some ?a\<rparr>"
    have more: "drop 59 rest \<noteq> []" using False by simp
    have suc: "unat (n + 1) = unat n + 1"
      using n by (simp add: unat_word_ariths)
    have "handle_reports (cont_frames ch (n + 1) (drop 59 rest)) ?st =
      after_silence (length (cont_frames ch (n + 1) (drop 59 rest)) - 1)
        (dispatch_some ch (asm_command ?a) (asm_payload ?a @ drop 59 rest) (?st\<lparr>assembly := None\<rparr>))"
      by (rule "1.IH") (use "1.prems" more suc False in auto)
    moreover have "handle_report (pad_report (to_be_bytes ch @ [n] @ take 59 rest)) st = (Inr None, ?st)"
      using False step by simp
    ultimately have "handle_reports (cont_frames ch n rest) st =
      after_silence (Suc (length (cont_frames ch (n + 1) (drop 59 rest)) - 1))
        (dispatch_some ch (asm_command ?a) (asm_payload ?a @ drop 59 rest) (?st\<lparr>assembly := None\<rparr>))"
      unfolding cont_frames_step [OF "1.prems"(1)] by (intro handle_reports_silent)
    moreover have "0 < length (cont_frames ch (n + 1) (drop 59 rest))"
      using more by (simp add: cont_frames_step)
    ultimately show ?thesis
      using "1.prems"(1) by (simp add: cont_frames_step)
  qed
qed

lemma reassemble:
  assumes "cmd AND 0x80 = 0" and "length p \<le> 7609"
  shows "handle_reports (init_frame ch cmd p # cont_frames ch 0 (drop 57 p)) st =
    after_silence (length (cont_frames ch 0 (drop 57 p)))
      (dispatch_some ch cmd p (if length p \<le> 57 then st else st\<lparr>assembly := None\<rparr>))"
proof (cases "length p \<le> 57")
  case True
  with assms show ?thesis
    by (simp add: handle_reports_single handle_init_report del: handle_reports.simps)
next
  case False
  let ?a = "\<lparr>asm_channel = ch, asm_command = cmd, asm_expected = length p, asm_payload = take 57 p\<rparr>"
  let ?st = "st\<lparr>assembly := Some ?a\<rparr>"
  have "handle_report (init_frame ch cmd p) st = (Inr None, ?st)"
    using assms False by (simp add: handle_init_report)
  moreover have "handle_reports (cont_frames ch 0 (drop 57 p)) ?st =
      after_silence (length (cont_frames ch 0 (drop 57 p)) - 1)
        (dispatch_some ch (asm_command ?a) (asm_payload ?a @ drop 57 p) (?st\<lparr>assembly := None\<rparr>))"
    by (rule handle_cont_frames) (use assms False in auto)
  ultimately have "handle_reports (init_frame ch cmd p # cont_frames ch 0 (drop 57 p)) st =
      after_silence (Suc (length (cont_frames ch 0 (drop 57 p)) - 1))
        (dispatch_some ch (asm_command ?a) (asm_payload ?a @ drop 57 p) (?st\<lparr>assembly := None\<rparr>))"
    by (rule handle_reports_silent)
  moreover have "0 < length (cont_frames ch 0 (drop 57 p))"
    using False by (simp add: cont_frames_step)
  ultimately show ?thesis
    using False by simp
qed

subsection \<open>Sequence numbers\<close>

lemma cont_frames_nth:
  "k < length (cont_frames ch n rest) \<Longrightarrow> cont_frames ch n rest ! k ! 4 = n + of_nat k"
proof (induction ch n rest arbitrary: k rule: cont_frames.induct)
  case (1 ch n rest)
  show ?case
  proof (cases "rest = []")
    case False
    show ?thesis
    proof (cases k)
      case 0
      then show ?thesis
        using False by (simp add: cont_frames_step pad_report_def nth_append)
    next
      case (Suc j)
      then show ?thesis
        using "1.IH" [OF False, of j] "1.prems" False by (simp add: cont_frames_step)
    qed
  qed (use "1.prems" in simp)
qed

lemma length_cont_list: "length (cont_frames ch n rest) = (length rest + 58) div 59"
proof (induction ch n rest rule: cont_frames.induct)
  case (1 ch n rest)
  show ?case
  proof (cases "rest = []")
    case False
    then have "0 < length rest" by simp
    have "Suc ((length rest - 59 + 58) div 59) = (length rest + 58) div 59"
    proof (cases "59 \<le> length rest")
      case True
      then have "length rest + 58 = (length rest - 59 + 58) + 59" by simp
      then show ?thesis by (metis div_add_self2 zero_neq_numeral Suc_eq_plus1)
    next
      case False
      with \<open>0 < length rest\<close> have "(length rest + 58) div 59 = 1"
        by (intro div_nat_eqI) (linarith | simp)+
      with False show ?thesis by simp
    qed
    then show ?thesis
      using False "1.IH" by (simp add: cont_frames_step)
  qed simp
qed

subsection \<open>Every request is answered or refused\<close>

text \<open>
  The invariant of the message being assembled: it is still incomplete, its announced
  length fits a \<open>u16\<close> and its first 57 bytes are there.
\<close>

definition assembly_ok :: "hid_state \<Rightarrow> bool" where
  "assembly_ok st \<longleftrightarrow>
     (case assembly st of None \<Rightarrow> True
      | Some a \<Rightarrow> 57 \<le> length (asm_payload a) \<and> length (asm_payload a) < asm_expected a
          \<and> asm_expected a < 65536)"

lemma assembly_ok_simps [simp]:
  "assembly st = None \<Longrightarrow> assembly_ok st"
  "assembly_ok (st\<lparr>next_channel := c\<rparr>) \<longleftrightarrow> assembly_ok st"
  by (simp_all add: assembly_ok_def)

lemma frame_Inr_frames:
  "frame ch cmd p = Inr fs \<Longrightarrow> fs = init_frame ch cmd p # cont_frames ch 0 (drop 57 p)"
  by (cases "length p < 65536") (auto simp: frame_eq frame_too_long)

text \<open>\<open>dispatch\<close> fails on one input only, an INIT without its eight-byte nonce.\<close>

definition replies :: "u32 \<Rightarrow> byte \<Rightarrow> bytes \<Rightarrow> Outcome" where
  "replies ch cmd body = Ready (init_frame ch cmd body # cont_frames ch 0 (drop 57 body))"

lemma map_ready_frame:
  "length p < 65536 \<Longrightarrow> map_ready (frame ch cmd p) = Inr (replies ch cmd p)"
  by (simp add: map_ready_def frame_eq replies_def)

lemma take_nonce: "length p < 65536 \<Longrightarrow> take_bytes p 0 8 =
    (if 8 \<le> length p then Inr (take 8 p) else Inl [''slice out of range''])"
  by (simp add: take_bytes_def usize_checked_add_def)

lemma dispatch_init_eq:
  assumes "length p < 65536"
  shows "dispatch_init ch p n =
    (if length p < 8 then (Inl [''slice out of range''], n)
     else if ch = CTAP_BROADCAST_CID
       then (Inr (replies ch CTAPHID_INIT (take 8 p @ to_be_bytes (n + 1) @ [2, 1, 0, 0, 4])), n + 1)
     else (Inr (replies ch CTAPHID_INIT (take 8 p @ to_be_bytes ch @ [2, 1, 0, 0, 4])), n))"
  using assms by (simp add: dispatch_init_def take_nonce map_ready_frame Let_def)

lemma length_get_info: "length get_info_response = 45"
  by (simp add: get_info_response_def AAGUID_def as_bytes_def)

lemma dispatch_cbor_Inr: "\<exists>out. dispatch_cbor ch p = Inr out"
  by (auto simp: dispatch_cbor_def map_ready_frame length_get_info Let_def)

lemma dispatch_Inl_iff:
  assumes "length p < 65536"
  shows "fst (dispatch ch cmd p n) = Inl e \<longleftrightarrow>
    cmd = CTAPHID_INIT \<and> length p < 8 \<and> e = [''slice out of range'']"
  using assms dispatch_cbor_Inr [of ch p]
  by (auto simp: dispatch_def dispatch_init_eq map_ready_frame ctaphid_consts)

subsection \<open>A reference reassembler\<close>

definition report_channel :: "bytes \<Rightarrow> u32" where
  "report_channel r = of_nat (be_value (take 4 r))"

definition report_length :: "bytes \<Rightarrow> nat" where
  "report_length r = unat (r ! 5) * 256 + unat (r ! 6)"

text \<open>
  \<open>assemble\<close> only keeps track of messages: the report it is given, the message it had
  begun, and what it has then and the message the report completes, if any.
\<close>

definition assemble ::
  "bytes \<Rightarrow> Assembly option \<Rightarrow> Assembly option \<times> (u32 \<times> byte \<times> bytes) option" where
  "assemble r begun =
     (let ch = report_channel r; m = r ! 4; n = report_length r in
      if 128 \<le> unat m then
        if n \<le> 57 then (begun, Some (ch, m AND 0x7f, take n (drop 7 r)))
        else (Some \<lparr>asm_channel = ch, asm_command = m AND 0x7f,
                    asm_expected = n, asm_payload = take 57 (drop 7 r)\<rparr>, None)
      else case begun of
        None \<Rightarrow> (begun, None)
      | Some a \<Rightarrow>
          if asm_channel a \<noteq> ch then (begun, None)
          else let need = asm_expected a - length (asm_payload a) in
            if need \<le> 59
            then (None, Some (ch, asm_command a, asm_payload a @ take need (drop 5 r)))
            else (Some (a\<lparr>asm_payload := asm_payload a @ take 59 (drop 5 r)\<rparr>), None))"

lemma report_length_bound: "report_length r < 65536"
  using unat_byte_less [of "r ! 5"] unat_byte_less [of "r ! 6"]
  unfolding report_length_def by linarith

lemma read_channel_64: "length r = 64 \<Longrightarrow> read_channel r = Inr (report_channel r)"
  by (simp add: read_channel_def take_bytes_Inr from_be_bytes_def report_channel_def)

lemma handle_init_64:
  assumes "length r = 64"
  shows "handle_init_frame r ch m st =
    (if report_length r \<le> 57
     then dispatch_some ch (m AND 0x7f) (take (report_length r) (drop 7 r)) st
     else (Inr None, st\<lparr>assembly := Some \<lparr>asm_channel = ch, asm_command = m AND 0x7f,
             asm_expected = report_length r, asm_payload = take 57 (drop 7 r)\<rparr>\<rparr>))"
proof -
  have "take_bytes r 7 (min (report_length r) 57) = Inr (take (min (report_length r) 57) (drop 7 r))"
    using assms by (intro take_bytes_Inr) auto
  then show ?thesis
    using assms
    by (auto simp: handle_init_frame_def list_get_def unat_be_pair HID_REPORT_SIZE_def Let_def
        min_def report_length_def)
qed

lemma handle_cont_64:
  assumes "length r = 64" and "assembly_ok st"
  shows "handle_continuation r ch st =
    (case assembly st of
       None \<Rightarrow> (Inr None, st)
     | Some a \<Rightarrow>
         if asm_channel a \<noteq> ch then (Inr None, st)
         else let need = asm_expected a - length (asm_payload a) in
           if need \<le> 59
           then dispatch_some ch (asm_command a) (asm_payload a @ take need (drop 5 r))
                  (st\<lparr>assembly := None\<rparr>)
           else (Inr None,
             st\<lparr>assembly := Some (a\<lparr>asm_payload := asm_payload a @ take 59 (drop 5 r)\<rparr>)\<rparr>))"
proof (cases "assembly st")
  case (Some a)
  let ?need = "asm_expected a - length (asm_payload a)"
  have "0 < ?need"
    using assms(2) Some by (simp add: assembly_ok_def)
  moreover have "take_bytes r 5 (min ?need 59) = Inr (take (min ?need 59) (drop 5 r))"
    using assms by (intro take_bytes_Inr) auto
  ultimately show ?thesis
    using assms(1) Some
    by (auto simp: handle_continuation_def HID_REPORT_SIZE_def Let_def min_def)
qed (simp add: handle_continuation_def)

lemma handle_report_assemble:
  assumes "length r = 64" and "assembly_ok st"
  shows "handle_report r st =
    (case assemble r (assembly st) of (begun, done) \<Rightarrow>
       (case done of
          None \<Rightarrow> (Inr None, st\<lparr>assembly := begun\<rparr>)
        | Some (ch, cmd, p) \<Rightarrow> dispatch_some ch cmd p (st\<lparr>assembly := begun\<rparr>)))"
proof -
  have "handle_report r st =
    (if 128 \<le> unat (r ! 4) then handle_init_frame r (report_channel r) (r ! 4) st
     else handle_continuation r (report_channel r) st)"
    using assms(1) high_bit_iff [of "r ! 4"]
    by (simp add: handle_report_def read_channel_64 list_get_def)
  then show ?thesis
    by (auto simp: handle_init_64 [OF assms(1)] handle_cont_64 [OF assms] assemble_def Let_def
        split: option.splits)
qed

lemma assemble_message_bound:
  assumes "assemble r (assembly st) = (begun, Some (ch, cmd, p))" and "assembly_ok st"
  shows "length p < 65536"
  using assms report_length_bound [of r]
  by (auto simp: assemble_def assembly_ok_def Let_def split: if_splits option.splits)

lemma dispatch_some_state:
  "snd (dispatch_some ch cmd p st) = st\<lparr>next_channel := snd (dispatch ch cmd p (next_channel st))\<rparr>"
  by (simp add: dispatch_some_def split: prod.splits)

lemma assemble_keeps_ok:
  assumes "length r = 64" and "assembly_ok st" and "assemble r (assembly st) = (begun, done)"
  shows "assembly_ok (st\<lparr>assembly := begun\<rparr>)"
  using assms report_length_bound [of r]
  by (auto simp: assemble_def assembly_ok_def Let_def split: if_splits option.splits)

lemma handle_report_keeps_ok:
  assumes "length r = 64" and "assembly_ok st"
  shows "assembly_ok (snd (handle_report r st))"
proof -
  obtain begun msg where "assemble r (assembly st) = (begun, msg)" by fastforce
  then show ?thesis
    using assemble_keeps_ok [OF assms] handle_report_assemble [OF assms]
    by (auto simp: dispatch_some_state split: option.splits prod.splits)
qed

lemma handle_reports_keeps_ok:
  "\<lbrakk>\<forall>r \<in> set rs. length r = 64; assembly_ok st\<rbrakk> \<Longrightarrow> assembly_ok (snd (handle_reports rs st))"
proof (induction rs arbitrary: st)
  case (Cons r rs)
  obtain res st' where h: "handle_report r st = (res, st')" by fastforce
  then have ok: "assembly_ok st'"
    using handle_report_keeps_ok [of r st] Cons.prems by simp
  have "assembly_ok (snd (handle_reports rs st'))"
    using Cons ok by simp
  then show ?case
    using h ok by (auto split: sum.splits prod.splits)
qed simp

lemma handle_report_Inl_iff:
  assumes "length r = 64" and "assembly_ok st"
  shows "fst (handle_report r st) = Inl e \<longleftrightarrow>
    (\<exists>begun ch p. assemble r (assembly st) = (begun, Some (ch, CTAPHID_INIT, p)) \<and> length p < 8
       \<and> e = [''slice out of range''])"
proof -
  obtain begun msg where a: "assemble r (assembly st) = (begun, msg)" by fastforce
  show ?thesis
  proof (cases msg)
    case None
    then show ?thesis using a by (simp add: handle_report_assemble [OF assms])
  next
    case (Some t)
    obtain ch cmd p where t: "t = (ch, cmd, p)" by (cases t)
    have "length p < 65536"
      using assemble_message_bound [of r st begun ch cmd p] a Some t assms(2) by simp
    then show ?thesis
      using a Some t dispatch_Inl_iff [of p ch cmd "next_channel st" e]
      by (auto simp: handle_report_assemble [OF assms] dispatch_some_def tryR_Inl_iff
          split: prod.splits)
  qed
qed

lemma init_broadcast_report:
  assumes "length nonce = 8"
  shows "handle_report (init_frame CTAP_BROADCAST_CID CTAPHID_INIT nonce) st =
    (Inr (Some (replies CTAP_BROADCAST_CID CTAPHID_INIT
        (nonce @ to_be_bytes (next_channel st + 1) @ [2, 1, 0, 0, 4]))),
     st\<lparr>next_channel := next_channel st + 1\<rparr>)"
  using assms
  by (simp add: handle_init_report CTAPHID_INIT_def dispatch_some_def dispatch_def dispatch_init_eq)

text \<open>What a run of broadcast INITs is answered, from the current channel counter on.\<close>

fun init_answers :: "u32 \<Rightarrow> bytes list \<Rightarrow> Outcome option list" where
  "init_answers c [] = []"
| "init_answers c (nonce # nonces) =
     Some (replies CTAP_BROADCAST_CID CTAPHID_INIT (nonce @ to_be_bytes (c + 1) @ [2, 1, 0, 0, 4]))
     # init_answers (c + 1) nonces"

lemma handle_init_reports:
  "\<forall>nonce \<in> set nonces. length nonce = 8 \<Longrightarrow>
   handle_reports (map (init_frame CTAP_BROADCAST_CID CTAPHID_INIT) nonces) st =
     (Inr (init_answers (next_channel st) nonces),
      st\<lparr>next_channel := next_channel st + of_nat (length nonces)\<rparr>)"
proof (induction nonces arbitrary: st)
  case (Cons nonce nonces)
  then show ?case
    by (simp add: init_broadcast_report add.assoc add.commute)
qed simp

lemma init_answers_nth:
  "k < length nonces \<Longrightarrow> init_answers c nonces ! k =
     Some (replies CTAP_BROADCAST_CID CTAPHID_INIT
       (nonces ! k @ to_be_bytes (c + of_nat (k + 1)) @ [2, 1, 0, 0, 4]))"
proof (induction nonces arbitrary: c k)
  case (Cons n ns)
  then show ?case by (cases k) (simp_all add: algebra_simps)
qed simp

lemma length_init_answers [simp]: "length (init_answers c nonces) = length nonces"
  by (induction nonces arbitrary: c) auto

lemma cont_marker_iff:
  assumes "length p < 65536"
  shows "(\<exists>f \<in> set (cont_frames ch 0 (drop 57 p)). f ! 4 AND 0x80 \<noteq> 0) \<longleftrightarrow> 7609 < length p"
proof -
  let ?fs = "cont_frames ch 0 (drop 57 p)"
  have len: "length ?fs = (length p - 57 + 58) div 59"
    by (simp add: length_cont_list)
  have mark: "?fs ! k ! 4 AND 0x80 \<noteq> 0 \<longleftrightarrow> 128 \<le> k mod 256" if "k < length ?fs" for k
    using that by (simp only: cont_frames_nth high_bit_iff) simp
  show ?thesis
  proof
    assume "7609 < length p"
    then have "129 \<le> (length p - 57 + 58) div 59"
      using div_le_mono [of "129 * 59" "length p - 57 + 58" 59] by simp
    then have "128 < length ?fs"
      by (simp add: len)
    with mark [of 128] show "\<exists>f \<in> set ?fs. f ! 4 AND 0x80 \<noteq> 0"
      by (metis nth_mem mod_less numeral_less_iff order_refl semiring_norm(75-80))
  next
    assume "\<exists>f \<in> set ?fs. f ! 4 AND 0x80 \<noteq> 0"
    then obtain k where k: "k < length ?fs" "128 \<le> k mod 256"
      using mark by (auto simp: in_set_conv_nth)
    show "7609 < length p"
    proof (rule ccontr)
      assume "\<not> 7609 < length p"
      then have "(length p - 57 + 58) div 59 \<le> 128"
        using div_le_mono [of "length p - 57 + 58" "128 * 59 + 58" 59] by simp
      with k(1) have "k < 128" by (simp add: len)
      with k(2) show False by simp
    qed
  qed
qed

subsection \<open>Properties\<close>

text \<open>
  C4. A message split by \<open>frame\<close> and fed, report by report, to \<open>handle_report\<close> is
  reassembled exactly: every report but the last is answered with nothing, and the last one
  with what \<open>dispatch\<close> answers the whole message, for every command without the high bit
  and every payload up to 7609 bytes, whatever was being assembled before.
\<close>

theorem frame_reassembles:
  assumes "cmd AND 0x80 = 0" and "length p \<le> 7609"
  shows "\<exists>fs. frame ch cmd p = Inr fs \<and>
    handle_reports fs st =
      after_silence (length fs - 1)
        (dispatch_some ch cmd p (if length p \<le> 57 then st else st\<lparr>assembly := None\<rparr>))"
  using assms reassemble [OF assms, of ch st]
  by (simp add: frame_eq del: handle_reports.simps)

theorem frame_reassembles_witness:
  "(CTAPHID_PING AND 0x80 = 0) \<and> length (replicate 7609 (1 :: byte)) \<le> 7609 \<and>
   (\<exists>fs. frame 7 CTAPHID_PING (replicate 7609 1) = Inr fs \<and>
      handle_reports fs \<lparr>assembly = None, next_channel = 1\<rparr> =
        after_silence (length fs - 1)
          (dispatch_some 7 CTAPHID_PING (replicate 7609 1) \<lparr>assembly = None, next_channel = 1\<rparr>))"
proof -
  have c: "CTAPHID_PING AND 0x80 = 0" by (simp add: CTAPHID_PING_def)
  have l: "length (replicate 7609 (1 :: byte)) \<le> 7609" by simp
  show ?thesis
    using c l frame_reassembles [OF c l, of 7 "\<lparr>assembly = None, next_channel = 1\<rparr>"]
    by (simp only: length_replicate hid_state.update_convs) auto
qed

text \<open>
  C13. On every 64-byte report, and while the message being assembled satisfies its
  invariant, \<open>handle_report\<close> is the reference reassembler followed by \<open>dispatch\<close> on
  the message a report completes: a report for another channel, or a continuation with
  nothing begun, changes nothing and is not answered.
\<close>

theorem handle_report_refines:
  assumes "length r = 64" and "assembly_ok st"
  shows "handle_report r st =
    (case assemble r (assembly st) of (begun, done) \<Rightarrow>
       (case done of
          None \<Rightarrow> (Inr None, st\<lparr>assembly := begun\<rparr>)
        | Some (ch, cmd, p) \<Rightarrow> dispatch_some ch cmd p (st\<lparr>assembly := begun\<rparr>)))"
  using assms by (rule handle_report_assemble)

theorem handle_report_refines_witness:
  "assemble (init_frame 5 CTAPHID_PING [1, 2, 3]) None = (None, Some (5, CTAPHID_PING, [1, 2, 3])) \<and>
   handle_report (init_frame 5 CTAPHID_PING [1, 2, 3]) \<lparr>assembly = None, next_channel = 1\<rparr> =
     dispatch_some 5 CTAPHID_PING [1, 2, 3] \<lparr>assembly = None, next_channel = 1\<rparr>"
proof -
  let ?r = "init_frame 5 CTAPHID_PING [1, 2, 3]"
  have a: "assemble ?r None = (None, Some (5, CTAPHID_PING, [1, 2, 3]))"
    by code_simp
  then show ?thesis
    using handle_report_refines [of ?r "\<lparr>assembly = None, next_channel = 1\<rparr>"]
    by (simp add: length_init_frame)
qed

text \<open>
  C25. Handling a 64-byte report fails, and so ends the helper, in one case only: the report
  completes an INIT message that carries fewer than the eight bytes of its nonce. Every other
  report, of any content, leaves the helper running.
\<close>

theorem handle_report_fails_only_on_short_init:
  assumes "length r = 64" and "assembly_ok st"
  shows "fst (handle_report r st) = Inl e \<longleftrightarrow>
    (\<exists>begun ch p. assemble r (assembly st) = (begun, Some (ch, CTAPHID_INIT, p)) \<and> length p < 8
       \<and> e = [''slice out of range''])"
  using assms by (rule handle_report_Inl_iff)

theorem handle_report_fails_only_on_short_init_witness:
  "fst (handle_report (init_frame 5 CTAPHID_INIT [1, 2, 3])
     \<lparr>assembly = None, next_channel = 1\<rparr>) = Inl [''slice out of range'']"
proof -
  let ?r = "init_frame 5 CTAPHID_INIT [1, 2, 3]"
  have "assemble ?r None = (None, Some (5, CTAPHID_INIT, [1, 2, 3]))"
    by code_simp
  then show ?thesis
    using handle_report_fails_only_on_short_init
      [of ?r "\<lparr>assembly = None, next_channel = 1\<rparr>" "[''slice out of range'']"]
    by (simp add: length_init_frame)
qed

text \<open>
  C24. The message being assembled stays well formed over any run of 64-byte reports, whether
  or not one of them fails: it is incomplete, it holds at least the 57 bytes of its first
  report, and its announced length fits a \<open>u16\<close>.
\<close>

theorem assembly_invariant:
  assumes "\<forall>r \<in> set rs. length r = 64" and "assembly_ok st"
  shows "assembly_ok (snd (handle_reports rs st))"
  using assms by (rule handle_reports_keeps_ok)

theorem assembly_invariant_witness:
  "assembly_ok (snd (handle_reports
     [init_frame 5 CTAPHID_PING (replicate 100 1), init_frame 6 CTAPHID_CBOR [4]]
     \<lparr>assembly = None, next_channel = 1\<rparr>))"
  by (rule assembly_invariant) (simp_all add: length_init_frame)

text \<open>
  C27. Broadcast INITs are given fresh channels: from the initial counter 1, the \<open>k\<close>-th of
  up to \<open>2^32 - 3\<close> of them is answered with its own nonce and channel \<open>k + 2\<close>; these
  channels are pairwise different and none is 0, 1 or the broadcast channel.
\<close>

theorem init_channels_fresh:
  assumes "\<forall>nonce \<in> set nonces. length nonce = 8" and "length nonces \<le> 2 ^ 32 - 3"
  shows "\<exists>answers st'.
    handle_reports (map (init_frame CTAP_BROADCAST_CID CTAPHID_INIT) nonces)
      \<lparr>assembly = None, next_channel = 1\<rparr> = (Inr answers, st') \<and>
    length answers = length nonces \<and>
    (\<forall>k < length nonces. answers ! k =
       Some (replies CTAP_BROADCAST_CID CTAPHID_INIT
         (nonces ! k @ to_be_bytes (of_nat (k + 2) :: u32) @ [2, 1, 0, 0, 4]))) \<and>
    distinct (map (\<lambda>k. of_nat (k + 2) :: u32) [0..<length nonces]) \<and>
    {0, 1, CTAP_BROADCAST_CID} \<inter> set (map (\<lambda>k. of_nat (k + 2) :: u32) [0..<length nonces]) = {}"
proof -
  have small: "unat (of_nat (k + 2) :: u32) = k + 2" if "k < length nonces" for k
    using that assms(2) by (subst unat_of_nat) simp
  have "inj_on (\<lambda>k. of_nat (k + 2) :: u32) (set [0..<length nonces])"
    by (rule inj_onI) (metis small add_right_cancel atLeastLessThan_iff set_upt)
  moreover have "(of_nat (k + 2) :: u32) \<noteq> w"
    if "k < length nonces" and "unat w < 2 \<or> unat w = 4294967295" for k w
    using small [OF that(1)] that assms(2) by auto
  then have "\<forall>k < length nonces. (of_nat (k + 2) :: u32) \<notin> {0, 1, CTAP_BROADCAST_CID}"
    by (simp add: CTAP_BROADCAST_CID_def del: of_nat_add)
  ultimately show ?thesis
    using assms(1)
    by (auto simp: handle_init_reports init_answers_nth distinct_map simp del: of_nat_add)
qed

theorem init_channels_fresh_witness:
  "\<exists>answers st'.
    handle_reports (map (init_frame CTAP_BROADCAST_CID CTAPHID_INIT) [[1,2,3,4,5,6,7,8]])
      \<lparr>assembly = None, next_channel = 1\<rparr> = (Inr answers, st') \<and>
    answers ! 0 = Some (replies CTAP_BROADCAST_CID CTAPHID_INIT
      ([1,2,3,4,5,6,7,8] @ to_be_bytes (2 :: u32) @ [2, 1, 0, 0, 4]))"
  using init_channels_fresh [of "[[1,2,3,4,5,6,7,8]]"] by auto

text \<open>
  C26. \<open>frame\<close> accepts any payload a \<open>u16\<close> can count, but numbers its continuation
  reports with a byte that wraps through the values whose high bit marks a first report: some
  continuation of an accepted payload carries that mark exactly when the payload is longer
  than 7609 bytes.
\<close>

theorem frame_sequence_overflow:
  assumes "frame ch cmd p = Inr fs"
  shows "(\<exists>f \<in> set (tl fs). f ! 4 AND 0x80 \<noteq> 0) \<longleftrightarrow> 7609 < length p"
proof -
  have "length p < 65536"
    using assms frame_too_long [of p ch cmd] by (cases "length p < 65536") auto
  then show ?thesis
    using frame_Inr_frames [OF assms] cont_marker_iff [of p ch] by simp
qed

theorem frame_sequence_overflow_witness:
  "\<exists>fs. frame 7 CTAPHID_CBOR (replicate 7610 0) = Inr fs \<and> (\<exists>f \<in> set (tl fs). f ! 4 AND 0x80 \<noteq> 0)"
proof -
  have f: "frame 7 CTAPHID_CBOR (replicate 7610 0) =
      Inr (init_frame 7 CTAPHID_CBOR (replicate 7610 0) # cont_frames 7 0 (drop 57 (replicate 7610 0)))"
    by (rule frame_eq) simp
  show ?thesis
    using f frame_sequence_overflow [OF f] by auto
qed

text \<open>
  A PING comes back byte for byte: the reports of a PING of up to 7609 bytes are answered,
  on the same channel, with exactly those reports, and the channel counter is untouched.
\<close>

lemma ping_echo:
  assumes "length p \<le> 7609"
  shows "\<exists>fs. frame ch CTAPHID_PING p = Inr fs \<and>
    handle_reports fs st =
      (Inr (replicate (length fs - 1) None @ [Some (Ready fs)]),
       if length p \<le> 57 then st else st\<lparr>assembly := None\<rparr>)"
proof -
  have "CTAPHID_PING AND 0x80 = 0"
    by (simp add: CTAPHID_PING_def)
  moreover have "dispatch ch CTAPHID_PING p n = (Inr (replies ch CTAPHID_PING p), n)" for n
    using assms by (simp add: dispatch_def map_ready_frame ctaphid_consts)
  ultimately show ?thesis
    using assms reassemble [of CTAPHID_PING p ch st]
    by (simp add: frame_eq dispatch_some_def replies_def after_silence_def del: handle_reports.simps)
qed

lemma ping_echo_witness:
  "\<exists>fs. frame 7 CTAPHID_PING [1, 2, 3] = Inr fs \<and>
    handle_reports fs \<lparr>assembly = None, next_channel = 1\<rparr> =
      (Inr (replicate (length fs - 1) None @ [Some (Ready fs)]), \<lparr>assembly = None, next_channel = 1\<rparr>)"
  using ping_echo [of "[1, 2, 3]" 7 "\<lparr>assembly = None, next_channel = 1\<rparr>"] by simp

end
