(* ===== verification/Enrolment.thy ===== *)
theory Enrolment
  imports Server Dbus
begin

text \<open>
  Properties of the daemon's handlers taken one at a time: what a pairing message can change
  and what it records, what System Settings sees and removes, and the lines exchanged with
  the clients of the socket.
\<close>

subsection \<open>Lemmas\<close>

lemma deliver_files [simp]:
  "dm_files (deliver C line d) = dm_files d" "dm_pairings (deliver C line d) = dm_pairings d"
  by (auto simp: deliver_def deliver_assertion_def waiter_defs Let_def
      split: option.splits prod.splits sum.splits)

lemma send_line_files:
  "send_line w line d = (r, d') \<Longrightarrow> dm_files d' = dm_files d \<and> dm_pairings d' = dm_pairings d"
  by (auto simp: send_line_def split: option.splits sum.splits)

lemma send_line_snd [simp]:
  "dm_files (snd (send_line w line d)) = dm_files d"
  "dm_pairings (snd (send_line w line d)) = dm_pairings d"
  using send_line_files [of w line d "fst (send_line w line d)" "snd (send_line w line d)"] by simp_all

lemma record_device_pairings:
  "record_device C env dev d = (r, d') \<Longrightarrow> dm_pairings d' = dm_pairings d"
  by (auto simp: record_device_def Let_def dest!: send_line_files split: prod.splits sum.splits)

text \<open>A pairing message that a session let through.\<close>

definition admitted ::
  "('v, 'pk, 'vk, 'sig) crates \<Rightarrow> pair_inputs \<Rightarrow> string \<Rightarrow> Pairings \<Rightarrow> 'v \<Rightarrow> PairingSession \<Rightarrow> bool" where
  "admitted C env line p value session \<longleftrightarrow>
     json_from_str (cr_json C) line = Inr value
     \<and> b64_decode (cr_b64url C) (text_or_empty (cr_json C) value ''token'') = Inr (ps_token session)
     \<and> p = Some session \<and> \<not> expired (pi_instant env) session"

lemma complete_pairing_admitted:
  assumes "admitted C env line (dm_pairings d) value session"
  shows "complete_pairing C env line d =
    (case pair_device C env value session of
       Inl e \<Rightarrow> (Inl e, d\<lparr>dm_pairings := None\<rparr>)
     | Inr device \<Rightarrow> record_device C env device (d\<lparr>dm_pairings := None\<rparr>))"
proof -
  have "take_matching (pi_instant env) (ps_token session) (dm_pairings d) = (Some session, None)"
    using assms by (simp add: take_matching_Some_iff admitted_def)
  then show ?thesis
    using assms by (simp add: complete_pairing_def admitted_def Let_def)
qed

lemma complete_pairing_refused:
  assumes "\<nexists>value session. admitted C env line (dm_pairings d) value session"
    and "complete_pairing C env line d = (r, d')"
  shows "is_err r \<and> dm_files d' = dm_files d \<and> dm_sent d' = dm_sent d
    \<and> (dm_pairings d' = dm_pairings d \<or> dm_pairings d' = None)"
proof -
  let ?m = "tryR (with_context ''invalid pair.request'' (json_from_str (cr_json C) line)) (\<lambda>value.
           tryR (with_context ''pairing token is not base64url''
                   (b64_decode (cr_b64url C) (text_or_empty (cr_json C) value ''token'')))
             (\<lambda>token. Inr (value, token)))"
  show ?thesis
  proof (cases ?m)
    case (Inl e)
    then show ?thesis using assms(2) by (auto simp: complete_pairing_def)
  next
    case (Inr vt)
    obtain msg token where vt: "vt = (msg, token)" by fastforce
    with Inr have v: "json_from_str (cr_json C) line = Inr msg"
      and t: "b64_decode (cr_b64url C) (text_or_empty (cr_json C) msg ''token'') = Inr token"
      by (auto simp: result_simps)
    obtain x p where x: "take_matching (pi_instant env) token (dm_pairings d) = (x, p)" by fastforce
    have "x = None"
    proof (cases x)
      case (Some session)
      then have "admitted C env line (dm_pairings d) msg session"
        using x v t by (simp add: admitted_def take_matching_Some_iff)
      with assms(1) show ?thesis by blast
    qed
    then show ?thesis
      using assms(2) Inr vt x pairing_window.claim_miss [of "pi_instant env" token "dm_pairings d" p]
      by (auto simp: complete_pairing_def Let_def)
  qed
qed

lemma pair_device_InrD:
  assumes "pair_device C env value session = Inr device"
  shows "key_id (cr_p256 C) (cr_sha256 C) (dev_public_key_pem device) = Inr (dev_id device)
    \<and> (\<exists>key. load_verifying_key (cr_p256 C) (dev_public_key_pem device) = Inr key)
    \<and> dev_public_key_pem device = text_or_empty (cr_json C) value ''publicKeyPem''"
  using assms by (auto simp: pair_device_def Let_def result_simps)

lemma hex_id_safe:
  "key_id K H pem = Inr i \<Longrightarrow> sha256_ok H \<Longrightarrow> safe_id i"
  using key_id_shape [of K H pem i] by (auto simp: safe_id_def)

lemma record_device_files:
  assumes "json_objects_ok (cr_json C)" and "json_text_ok (cr_json C)" and "safe_id (dev_id device)"
    and "record_device C env device d = (r, d')"
  shows "load_entry (cr_json C) (dm_files d') name = load_entry (cr_json C) (dm_files d) name
    \<or> name = file_for (dev_id device) \<and> load_entry (cr_json C) (dm_files d') name = Some device"
proof -
  obtain r1 files where s: "store_save (cr_json C) (dm_store d) (pi_save env) device (dm_files d) = (r1, files)"
    by fastforce
  have f: "dm_files d' = files"
    using assms(4) s by (auto simp: record_device_def Let_def dest!: send_line_files split: sum.splits)
  show ?thesis
  proof (cases "printable (cr_json C) device")
    case True
    then show ?thesis using load_after_save [OF assms(1-3) True s] f by auto
  next
    case False
    then obtain e where "json_to_string_pretty (cr_json C) (device_to_json (cr_json C) device) = Inl e"
      by (metis printable_def sum.exhaust)
    then show ?thesis using save_print_failed s f by (metis Pair_inject)
  qed
qed

lemma complete_pairing_enrols:
  assumes laws: "json_objects_ok (cr_json C)" "json_text_ok (cr_json C)" "sha256_ok (cr_sha256 C)"
    and adm: "admitted C env line (dm_pairings d) value session"
    and id: "key_id (cr_p256 C) (cr_sha256 C) (text_or_empty (cr_json C) value ''publicKeyPem'') = Inr i"
    and calls: "pi_save env = calls_ok" "pi_written env = Inr ()" "dm_outbound d = Some conn"
    and print: "\<And>v. \<exists>body. json_to_string_pretty (cr_json C) v = Inr body"
  shows "\<exists>d' answer reply. complete_pairing C env line d = (Inr (), d')
    \<and> load_entry (cr_json C) (dm_files d') (i @ ''.json'') = Some \<lparr>dev_id = i,
        dev_name = (if ps_label session = '''' then text_or_empty (cr_json C) value ''name''
          else ps_label session),
        dev_model = text_or_empty (cr_json C) value ''model'',
        dev_owner = unwrap_or ''unknown'' (pi_user env),
        dev_security_level = text_or_empty (cr_json C) value ''securityLevel'',
        dev_verified_boot = text_or_empty (cr_json C) value ''verifiedBoot'',
        dev_paired_at = unwrap_or 0 (pi_unix_secs env),
        dev_public_key_pem = text_or_empty (cr_json C) value ''publicKeyPem''\<rparr>
    \<and> (\<forall>name. name = i @ ''.json''
        \<or> load_entry (cr_json C) (dm_files d') name = load_entry (cr_json C) (dm_files d) name)
    \<and> dm_pairings d' = None
    \<and> dm_sent d' = dm_sent d @ [(conn, answer @ [newline])] \<and> newline \<notin> set answer
    \<and> json_from_str (cr_json C) answer = Inr reply
    \<and> json_str_field (cr_json C) reply ''t'' = Some ''pair.result''
    \<and> json_bool_field (cr_json C) reply ''ok'' = Some True
    \<and> json_str_field (cr_json C) reply ''id'' = Some i"
proof -
  let ?J = "cr_json C"
  let ?device = "\<lparr>dev_id = i, dev_name = (if ps_label session = '''' then text_or_empty ?J value ''name''
      else ps_label session), dev_model = text_or_empty ?J value ''model'',
    dev_owner = unwrap_or ''unknown'' (pi_user env),
    dev_security_level = text_or_empty ?J value ''securityLevel'',
    dev_verified_boot = text_or_empty ?J value ''verifiedBoot'',
    dev_paired_at = unwrap_or 0 (pi_unix_secs env),
    dev_public_key_pem = text_or_empty ?J value ''publicKeyPem''\<rparr>"
  let ?reply = "json_object ?J [(''t'', json_string ?J ''pair.result''), (''ok'', json_bool ?J True),
    (''id'', json_string ?J i)]"
  let ?answer = "json_to_string ?J ?reply"
  have dev: "pair_device C env value session = Inr ?device"
    using id load_key_of_key_id [OF id] by (auto simp: pair_device_def Let_def)
  have safe: "safe_id i" by (rule hex_id_safe [OF id laws(3)])
  obtain r files where s: "store_save ?J (dm_store d) calls_ok ?device (dm_files d) = (r, files)"
    by fastforce
  have r: "r = Inr ()"
    using s print [of "device_to_json ?J ?device"] by (auto simp: store_save_def calls_ok_def Let_def)
  have load: "load_entry ?J files (i @ ''.json'') = Some ?device"
    "load_entry ?J files name = load_entry ?J (dm_files d) name" if "name \<noteq> i @ ''.json''" for name
    using load_after_save [OF laws(1,2) _ _ s, of "i @ ''.json''"] load_after_save [OF laws(1,2) _ _ s, of name]
      safe print that
    by (simp_all add: printable_def committed_def calls_ok_def file_for_safe)
  have loaded: "load_entry ?J files (i @ ''.json'') = Some ?device"
    using load(1) [of "''x''"] by (cases "i = ''x''") auto
  let ?d = "d\<lparr>dm_pairings := None, dm_files := files, dm_sent := dm_sent d @ [(conn, ?answer @ [newline])]\<rparr>"
  have "complete_pairing C env line d = (Inr (), ?d)"
    using complete_pairing_admitted [OF adm] s r calls
    by (simp add: dev record_device_def send_line_def Let_def)
  moreover have "newline \<notin> set ?answer"
    using json_to_string_line [OF laws(2)] by (simp add: newline_def)
  moreover have "json_from_str ?J ?answer = Inr ?reply"
    using laws(2) by simp
  ultimately show ?thesis
    using loaded load(2) laws(1)
    by (intro exI [of _ ?d] exI [of _ ?answer] exI [of _ ?reply]) (auto simp: json_field_defs)
qed

text \<open>A concrete pairing: an open session, and a phone that shows its token.\<close>

definition open_session :: PairingSession where
  "open_session = \<lparr>ps_token = [1, 2, 3], ps_uri = ''kpk://pair'', ps_short_code = ''001026'',
     ps_label = ''work phone'', ps_opened = 5\<rparr>"

definition toy_pairing :: "jval daemon" where
  "toy_pairing = (daemon_new \<lparr>st_directory = ''/d''\<rparr> Map.empty)\<lparr>dm_pairings := Some open_session,
     dm_outbound := Some 4\<rparr>"

definition toy_pair_inputs :: pair_inputs where
  "toy_pair_inputs = \<lparr>pi_instant = 60000000000, pi_unix_secs = Some 1700000000, pi_user = Some ''ana'',
     pi_save = calls_ok, pi_written = Inr ()\<rparr>"

definition toy_pair_value :: jval where
  "toy_pair_value = JObject [(''t'', JString ''pair.request''),
     (''token'', JString (b64_encode toy_base64 [1, 2, 3])), (''publicKeyPem'', JString ''KEY'')]"

lemma toy_admitted:
  "admitted toy_crates toy_pair_inputs (show_json toy_pair_value) (dm_pairings toy_pairing)
     toy_pair_value open_session"
  by (simp add: admitted_def toy_pair_value_def toy_pairing_def open_session_def toy_pair_inputs_def
      expired_def window_defs text_or_empty_def json_field_defs)

lemma toy_pair_id:
  "key_id toy_p256 toy_sha256 (text_or_empty toy_json toy_pair_value ''publicKeyPem'') =
     Inr (hex (take 16 (toy_sha256 (as_bytes ''KEY''))))"
  by (simp add: toy_pair_value_def text_or_empty_def json_field_defs key_id_def spki_digest_def
      toy_p256_def ID_BYTES_def)

lemma toy_paired:
  "\<exists>d' device. complete_pairing toy_crates toy_pair_inputs (show_json toy_pair_value) toy_pairing = (Inr (), d')
     \<and> load_entry toy_json (dm_files d') (hex (take 16 (toy_sha256 (as_bytes ''KEY''))) @ ''.json'') = Some device"
proof -
  have calls: "pi_save toy_pair_inputs = calls_ok" "pi_written toy_pair_inputs = Inr ()"
    "dm_outbound toy_pairing = Some 4"
    by (simp_all add: toy_pair_inputs_def toy_pairing_def)
  have "\<exists>body. json_to_string_pretty (cr_json toy_crates) v = Inr body" for v
    using toy_json_printable by simp
  from complete_pairing_enrols [OF _ _ _ toy_admitted _ calls this, of
      "hex (take 16 (toy_sha256 (as_bytes ''KEY'')))"]
  show ?thesis by (auto simp: toy_pair_id)
qed

subsection \<open>Properties: pairing\<close>

text \<open>
  C2. Only an open window lets a phone in: whatever line a peer of the phone port sends, a
  record that loads differently afterwards is the record of one device, and then the line
  carried the token of the session that was open and had not expired, the id is that of the
  key in the record, the key is usable, and the window is closed.
\<close>

theorem new_record_needs_open_window:
  assumes "json_objects_ok (cr_json C)" and "json_text_ok (cr_json C)" and "sha256_ok (cr_sha256 C)"
    and "load_entry (cr_json C) (dm_files (on_phone_message C env w line d)) name
      \<noteq> load_entry (cr_json C) (dm_files d) name"
  shows "\<exists>value session device. admitted C env line (dm_pairings d) value session
    \<and> load_entry (cr_json C) (dm_files (on_phone_message C env w line d)) name = Some device
    \<and> name = file_for (dev_id device)
    \<and> key_id (cr_p256 C) (cr_sha256 C) (dev_public_key_pem device) = Inr (dev_id device)
    \<and> dev_public_key_pem device = text_or_empty (cr_json C) value ''publicKeyPem''
    \<and> dm_pairings (on_phone_message C env w line d) = None"
proof -
  let ?d' = "on_phone_message C env w line d"
  have pair: "message_kind (cr_json C) line = Some ''pair.request''"
    using assms(4) by (auto simp: on_phone_message_def split: if_splits)
  obtain r d1 where c: "complete_pairing C env line d = (r, d1)" by fastforce
  have same: "dm_files ?d' = dm_files d1 \<and> dm_pairings ?d' = dm_pairings d1"
    using pair c by (simp add: on_phone_message_def split: sum.splits)
  obtain v session where adm: "admitted C env line (dm_pairings d) v session"
    using complete_pairing_refused [OF _ c] assms(4) same by metis
  obtain device where dev: "pair_device C env v session = Inr device"
    and rec: "record_device C env device (d\<lparr>dm_pairings := None\<rparr>) = (r, d1)"
    using complete_pairing_admitted [OF adm] c assms(4) same by (auto split: sum.splits)
  note id = pair_device_InrD [OF dev]
  have safe: "safe_id (dev_id device)"
    using hex_id_safe id assms(3) by blast
  have "name = file_for (dev_id device) \<and> load_entry (cr_json C) (dm_files d1) name = Some device"
    using record_device_files [OF assms(1,2) safe rec, of name] assms(4) same by auto
  moreover have "dm_pairings d1 = None"
    using record_device_pairings [OF rec] by simp
  ultimately show ?thesis
    using adm id same by (intro exI [of _ v] exI [of _ session] exI [of _ device]) auto
qed

theorem new_record_needs_open_window_witness:
  "\<exists>name value session device. admitted toy_crates toy_pair_inputs (show_json toy_pair_value)
       (dm_pairings toy_pairing) value session
     \<and> load_entry toy_json (dm_files (on_phone_message toy_crates toy_pair_inputs (Inr ())
         (show_json toy_pair_value) toy_pairing)) name = Some device
     \<and> name = file_for (dev_id device)"
proof -
  let ?name = "hex (take 16 (toy_sha256 (as_bytes ''KEY''))) @ ''.json''"
  obtain d' device where c: "complete_pairing toy_crates toy_pair_inputs (show_json toy_pair_value) toy_pairing = (Inr (), d')"
    and l: "load_entry toy_json (dm_files d') ?name = Some device"
    using toy_paired by blast
  have k: "message_kind toy_json (show_json toy_pair_value) = Some ''pair.request''"
    by (simp add: message_kind_def toy_pair_value_def json_field_defs)
  have o: "on_phone_message toy_crates toy_pair_inputs (Inr ()) (show_json toy_pair_value) toy_pairing = d'"
    by (simp add: on_phone_message_def k c)
  have "load_entry toy_json (dm_files toy_pairing) ?name = None"
    by (simp add: load_entry_def toy_pairing_def daemon_new_def)
  with l have "load_entry (cr_json toy_crates) (dm_files (on_phone_message toy_crates toy_pair_inputs (Inr ())
      (show_json toy_pair_value) toy_pairing)) ?name \<noteq> load_entry (cr_json toy_crates) (dm_files toy_pairing) ?name"
    by (simp add: o)
  from new_record_needs_open_window [OF _ _ _ this] show ?thesis
    using toy_json_objects toy_json_text toy_sha256_ok unfolding toy_crates_simps by blast
qed

text \<open>
  C16. A phone that shows the open session's token and a usable key is enrolled. When the
  record can be printed, the system calls of \<open>save\<close> succeed, a phone is connected and the
  write to it succeeds: the handler reports success; the file named after the id of the key
  loads as a record with that id, the very key the phone sent, the label the user chose (or
  the phone's name when there is none), the phone's model and attestation levels, the user and
  the time; every other record is as before; the window is closed; and one line is written, to the connected phone, an
  object that reads back as \<open>pair.result\<close>, \<open>ok: true\<close> and that id.
\<close>

theorem pairing_enrols_device:
  assumes laws: "json_objects_ok (cr_json C)" "json_text_ok (cr_json C)" "sha256_ok (cr_sha256 C)"
    and adm: "admitted C env line (dm_pairings d) value session"
    and id: "key_id (cr_p256 C) (cr_sha256 C) (text_or_empty (cr_json C) value ''publicKeyPem'') = Inr i"
    and calls: "pi_save env = calls_ok" "pi_written env = Inr ()" "dm_outbound d = Some conn"
    and print: "\<And>v. \<exists>body. json_to_string_pretty (cr_json C) v = Inr body"
  shows "\<exists>d' answer reply. complete_pairing C env line d = (Inr (), d')
    \<and> load_entry (cr_json C) (dm_files d') (i @ ''.json'') = Some \<lparr>dev_id = i,
        dev_name = (if ps_label session = '''' then text_or_empty (cr_json C) value ''name''
          else ps_label session),
        dev_model = text_or_empty (cr_json C) value ''model'',
        dev_owner = unwrap_or ''unknown'' (pi_user env),
        dev_security_level = text_or_empty (cr_json C) value ''securityLevel'',
        dev_verified_boot = text_or_empty (cr_json C) value ''verifiedBoot'',
        dev_paired_at = unwrap_or 0 (pi_unix_secs env),
        dev_public_key_pem = text_or_empty (cr_json C) value ''publicKeyPem''\<rparr>
    \<and> (\<forall>name. name = i @ ''.json''
        \<or> load_entry (cr_json C) (dm_files d') name = load_entry (cr_json C) (dm_files d) name)
    \<and> dm_pairings d' = None
    \<and> dm_sent d' = dm_sent d @ [(conn, answer @ [newline])] \<and> newline \<notin> set answer
    \<and> json_from_str (cr_json C) answer = Inr reply
    \<and> json_str_field (cr_json C) reply ''t'' = Some ''pair.result''
    \<and> json_bool_field (cr_json C) reply ''ok'' = Some True
    \<and> json_str_field (cr_json C) reply ''id'' = Some i"
  by (rule complete_pairing_enrols [OF laws adm id calls print])

theorem pairing_enrols_device_witness:
  "\<exists>d' device answer. complete_pairing toy_crates toy_pair_inputs (show_json toy_pair_value) toy_pairing = (Inr (), d')
     \<and> load_entry toy_json (dm_files d') (hex (take 16 (toy_sha256 (as_bytes ''KEY''))) @ ''.json'') = Some device
     \<and> dev_name device = ''work phone'' \<and> dev_public_key_pem device = ''KEY'' \<and> dev_owner device = ''ana''
     \<and> dm_pairings d' = None \<and> dm_sent d' = [(4, answer @ [newline])]"
proof -
  note toy = toy_pair_inputs_def toy_pairing_def open_session_def daemon_new_def toy_pair_value_def
  have calls: "pi_save toy_pair_inputs = calls_ok" "pi_written toy_pair_inputs = Inr ()"
    "dm_outbound toy_pairing = Some 4"
    by (simp_all add: toy_pair_inputs_def toy_pairing_def)
  have printed: "\<exists>body. json_to_string_pretty (cr_json toy_crates) v = Inr body" for v
    using toy_json_printable by simp
  have fields: "ps_label open_session = ''work phone''" "pi_user toy_pair_inputs = Some ''ana''"
    "text_or_empty toy_json toy_pair_value ''publicKeyPem'' = ''KEY''" "dm_sent toy_pairing = []"
    by (simp_all add: toy text_or_empty_def json_field_defs)
  have id: "key_id (cr_p256 toy_crates) (cr_sha256 toy_crates)
      (text_or_empty (cr_json toy_crates) toy_pair_value ''publicKeyPem'') =
      Inr (hex (take 16 (toy_sha256 (as_bytes ''KEY''))))"
    using toy_pair_id by simp
  have laws: "json_objects_ok (cr_json toy_crates)" "json_text_ok (cr_json toy_crates)"
    "sha256_ok (cr_sha256 toy_crates)" by simp_all
  from pairing_enrols_device [OF laws toy_admitted id calls printed] fields
  show ?thesis
    unfolding toy_crates_simps by force
qed

subsection \<open>Properties: System Settings\<close>

text \<open>
  C36. Removing a device over D-Bus: the change signal is sent exactly when a record was
  removed, a failed call changes nothing, and afterwards no record of that id is listed while
  every other record is untouched.
\<close>

theorem remove_device_signals_change:
  assumes "manager_remove_device st unlinked i files = (r, files', signalled)"
  shows "(signalled \<longleftrightarrow> r = Inr True) \<and> (r = Inr True \<longleftrightarrow> files (file_for i) \<noteq> None \<and> \<not> is_err unlinked)
    \<and> (r \<noteq> Inr True \<longrightarrow> files' = files)
    \<and> (\<not> (\<exists>e. r = Inl e) \<longrightarrow> load_entry J files' name =
         (if name = file_for i then None else load_entry J files name))"
proof (cases "files (file_for i)")
  case None
  then have e: "r = Inr False \<and> files' = files \<and> \<not> signalled"
    using assms by (auto simp: manager_remove_device_def store_remove_def fdo_failed_def)
  show ?thesis
    unfolding e [THEN conjunct1] using None e by (simp add: load_entry_def)
next
  case (Some c)
  show ?thesis
  proof (cases unlinked)
    case (Inl err)
    then have e: "(\<exists>m. r = Inl m) \<and> files' = files \<and> \<not> signalled"
      using assms Some by (auto simp: manager_remove_device_def store_remove_def fdo_failed_def Let_def)
    then show ?thesis using Inl by auto
  next
    case (Inr u)
    then have e: "r = Inr True \<and> files' = files(file_for i := None) \<and> signalled"
      using assms Some by (auto simp: manager_remove_device_def store_remove_def fdo_failed_def Let_def)
    then show ?thesis
      unfolding e [THEN conjunct1] using Inr Some by (simp add: load_entry_def)
  qed
qed

theorem remove_device_signals_change_witness:
  "\<exists>files'. manager_remove_device \<lparr>st_directory = ''/d''\<rparr> (Inr ()) ''a1'' sample_files = (Inr True, files', True)
     \<and> load_entry toy_json files' ''a1.json'' = None"
proof -
  have "file_for ''a1'' = ''a1.json''" by (simp add: file_for_safe sample_id)
  moreover obtain r files' b where m:
    "manager_remove_device \<lparr>st_directory = ''/d''\<rparr> (Inr ()) ''a1'' sample_files = (r, files', b)"
    by (metis prod_cases3)
  ultimately show ?thesis
    using remove_device_signals_change [OF m, of toy_json "''a1.json''"] by (auto simp: sample_files_def)
qed

text \<open>
  What System Settings lists: one entry per readable record, in the order the records
  were paired, each with its own id and name and the fingerprint of its own key, or a fixed
  text when that key cannot be read.
\<close>

lemma manager_lists_devices:
  assumes "lists_directory entries files"
  shows "\<exists>des. manager_list_devices J K H st files (Inr entries) = Inr des
    \<and> sorted (map de_paired_at des)
    \<and> set des = {de. \<exists>name dev. load_entry J files name = Some dev \<and> de_id de = dev_id dev
        \<and> de_name de = dev_name dev \<and> de_model de = dev_model dev \<and> de_owner de = dev_owner dev
        \<and> de_security_level de = dev_security_level dev \<and> de_verified_boot de = dev_verified_boot dev
        \<and> de_paired_at de = dev_paired_at dev
        \<and> de_fingerprint de = (case key_fingerprint K H (dev_public_key_pem dev) of
             Inl e \<Rightarrow> ''unreadable key'' | Inr shown \<Rightarrow> shown)}"
    (is "\<exists>des. _ \<and> _ \<and> set des = ?entries")
proof -
  obtain ds where ds: "list_devices J st files (Inr entries) = Inr ds"
    using list_total by blast
  have m: "manager_list_devices J K H st files (Inr entries) = Inr (map (device_entry K H) ds)"
    by (simp add: manager_list_devices_def ds fdo_failed_def)
  have "de_paired_at \<circ> device_entry K H = dev_paired_at"
    by (rule ext) (simp add: device_entry_def)
  then have "map de_paired_at (map (device_entry K H) ds) = map dev_paired_at ds"
    by simp
  moreover have "sorted (map dev_paired_at ds)"
    using list_InrD [OF ds] by auto
  ultimately have sorted: "sorted (map de_paired_at (map (device_entry K H) ds))"
    by (simp only:)
  have entry: "de = device_entry K H dev \<longleftrightarrow> de_id de = dev_id dev
        \<and> de_name de = dev_name dev \<and> de_model de = dev_model dev \<and> de_owner de = dev_owner dev
        \<and> de_security_level de = dev_security_level dev \<and> de_verified_boot de = dev_verified_boot dev
        \<and> de_paired_at de = dev_paired_at dev
        \<and> de_fingerprint de = (case key_fingerprint K H (dev_public_key_pem dev) of
             Inl e \<Rightarrow> ''unreadable key'' | Inr shown \<Rightarrow> shown)" for de :: DeviceEntry and dev
    by (cases de) (auto simp: device_entry_def)
  have "set (map (device_entry K H) ds) = ?entries"
    using set_list_devices [OF assms ds] by (auto simp: entry [symmetric])
  then show ?thesis using m sorted by blast
qed

lemma manager_lists_devices_witness:
  "\<exists>des. manager_list_devices toy_json toy_p256 toy_sha256 \<lparr>st_directory = ''/d''\<rparr> sample_files
      (Inr [Inr ''notes.txt'', Inr ''a1.json'']) = Inr des \<and> (\<exists>de \<in> set des. de_id de = ''a1'')"
proof -
  have "lists_directory [Inr ''notes.txt'', Inr ''a1.json''] sample_files"
    by (auto simp: lists_directory_def sample_files_def split: if_splits)
  from manager_lists_devices [OF this, of toy_json toy_p256 toy_sha256 "\<lparr>st_directory = ''/d''\<rparr>"]
  obtain des where m: "manager_list_devices toy_json toy_p256 toy_sha256 \<lparr>st_directory = ''/d''\<rparr> sample_files
      (Inr [Inr ''notes.txt'', Inr ''a1.json'']) = Inr des"
    and "device_entry toy_p256 toy_sha256 (sample_device ''a1'' 3) \<in> set des"
    by (auto simp: device_entry_def sample_load)
  then show ?thesis
    by (intro exI [of _ des] conjI bexI [of _ "device_entry toy_p256 toy_sha256 (sample_device ''a1'' 3)"])
      (simp_all add: device_entry_def sample_id)
qed

subsection \<open>Properties: the socket\<close>

lemma object_braced: "json_text_ok J \<Longrightarrow> braced (json_to_string J (json_object J kvs))"
  using json_object_braces [of J kvs] by (simp add: braced_def)

text \<open>A line the daemon or a client writes is read back as the value it was printed from.\<close>

lemma read_json_line:
  assumes "json_text_ok J" and "json_built J (json_object J kvs)"
    and "utf8_valid (map code (json_to_string J (json_object J kvs) @ [newline]))"
  shows "\<exists>line. fst (read_line (json_to_string J (json_object J kvs) @ [newline])) = Inr line
    \<and> json_from_str J (trim line) = Inr (json_object J kvs)"
proof -
  have "newline \<notin> set (json_to_string J (json_object J kvs))"
    using json_to_string_line [OF assms(1,2)] by (simp add: newline_def)
  then show ?thesis
    using read_line_one [of "json_to_string J (json_object J kvs)" "[]"] assms
      object_braced [OF assms(1), of kvs]
    by simp
qed

text \<open>
  C19. The verdict a client reads is the one the daemon reached: success is read as success,
  and a failure as a denial with the whole chain of reasons, so no error is ever read as
  approval.
\<close>

theorem verdict_round_trip:
  assumes "json_objects_ok J" and "json_text_ok J" and "utf8_valid (map code (verdict_line J outcome))"
  shows "probe_verdict J (verdict_line J outcome) =
    (case outcome of
       Inr _ \<Rightarrow> Inr ()
     | Inl e \<Rightarrow> bail (''DENIED ('' @ display_chain e @ '')''))"
proof (cases outcome)
  case (Inl e)
  let ?kvs = "[(''ok'', json_bool J False), (''reason'', json_string J (display_chain e))]"
  obtain line where l: "fst (read_line (json_to_string J (json_object J ?kvs) @ [newline])) = Inr line"
    and v: "json_from_str J (trim line) = Inr (json_object J ?kvs)"
    using read_json_line [OF assms(2), of ?kvs] assms(3) Inl
    by (auto simp: verdict_line_def verdict_json_def)
  then show ?thesis
    using Inl assms(1) by (simp add: probe_verdict_def verdict_line_def verdict_json_def json_field_defs)
next
  case (Inr u)
  let ?kvs = "[(''ok'', json_bool J True), (''reason'', json_string J ''success'')]"
  obtain line where l: "fst (read_line (json_to_string J (json_object J ?kvs) @ [newline])) = Inr line"
    and v: "json_from_str J (trim line) = Inr (json_object J ?kvs)"
    using read_json_line [OF assms(2), of ?kvs] assms(3) Inr
    by (auto simp: verdict_line_def verdict_json_def)
  then show ?thesis
    using Inr assms(1) by (simp add: probe_verdict_def verdict_line_def verdict_json_def json_field_defs)
qed

text \<open>
  C32. What a client asks for is what the daemon verifies: the request \<open>pam-probe\<close> writes is
  read as a verification for the same user, action and detail; a peer whose credentials cannot
  be read is refused before its request is.
\<close>

theorem pam_request_round_trip:
  assumes "json_objects_ok J" and "json_text_ok J"
    and "utf8_valid (map code (probe_request J user action detail))"
  shows "pam_request J peer (probe_request J user action detail) =
    (case peer of
       Inr uid \<Rightarrow> Inr (PamVerify (unwrap_or ''unknown'' user) action detail)
     | Inl e \<Rightarrow> Inl (''reading peer credentials'' # e))"
proof -
  let ?kvs = "[(''user'', json_string J (unwrap_or ''unknown'' user)),
        (''action'', json_string J action), (''detail'', json_string J detail)]"
  obtain line where l: "fst (read_line (json_to_string J (json_object J ?kvs) @ [newline])) = Inr line"
    and v: "json_from_str J (trim line) = Inr (json_object J ?kvs)"
    using read_json_line [OF assms(2), of ?kvs] assms(3) by (auto simp: probe_request_def)
  then show ?thesis
    using assms(1)
    by (cases peer) (simp_all add: pam_request_def probe_request_def json_field_defs starts_with_def Let_def)
qed

theorem verdict_round_trip_witness:
  "probe_verdict toy_json (verdict_line toy_json (Inl [''signature does not verify'', ''signature error''])) =
     bail ''DENIED (signature does not verify: signature error)''"
proof -
  have "utf8_valid (map code (verdict_line toy_json (Inl [''signature does not verify'', ''signature error''])))"
    by (simp add: verdict_line_def verdict_json_def show_json.simps quote_def newline_def)
  from verdict_round_trip [OF toy_json_objects toy_json_text this] show ?thesis by simp
qed

theorem pam_request_round_trip_witness:
  "pam_request toy_json (Inr 1000) (probe_request toy_json (Some ''ana'') ''sudo'' ''ls'') =
     Inr (PamVerify ''ana'' ''sudo'' ''ls'')"
proof -
  have "utf8_valid (map code (probe_request toy_json (Some ''ana'') ''sudo'' ''ls''))"
    by (simp add: probe_request_def show_json.simps quote_def newline_def)
  from pam_request_round_trip [OF toy_json_objects toy_json_text this] show ?thesis by simp
qed

end
