(* ===== verification/Fidolink.thy ===== *)
theory Fidolink
  imports Enrolment
begin

text \<open>
  \<open>daemon/crates/kpk-spike/src/fidolink.rs\<close>: the FIDO helper's requests to the daemon over
  its Unix socket. The socket calls are inputs, and the daemon's side is a function from the
  line sent to what reading the socket gives.
\<close>

definition DEFAULT_SOCKET :: path where
  "DEFAULT_SOCKET = ''/run/kpasskey/pam.sock''"

record NewCredential =
  nc_credential_id :: string
  nc_public_key_pem :: string

record socket_calls =
  so_connect :: "unit result"
  so_clone :: "unit result"
  so_write :: "unit result"
  so_answer :: "string \<Rightarrow> string result"

definition link_request :: "'v serde_json \<Rightarrow> socket_calls \<Rightarrow> 'v \<Rightarrow> 'v result" where
  "link_request J io body =
     tryR (with_context (''connecting to '' @ DEFAULT_SOCKET) (so_connect io)) (\<lambda>_.
     tryR (with_context ''cloning the daemon socket'' (so_clone io)) (\<lambda>_.
     tryR (with_context ''sending the request to the daemon'' (so_write io)) (\<lambda>_.
     tryR (with_context ''reading the daemon's reply''
             (tryR (so_answer io (json_to_string J body @ [newline])) (\<lambda>stream. fst (read_line stream))))
       (\<lambda>line.
     tryR (with_context ''daemon sent invalid JSON'' (json_from_str J (trim line))) (\<lambda>reply.
       if \<not> unwrap_or False (json_bool_field J reply ''ok'')
       then bail (unwrap_or ''refused'' (json_str_field J reply ''error''))
       else Inr reply)))))"

definition link_field :: "'v serde_json \<Rightarrow> 'v \<Rightarrow> string \<Rightarrow> string result" where
  "link_field J reply name = ok_or (''daemon reply has no '' @ name) (json_str_field J reply name)"

definition makecred_body :: "'v serde_json \<Rightarrow> string \<Rightarrow> string \<Rightarrow> 'v" where
  "makecred_body J rp_id user_name = json_object J
     [(''op'', json_string J ''webauthn.makecred''), (''rpId'', json_string J rp_id),
      (''userName'', json_string J user_name)]"

definition link_make_credential ::
  "'v serde_json \<Rightarrow> socket_calls \<Rightarrow> string \<Rightarrow> string \<Rightarrow> NewCredential result" where
  "link_make_credential J io rp_id user_name =
     tryR (link_request J io (makecred_body J rp_id user_name)) (\<lambda>reply.
     tryR (link_field J reply ''credId'') (\<lambda>credential_id.
     tryR (link_field J reply ''publicKeyPem'') (\<lambda>public_key_pem.
       Inr \<lparr>nc_credential_id = credential_id, nc_public_key_pem = public_key_pem\<rparr>)))"

definition assert_body :: "'v serde_json \<Rightarrow> string \<Rightarrow> string \<Rightarrow> string \<Rightarrow> 'v" where
  "assert_body J rp_id credential_id payload_b64 = json_object J
     [(''op'', json_string J ''webauthn.assert''), (''rpId'', json_string J rp_id),
      (''credId'', json_string J credential_id), (''payload'', json_string J payload_b64)]"

definition link_assert ::
  "'v serde_json \<Rightarrow> socket_calls \<Rightarrow> string \<Rightarrow> string \<Rightarrow> string \<Rightarrow> string result" where
  "link_assert J io rp_id credential_id payload_b64 =
     tryR (link_request J io (assert_body J rp_id credential_id payload_b64))
       (\<lambda>reply. link_field J reply ''sig'')"

subsection \<open>Lemmas\<close>

definition calls_through :: "socket_calls \<Rightarrow> bool" where
  "calls_through io \<longleftrightarrow> so_connect io = Inr () \<and> so_clone io = Inr () \<and> so_write io = Inr ()"

text \<open>What the helper makes of a line the daemon writes back.\<close>

lemma link_request_reply:
  assumes "calls_through io" and "so_answer io (json_to_string J body @ [newline]) = Inr stream"
    and "fst (read_line stream) = Inr line" and "json_from_str J (trim line) = Inr reply"
  shows "link_request J io body =
    (if unwrap_or False (json_bool_field J reply ''ok'') then Inr reply
     else bail (unwrap_or ''refused'' (json_str_field J reply ''error'')))"
  using assms by (simp add: link_request_def calls_through_def)

definition utf8_text :: "string \<Rightarrow> bool" where
  "utf8_text s \<longleftrightarrow> utf8_valid (map code s)"

lemma body_read_by_daemon:
  assumes "json_objects_ok J" and "json_text_ok J"
  shows "utf8_text (json_to_string J (makecred_body J rp user) @ [newline]) \<Longrightarrow>
      pam_request J (Inr uid) (json_to_string J (makecred_body J rp user) @ [newline]) =
        Inr (PamWebauthn (MakeCredentialCall rp user))"
    and "utf8_text (json_to_string J (assert_body J rp cred payload) @ [newline]) \<Longrightarrow>
      pam_request J (Inr uid) (json_to_string J (assert_body J rp cred payload) @ [newline]) =
        Inr (PamWebauthn (AssertCall rp cred payload))"
proof -
  assume u: "utf8_text (json_to_string J (makecred_body J rp user) @ [newline])"
  obtain line where "fst (read_line (json_to_string J (makecred_body J rp user) @ [newline])) = Inr line"
    and "json_from_str J (trim line) = Inr (makecred_body J rp user)"
    using read_json_line [OF assms(2), of "[(''op'', json_string J ''webauthn.makecred''),
      (''rpId'', json_string J rp), (''userName'', json_string J user)]"] u
    by (auto simp: makecred_body_def utf8_text_def)
  then show "pam_request J (Inr uid) (json_to_string J (makecred_body J rp user) @ [newline]) =
        Inr (PamWebauthn (MakeCredentialCall rp user))"
    using assms(1) by (simp add: pam_request_def json_field_defs starts_with_def Let_def makecred_body_def)
next
  assume u: "utf8_text (json_to_string J (assert_body J rp cred payload) @ [newline])"
  obtain line where "fst (read_line (json_to_string J (assert_body J rp cred payload) @ [newline])) = Inr line"
    and "json_from_str J (trim line) = Inr (assert_body J rp cred payload)"
    using read_json_line [OF assms(2), of "[(''op'', json_string J ''webauthn.assert''),
      (''rpId'', json_string J rp), (''credId'', json_string J cred), (''payload'', json_string J payload)]"] u
    by (auto simp: assert_body_def utf8_text_def)
  then show "pam_request J (Inr uid) (json_to_string J (assert_body J rp cred payload) @ [newline]) =
        Inr (PamWebauthn (AssertCall rp cred payload))"
    using assms(1) by (simp add: pam_request_def json_field_defs starts_with_def Let_def assert_body_def)
qed

subsection \<open>Properties\<close>

text \<open>
  C18. The helper and the daemon agree on the WebAuthn calls: the line the helper sends is
  read by the daemon as the call it made, and what the helper returns is the daemon's answer
  for that call: the credential or signature the phone returned, or its refusal with the
  whole chain of reasons. Nothing the daemon answers as a failure is read as a credential.
\<close>

theorem webauthn_call_round_trip:
  assumes "json_objects_ok (cr_json C)" and "json_text_ok (cr_json C)" and "calls_through io"
    and answer: "\<And>line. so_answer io line =
      (case pam_request (cr_json C) (Inr uid) line of
         Inr (PamWebauthn call) \<Rightarrow>
           Inr (webauthn_line (cr_json C) (tryR outcome (webauthn_answer C call)))
       | _ \<Rightarrow> bail ''closed'')"
    and "utf8_text (json_to_string (cr_json C) (assert_body (cr_json C) rp cred payload) @ [newline])"
    and "utf8_text (webauthn_line (cr_json C) (tryR outcome (assert_answer C)))"
  shows "link_assert (cr_json C) io rp cred payload =
    (case outcome of
       Inl e \<Rightarrow> bail (display_chain e)
     | Inr reply \<Rightarrow>
         (case json_str_field (cr_json C) reply ''sig'' of
            Some signature \<Rightarrow> Inr signature
          | None \<Rightarrow> bail ''phone returned no signature''))"
proof -
  let ?J = "cr_json C"
  let ?r = "tryR outcome (assert_answer C)"
  have pam: "pam_request ?J (Inr uid) (json_to_string ?J (assert_body ?J rp cred payload) @ [newline]) =
        Inr (PamWebauthn (AssertCall rp cred payload))"
    by (rule body_read_by_daemon(2) [OF assms(1,2,5)])
  have ans: "webauthn_answer C (AssertCall rp cred payload) = assert_answer C"
    by (rule ext) (simp add: webauthn_answer_def)
  have stream: "so_answer io (json_to_string ?J (assert_body ?J rp cred payload) @ [newline]) =
      Inr (webauthn_line ?J ?r)"
    using ans by (simp add: answer pam)
  have obj: "\<exists>kvs. webauthn_json ?J ?r = json_object ?J kvs \<and> json_built ?J (json_object ?J kvs)"
  proof (cases ?r)
    case (Inl e)
    show ?thesis
      unfolding Inl by (intro exI [of _ "[(''ok'', json_bool ?J False),
        (''error'', json_string ?J (display_chain e))]"]) (simp add: webauthn_json_def)
  next
    case (Inr v)
    then obtain signature where
      "v = json_object ?J [(''ok'', json_bool ?J True), (''sig'', json_string ?J signature)]"
      by (auto simp: assert_answer_def result_simps Let_def)
    then show ?thesis
      unfolding Inr by (intro exI [of _ "[(''ok'', json_bool ?J True),
        (''sig'', json_string ?J signature)]"]) (simp add: webauthn_json_def)
  qed
  then obtain kvs where kvs: "webauthn_json ?J ?r = json_object ?J kvs" "json_built ?J (json_object ?J kvs)"
    by blast
  obtain line where l: "fst (read_line (webauthn_line ?J ?r)) = Inr line"
      "json_from_str ?J (trim line) = Inr (webauthn_json ?J ?r)"
    using read_json_line [OF assms(2) kvs(2)] assms(6) kvs(1)
    by (auto simp: webauthn_line_def utf8_text_def)
  note reply = link_request_reply [OF assms(3) stream l]
  show ?thesis
  proof (cases outcome)
    case (Inl e)
    then show ?thesis
      using assms(1) by (simp add: link_assert_def reply webauthn_json_def json_field_defs)
  next
    case (Inr v)
    then show ?thesis
      using assms(1)
      by (cases "json_str_field ?J v ''sig''")
        (simp_all add: link_assert_def reply webauthn_json_def assert_answer_def link_field_def Let_def
          json_bool_field_def, simp_all add: json_str_field_def)
  qed
qed

definition toy_socket :: "jval result \<Rightarrow> socket_calls" where
  "toy_socket outcome = \<lparr>so_connect = Inr (), so_clone = Inr (), so_write = Inr (),
     so_answer = (\<lambda>line. case pam_request toy_json (Inr 0) line of
         Inr (PamWebauthn call) \<Rightarrow>
           Inr (webauthn_line toy_json (tryR outcome (webauthn_answer toy_crates call)))
       | _ \<Rightarrow> bail ''closed'')\<rparr>"

theorem webauthn_call_round_trip_witness:
  "link_assert toy_json (toy_socket (Inr (JObject [(''sig'', JString ''c2ln'')]))) ''a.org'' ''Y3JlZA'' ''cA'' = Inr ''c2ln''"
proof -
  let ?outcome = "Inr (JObject [(''sig'', JString ''c2ln'')]) :: jval result"
  have c: "calls_through (toy_socket ?outcome)"
    by (simp add: calls_through_def toy_socket_def)
  have u1: "utf8_text (json_to_string toy_json (assert_body toy_json ''a.org'' ''Y3JlZA'' ''cA'') @ [newline])"
    by (simp add: utf8_text_def assert_body_def show_json.simps quote_def newline_def)
  have u2: "utf8_text (webauthn_line toy_json (tryR ?outcome (assert_answer toy_crates)))"
    by (simp add: utf8_text_def webauthn_line_def webauthn_json_def assert_answer_def json_field_defs
        show_json.simps quote_def newline_def)
  have a: "so_answer (toy_socket ?outcome) line =
      (case pam_request (cr_json toy_crates) (Inr 0) line of
         Inr (PamWebauthn call) \<Rightarrow>
           Inr (webauthn_line (cr_json toy_crates) (tryR ?outcome (webauthn_answer toy_crates call)))
       | _ \<Rightarrow> bail ''closed'')" for line
    by (simp only: toy_socket_def toy_crates_simps socket_calls.simps)
  have "link_assert (cr_json toy_crates) (toy_socket ?outcome) ''a.org'' ''Y3JlZA'' ''cA'' =
    (case ?outcome of
       Inl e \<Rightarrow> bail (display_chain e)
     | Inr reply \<Rightarrow>
         (case json_str_field (cr_json toy_crates) reply ''sig'' of
            Some signature \<Rightarrow> Inr signature
          | None \<Rightarrow> bail ''phone returned no signature''))"
    by (rule webauthn_call_round_trip [OF _ _ c a]) (simp_all only: toy_crates_simps toy_json_objects toy_json_text u1 u2)
  then show ?thesis
    by (simp add: json_field_defs)
qed

end
