(* ===== verification/Uhid.thy ===== *)
theory Uhid
  imports Framing Fidolink
begin

text \<open>
  The rest of \<open>daemon/crates/kpk-spike/src/uhid.rs\<close>: the events of \<open>/dev/uhid\<close>, the two
  WebAuthn commands, and the event loop. Reads and writes of the device are inputs, as is
  how often waiting for the phone times out; the byte order of the target is a parameter.
\<close>

subsection \<open>Events\<close>

definition UHID_PATH :: path where "UHID_PATH = ''/dev/uhid''"
definition UHID_START :: u32 where "UHID_START = 2"
definition UHID_STOP :: u32 where "UHID_STOP = 3"
definition UHID_OPEN :: u32 where "UHID_OPEN = 4"
definition UHID_CLOSE :: u32 where "UHID_CLOSE = 5"
definition UHID_OUTPUT :: u32 where "UHID_OUTPUT = 6"
definition UHID_CREATE2 :: u32 where "UHID_CREATE2 = 11"
definition UHID_INPUT2 :: u32 where "UHID_INPUT2 = 12"
definition UHID_DATA_MAX :: nat where "UHID_DATA_MAX = 4096"
definition UHID_EVENT_SIZE :: nat where "UHID_EVENT_SIZE = 4 + 4372"

lemmas uhid_consts = UHID_START_def UHID_STOP_def UHID_OPEN_def UHID_CLOSE_def UHID_OUTPUT_def
  UHID_CREATE2_def UHID_INPUT2_def UHID_DATA_MAX_def UHID_EVENT_SIZE_def

definition FIDO_REPORT_DESCRIPTOR :: bytes where
  "FIDO_REPORT_DESCRIPTOR =
     [0x06, 0xd0, 0xf1, 0x09, 0x01, 0xa1, 0x01, 0x09, 0x20, 0x15, 0x00, 0x26, 0xff, 0x00,
      0x75, 0x08, 0x95, 0x40, 0x81, 0x02, 0x09, 0x21, 0x15, 0x00, 0x26, 0xff, 0x00,
      0x75, 0x08, 0x95, 0x40, 0x91, 0x02, 0xc0]"

definition create_event :: "bool \<Rightarrow> bytes result" where
  "create_event big =
     tryR (put_bytes (replicate UHID_EVENT_SIZE 0) 0 (to_ne_bytes big UHID_CREATE2)) (\<lambda>event.
     tryR (put_bytes event 4 (as_bytes ''kpasskey virtual authenticator'')) (\<lambda>event.
     let rd_size_offset = 4 + 128 + 64 + 64 in
     tryR (with_context ''report descriptor is too long''
             (u16_try_from (length FIDO_REPORT_DESCRIPTOR))) (\<lambda>descriptor_length.
     tryR (put_bytes event rd_size_offset (to_ne_bytes big descriptor_length)) (\<lambda>event.
     tryR (put_bytes event (rd_size_offset + 2) (to_ne_bytes big (3 :: u16))) (\<lambda>event.
     tryR (put_bytes event (rd_size_offset + 4) (to_ne_bytes big (0x1209 :: u32))) (\<lambda>event.
     tryR (put_bytes event (rd_size_offset + 8) (to_ne_bytes big (0x0001 :: u32))) (\<lambda>event.
     tryR (put_bytes event (rd_size_offset + 12) (to_ne_bytes big (1 :: u32))) (\<lambda>event.
     tryR (put_bytes event (rd_size_offset + 16) (to_ne_bytes big (0 :: u32))) (\<lambda>event.
       put_bytes event (rd_size_offset + 20) FIDO_REPORT_DESCRIPTOR)))))))))"

definition input_event :: "bool \<Rightarrow> bytes \<Rightarrow> bytes result" where
  "input_event big report =
     (if UHID_DATA_MAX < length report then bail ''report is larger than the uhid maximum''
      else
        tryR (put_bytes (replicate UHID_EVENT_SIZE 0) 0 (to_ne_bytes big UHID_INPUT2)) (\<lambda>event.
        tryR (with_context ''report length overflow'' (u16_try_from (length report))) (\<lambda>size.
        tryR (put_bytes event 4 (to_ne_bytes big size)) (\<lambda>event.
          put_bytes event 6 report))))"

subsection \<open>The WebAuthn commands\<close>

record ('v, 'pk, 'vk, 'sig) helper =
  he_crates :: "('v, 'pk, 'vk, 'sig) crates"
  he_cbor :: ciborium
  he_socket :: socket_calls
  he_big_endian :: bool

definition ctap_reply :: "bytes result \<Rightarrow> byte \<Rightarrow> bytes" where
  "ctap_reply r failure = (case r of Inr body \<Rightarrow> CTAP2_OK # body | Inl e \<Rightarrow> [failure])"

definition created_auth_data :: "(bytes \<Rightarrow> bytes) \<Rightarrow> string \<Rightarrow> bytes \<Rightarrow> bytes" where
  "created_auth_data sha256 rp_id attested =
     authenticator_data sha256 rp_id
       (FLAG_USER_PRESENT OR FLAG_USER_VERIFIED OR FLAG_ATTESTED) 0 (Some attested)"

definition create_credential :: "('v, 'pk, 'vk, 'sig) helper \<Rightarrow> bytes \<Rightarrow> bytes result" where
  "create_credential H body =
     (let C = he_crates H; K = cr_p256 C in
      tryR (parse_make_credential (he_cbor H) body) (\<lambda>request.
      tryR (link_make_credential (cr_json C) (he_socket H) (mc_rp_id request) (mc_user_name request))
        (\<lambda>created.
      tryR (with_context ''phone returned a credential id that is not base64url''
              (b64_decode (cr_b64url C) (nc_credential_id created))) (\<lambda>credential_id.
      tryR (with_context ''phone returned a key that is not a P-256 SPKI PEM''
              (from_public_key_pem K (nc_public_key_pem created))) (\<lambda>public.
      tryR (ok_or ''credential key has no x coordinate'' (point_x K public)) (\<lambda>x.
      tryR (ok_or ''credential key has no y coordinate'' (point_y K public)) (\<lambda>y.
      tryR (cose_key (he_cbor H) x y) (\<lambda>cose.
      tryR (attested_credential_data credential_id cose) (\<lambda>attested.
        make_credential_response (he_cbor H)
          (created_auth_data (cr_sha256 C) (mc_rp_id request) attested))))))))))"

definition uhid_make_credential :: "('v, 'pk, 'vk, 'sig) helper \<Rightarrow> bytes \<Rightarrow> bytes" where
  "uhid_make_credential H body = ctap_reply (create_credential H body) CTAP2_ERR_OPERATION_DENIED"

definition assertion_auth_data :: "(bytes \<Rightarrow> bytes) \<Rightarrow> string \<Rightarrow> bytes" where
  "assertion_auth_data sha256 rp_id =
     authenticator_data sha256 rp_id (FLAG_USER_PRESENT OR FLAG_USER_VERIFIED) 0 None"

definition assert_credential :: "('v, 'pk, 'vk, 'sig) helper \<Rightarrow> bytes \<Rightarrow> bytes result" where
  "assert_credential H body =
     (let C = he_crates H in
      tryR (parse_get_assertion (he_cbor H) body) (\<lambda>request.
      tryR (ok_or ''no credential named, and this authenticator stores none''
              (list_get (ga_allowed request) 0)) (\<lambda>credential_id.
      let auth_data = assertion_auth_data (cr_sha256 C) (ga_rp_id request);
          message = auth_data @ ga_client_data_hash request in
      tryR (link_assert (cr_json C) (he_socket H) (ga_rp_id request)
              (b64_encode (cr_b64url C) credential_id) (b64_encode (cr_b64 C) message)) (\<lambda>encoded.
      tryR (with_context ''phone returned a signature that is not base64''
              (b64_decode (cr_b64 C) encoded)) (\<lambda>signature.
        get_assertion_response (he_cbor H) credential_id auth_data signature)))))"

definition uhid_get_assertion :: "('v, 'pk, 'vk, 'sig) helper \<Rightarrow> bytes \<Rightarrow> bytes" where
  "uhid_get_assertion H body = ctap_reply (assert_credential H body) CTAP2_ERR_NO_CREDENTIALS"

text \<open>The work \<open>dispatch\<close> hands to a thread.\<close>

definition phone_work :: "('v, 'pk, 'vk, 'sig) helper \<Rightarrow> byte \<Rightarrow> bytes \<Rightarrow> bytes" where
  "phone_work H ctap_command body =
     (if ctap_command = CTAP2_MAKE_CREDENTIAL then uhid_make_credential H body
      else uhid_get_assertion H body)"

subsection \<open>Writing and waiting\<close>

text \<open>
  \<open>writes n\<close> is the outcome of the write that follows \<open>n\<close> successful ones; the device keeps
  what was written.
\<close>

type_synonym writes = "nat \<Rightarrow> unit result"

definition device_write :: "string \<Rightarrow> writes \<Rightarrow> bytes \<Rightarrow> bytes list \<Rightarrow> unit result \<times> bytes list" where
  "device_write what writes event sent =
     (case writes (length sent) of
        Inl e \<Rightarrow> (Inl (what # e), sent)
      | Inr _ \<Rightarrow> (Inr (), sent @ [event]))"

fun write_packets :: "bool \<Rightarrow> writes \<Rightarrow> bytes list \<Rightarrow> bytes list \<Rightarrow> unit result \<times> bytes list" where
  "write_packets big writes [] sent = (Inr (), sent)"
| "write_packets big writes (packet # packets) sent =
     (case input_event big packet of
        Inl e \<Rightarrow> (Inl e, sent)
      | Inr event \<Rightarrow>
          (case device_write ''writing a report to the host'' writes event sent of
             (Inl e, sent') \<Rightarrow> (Inl e, sent')
           | (Inr _, sent') \<Rightarrow> write_packets big writes packets sent'))"

text \<open>
  \<open>recv_timeout\<close>: the answer, a timeout, or a sender that is gone. \<open>await_phone\<close> consumes one
  outcome per turn of its loop; when they run out it is still waiting, which is \<open>None\<close>.
\<close>

datatype recv = RecvOk bytes | RecvTimeout | RecvDisconnected

fun await_phone ::
  "bool \<Rightarrow> writes \<Rightarrow> u32 \<Rightarrow> recv list \<Rightarrow> bytes list \<Rightarrow> bytes result option \<times> bytes list" where
  "await_phone big writes channel [] sent = (None, sent)"
| "await_phone big writes channel (r # rs) sent =
     (case r of
        RecvOk body \<Rightarrow> (Some (Inr body), sent)
      | RecvTimeout \<Rightarrow>
          (case frame channel CTAPHID_KEEPALIVE [KEEPALIVE_UP_NEEDED] of
             Inl e \<Rightarrow> (Some (Inl e), sent)
           | Inr packets \<Rightarrow>
               (case write_packets big writes packets sent of
                  (Inl e, sent') \<Rightarrow> (Some (Inl e), sent')
                | (Inr _, sent') \<Rightarrow> await_phone big writes channel rs sent'))
      | RecvDisconnected \<Rightarrow> (Some (bail ''the phone request ended without an answer''), sent))"

subsection \<open>run\<close>

text \<open>
  The locals of \<open>run\<close>: the framing state, the event buffer, which is not cleared between
  reads, and what was written so far.
\<close>

record run_state =
  rn_hid :: hid_state
  rn_buffer :: bytes
  rn_sent :: "bytes list"

definition read_into :: "bytes \<Rightarrow> bytes \<Rightarrow> bytes" where
  "read_into buffer data = take (length buffer) data @ drop (length data) buffer"

definition event_kind :: "bool \<Rightarrow> bytes \<Rightarrow> u32 result" where
  "event_kind big buffer =
     tryR (take_bytes buffer 0 4)
       (\<lambda>bs. ok_or ''could not convert slice to array'' (from_ne_bytes big bs))"

text \<open>Lines 361 to 371: the report in an output event.\<close>

definition output_report :: "bool \<Rightarrow> bytes \<Rightarrow> bytes result" where
  "output_report big buffer =
     tryR (tryR (take_bytes buffer (4 + UHID_DATA_MAX) 2)
       (\<lambda>bs. ok_or ''could not convert slice to array'' (from_ne_bytes big bs :: u16 option))) (\<lambda>raw.
     let size = unat raw;
         (offset, len) = (if size > HID_REPORT_SIZE then (5, size - 1) else (4, size))
     in take_bytes buffer offset (min len HID_REPORT_SIZE))"

text \<open>What the loop does next; \<open>Waits\<close> is a turn that has not come back from the phone.\<close>

datatype turn = Next | Stopped | Failed error | Waits

definition finish_packets ::
  "bool \<Rightarrow> writes \<Rightarrow> bytes list \<Rightarrow> run_state \<Rightarrow> turn \<times> run_state" where
  "finish_packets big writes packets s =
     (case write_packets big writes packets (rn_sent s) of
        (Inl e, sent) \<Rightarrow> (Failed e, s\<lparr>rn_sent := sent\<rparr>)
      | (Inr _, sent) \<Rightarrow> (Next, s\<lparr>rn_sent := sent\<rparr>))"

text \<open>
  \<open>waits\<close> gives the outcomes of waiting for the thread that runs a command: how many
  timeouts pass, and whether the thread delivers its result, which is \<open>phone_work\<close>.
\<close>

definition handle_output ::
  "('v, 'pk, 'vk, 'sig) helper \<Rightarrow> writes \<Rightarrow> (bytes \<Rightarrow> recv list) \<Rightarrow> run_state \<Rightarrow> turn \<times> run_state" where
  "handle_output H writes waits s =
     (let big = he_big_endian H in
      case tryR (output_report big (rn_buffer s)) (\<lambda>report.
           tryR (read_channel report) (\<lambda>channel. Inr (report, channel))) of
        Inl e \<Rightarrow> (Failed e, s)
      | Inr (report, channel) \<Rightarrow>
          (case handle_report report (rn_hid s) of
             (Inl e, hid) \<Rightarrow> (Failed e, s\<lparr>rn_hid := hid\<rparr>)
           | (Inr None, hid) \<Rightarrow> (Next, s\<lparr>rn_hid := hid\<rparr>)
           | (Inr (Some (Ready packets)), hid) \<Rightarrow> finish_packets big writes packets (s\<lparr>rn_hid := hid\<rparr>)
           | (Inr (Some (Waiting command body)), hid) \<Rightarrow>
               (case await_phone big writes channel (waits (phone_work H command body)) (rn_sent s) of
                  (None, sent) \<Rightarrow> (Waits, s\<lparr>rn_hid := hid, rn_sent := sent\<rparr>)
                | (Some (Inl e), sent) \<Rightarrow> (Failed e, s\<lparr>rn_hid := hid, rn_sent := sent\<rparr>)
                | (Some (Inr answer), sent) \<Rightarrow>
                    (case frame channel CTAPHID_CBOR answer of
                       Inl e \<Rightarrow> (Failed e, s\<lparr>rn_hid := hid, rn_sent := sent\<rparr>)
                     | Inr packets \<Rightarrow>
                         finish_packets big writes packets (s\<lparr>rn_hid := hid, rn_sent := sent\<rparr>)))))"

definition run_turn ::
  "('v, 'pk, 'vk, 'sig) helper \<Rightarrow> writes \<Rightarrow> (bytes \<Rightarrow> recv list) \<Rightarrow> bytes result \<Rightarrow> run_state
   \<Rightarrow> turn \<times> run_state" where
  "run_turn H writes waits event s =
     (case with_context ''reading a uhid event'' event of
        Inl e \<Rightarrow> (Failed e, s)
      | Inr data \<Rightarrow>
          (let s' = s\<lparr>rn_buffer := read_into (rn_buffer s) data\<rparr> in
           if length data < 4 then (Next, s')
           else case event_kind (he_big_endian H) (rn_buffer s') of
             Inl e \<Rightarrow> (Failed e, s')
           | Inr kind \<Rightarrow>
               if kind = UHID_STOP then (Stopped, s')
               else if kind = UHID_OUTPUT then handle_output H writes waits s'
               else (Next, s')))"

text \<open>
  The loop over the events read so far, and the whole of \<open>run\<close>. \<open>None\<close>: still running.
\<close>

fun run_loop ::
  "('v, 'pk, 'vk, 'sig) helper \<Rightarrow> writes \<Rightarrow> (bytes \<Rightarrow> recv list) \<Rightarrow> bytes result list \<Rightarrow> run_state
   \<Rightarrow> unit result option \<times> run_state" where
  "run_loop H writes waits [] s = (None, s)"
| "run_loop H writes waits (event # events) s =
     (case run_turn H writes waits event s of
        (Next, s') \<Rightarrow> run_loop H writes waits events s'
      | (Stopped, s') \<Rightarrow> (Some (Inr ()), s')
      | (Failed e, s') \<Rightarrow> (Some (Inl e), s')
      | (Waits, s') \<Rightarrow> (None, s'))"

definition run_start :: "run_state" where
  "run_start = \<lparr>rn_hid = \<lparr>assembly = None, next_channel = 1\<rparr>,
     rn_buffer = replicate (UHID_EVENT_SIZE + 16) 0, rn_sent = []\<rparr>"

definition uhid_run ::
  "('v, 'pk, 'vk, 'sig) helper \<Rightarrow> unit result \<Rightarrow> writes \<Rightarrow> (bytes \<Rightarrow> recv list) \<Rightarrow> bytes result list
   \<Rightarrow> unit result option \<times> run_state" where
  "uhid_run H open_device writes waits events =
     (case with_context (''opening '' @ UHID_PATH @ '' (needs root)'') open_device of
        Inl e \<Rightarrow> (Some (Inl e), run_start)
      | Inr _ \<Rightarrow>
          (case create_event (he_big_endian H) of
             Inl e \<Rightarrow> (Some (Inl e), run_start)
           | Inr event \<Rightarrow>
               (case device_write ''creating the uhid device'' writes event [] of
                  (Inl e, sent) \<Rightarrow> (Some (Inl e), run_start)
                | (Inr _, sent) \<Rightarrow>
                    run_loop H writes waits events (run_start\<lparr>rn_sent := sent\<rparr>))))"

subsection \<open>Lemmas: events\<close>

text \<open>A \<open>put\<close> inside a buffer of known length, as the bytes before, the data and those after.\<close>

lemma put_at:
  assumes "length pre = offset" and "length data = n" and "length mid = n"
    and "length pre + n + length post < 2 ^ 64"
  shows "put_bytes (pre @ mid @ post) offset data = Inr (pre @ data @ post)"
  using assms by (simp add: put_bytes_Inr)

lemma zeros_split: "a \<le> n \<Longrightarrow> replicate n 0 = replicate a (0 :: byte) @ replicate (n - a) 0"
  by (simp add: replicate_add [symmetric])

lemma take_field:
  assumes "length pre = offset" and "length data = n" and "length (pre @ data @ post) < 2 ^ 64"
  shows "take_bytes (pre @ data @ post) offset n = Inr data"
  using assms by (simp add: take_bytes_Inr)

lemma input_event_eq:
  assumes "length report \<le> 4096"
  shows "input_event big report = Inr (to_ne_bytes big UHID_INPUT2
    @ to_ne_bytes big (of_nat (length report) :: u16) @ report @ replicate (4370 - length report) 0)"
proof -
  let ?t = "to_ne_bytes big UHID_INPUT2" and ?n = "to_ne_bytes big (of_nat (length report) :: u16)"
  have l: "length ?t = 4" "length ?n = 2" by (simp_all add: length_to_ne_bytes)
  have "put_bytes (replicate UHID_EVENT_SIZE 0) 0 ?t = Inr (?t @ replicate 4372 0)"
    using l by (simp add: put_bytes_Inr UHID_EVENT_SIZE_def)
  moreover have "put_bytes (?t @ replicate 4372 0) 4 ?n = Inr (?t @ ?n @ replicate 4370 0)"
    using l by (simp add: put_bytes_Inr)
  moreover have "put_bytes (?t @ ?n @ replicate 4370 0) 6 report =
      Inr (?t @ ?n @ report @ replicate (4370 - length report) 0)"
    using l assms by (simp add: put_bytes_Inr)
  ultimately show ?thesis
    using assms by (simp add: input_event_def UHID_DATA_MAX_def u16_try_from_def)
qed

lemma put_zeros:
  assumes "length pre \<le> offset" and "offset + length data \<le> length pre + n" and "length pre + n < 2 ^ 64"
  shows "put_bytes (pre @ replicate n 0) offset data =
    Inr (pre @ replicate (offset - length pre) 0 @ data
         @ replicate (length pre + n - (offset + length data)) 0)"
proof -
  have "take offset (pre @ replicate n (0 :: byte)) = pre @ replicate (offset - length pre) 0"
    using assms by (auto simp: min_def)
  moreover have "drop (offset + length data) (pre @ replicate n (0 :: byte)) =
      replicate (length pre + n - (offset + length data)) 0"
    using assms by simp
  ultimately show ?thesis
    using assms by (simp add: put_bytes_Inr)
qed

text \<open>The \<open>create2_req\<close> as the kernel reads it.\<close>

definition create2_layout :: "bool \<Rightarrow> bytes" where
  "create2_layout big = to_ne_bytes big UHID_CREATE2
     @ as_bytes ''kpasskey virtual authenticator'' @ replicate 226 0
     @ to_ne_bytes big (34 :: u16) @ to_ne_bytes big (3 :: u16) @ to_ne_bytes big (0x1209 :: u32)
     @ to_ne_bytes big (1 :: u32) @ to_ne_bytes big (1 :: u32) @ to_ne_bytes big (0 :: u32)
     @ FIDO_REPORT_DESCRIPTOR @ replicate 4062 0"

lemma length_descriptor [simp]: "length FIDO_REPORT_DESCRIPTOR = 34"
  by (simp add: FIDO_REPORT_DESCRIPTOR_def)

lemma length_name: "length (as_bytes ''kpasskey virtual authenticator'') = 30"
  by (simp add: as_bytes_def)

lemma create_event_eq: "create_event big = Inr (create2_layout big)"
proof -
  let ?a = "to_ne_bytes big UHID_CREATE2" and ?b = "as_bytes ''kpasskey virtual authenticator''"
    and ?c = "to_ne_bytes big (34 :: u16)" and ?d = "to_ne_bytes big (3 :: u16)"
    and ?e = "to_ne_bytes big (0x1209 :: u32)" and ?f = "to_ne_bytes big (1 :: u32)"
    and ?g = "to_ne_bytes big (0 :: u32)"
  note len = length_to_ne_bytes length_name
  have a: "put_bytes (replicate UHID_EVENT_SIZE 0) 0 ?a = Inr (?a @ replicate 4372 0)"
    using put_zeros [of "[]" 0 ?a 4376] by (simp add: len UHID_EVENT_SIZE_def)
  have b: "put_bytes (?a @ replicate 4372 0) 4 ?b = Inr (?a @ ?b @ replicate 4342 0)"
    using put_zeros [of ?a 4 ?b 4372] by (simp add: len)
  have c: "put_bytes (?a @ ?b @ replicate 4342 0) 260 ?c =
      Inr (?a @ ?b @ replicate 226 0 @ ?c @ replicate 4114 0)"
    using put_zeros [of "?a @ ?b" 260 ?c 4342] by (simp add: len)
  have d: "put_bytes (?a @ ?b @ replicate 226 0 @ ?c @ replicate 4114 0) 262 ?d =
      Inr (?a @ ?b @ replicate 226 0 @ ?c @ ?d @ replicate 4112 0)"
    using put_zeros [of "?a @ ?b @ replicate 226 0 @ ?c" 262 ?d 4114] by (simp add: len)
  have e: "put_bytes (?a @ ?b @ replicate 226 0 @ ?c @ ?d @ replicate 4112 0) 264 ?e =
      Inr (?a @ ?b @ replicate 226 0 @ ?c @ ?d @ ?e @ replicate 4108 0)"
    using put_zeros [of "?a @ ?b @ replicate 226 0 @ ?c @ ?d" 264 ?e 4112] by (simp add: len)
  have f: "put_bytes (?a @ ?b @ replicate 226 0 @ ?c @ ?d @ ?e @ replicate 4108 0) 268 ?f =
      Inr (?a @ ?b @ replicate 226 0 @ ?c @ ?d @ ?e @ ?f @ replicate 4104 0)"
    using put_zeros [of "?a @ ?b @ replicate 226 0 @ ?c @ ?d @ ?e" 268 ?f 4108] by (simp add: len)
  have g: "put_bytes (?a @ ?b @ replicate 226 0 @ ?c @ ?d @ ?e @ ?f @ replicate 4104 0) 272 ?f =
      Inr (?a @ ?b @ replicate 226 0 @ ?c @ ?d @ ?e @ ?f @ ?f @ replicate 4100 0)"
    using put_zeros [of "?a @ ?b @ replicate 226 0 @ ?c @ ?d @ ?e @ ?f" 272 ?f 4104] by (simp add: len)
  have h: "put_bytes (?a @ ?b @ replicate 226 0 @ ?c @ ?d @ ?e @ ?f @ ?f @ replicate 4100 0) 276 ?g =
      Inr (?a @ ?b @ replicate 226 0 @ ?c @ ?d @ ?e @ ?f @ ?f @ ?g @ replicate 4096 0)"
    using put_zeros [of "?a @ ?b @ replicate 226 0 @ ?c @ ?d @ ?e @ ?f @ ?f" 276 ?g 4100] by (simp add: len)
  have i: "put_bytes (?a @ ?b @ replicate 226 0 @ ?c @ ?d @ ?e @ ?f @ ?f @ ?g @ replicate 4096 0) 280
        FIDO_REPORT_DESCRIPTOR =
      Inr (?a @ ?b @ replicate 226 0 @ ?c @ ?d @ ?e @ ?f @ ?f @ ?g @ FIDO_REPORT_DESCRIPTOR @ replicate 4062 0)"
    using put_zeros [of "?a @ ?b @ replicate 226 0 @ ?c @ ?d @ ?e @ ?f @ ?f @ ?g" 280 FIDO_REPORT_DESCRIPTOR 4096]
    by (simp add: len)
  show ?thesis
    by (simp only: create_event_def Let_def a b tryR.simps with_context.simps u16_try_from_def
        length_descriptor)
      (simp add: c d e f g h i create2_layout_def)
qed

lemma length_create2: "length (create2_layout big) = UHID_EVENT_SIZE"
  by (simp add: create2_layout_def length_to_ne_bytes length_name UHID_EVENT_SIZE_def)

subsection \<open>Lemmas: reading and writing\<close>

text \<open>The event a packet is written as, and the events of several packets.\<close>

definition report_event :: "bool \<Rightarrow> bytes \<Rightarrow> bytes" where
  "report_event big report = to_ne_bytes big UHID_INPUT2
    @ to_ne_bytes big (of_nat (length report) :: u16) @ report @ replicate (4370 - length report) 0"

lemma write_packets_ok:
  assumes "\<And>n. writes n = Inr ()" and "\<And>p. p \<in> set packets \<Longrightarrow> length p \<le> 4096"
  shows "write_packets big writes packets sent = (Inr (), sent @ map (report_event big) packets)"
  using assms(2)
proof (induction packets arbitrary: sent)
  case (Cons p ps)
  then show ?case
    using assms(1) input_event_eq [of p big]
    by (simp add: device_write_def report_event_def)
qed simp


definition keepalive :: "u32 \<Rightarrow> bytes" where
  "keepalive channel = init_frame channel CTAPHID_KEEPALIVE [KEEPALIVE_UP_NEEDED]"

lemma frame_keepalive: "frame channel CTAPHID_KEEPALIVE [KEEPALIVE_UP_NEEDED] = Inr [keepalive channel]"
  by (simp add: frame_eq keepalive_def)

lemma length_keepalive [simp]: "length (keepalive channel) = 64"
  by (simp add: keepalive_def length_init_frame)

lemma await_timeouts:
  assumes "\<And>n. writes n = Inr ()"
  shows "await_phone big writes channel (replicate n RecvTimeout @ rs) sent =
    await_phone big writes channel rs (sent @ replicate n (report_event big (keepalive channel)))"
proof (induction n arbitrary: sent)
  case (Suc n)
  have "write_packets big writes [keepalive channel] sent =
      (Inr (), sent @ [report_event big (keepalive channel)])"
    using write_packets_ok [OF assms, of "[keepalive channel]"] by simp
  then show ?case
    using Suc by (simp add: frame_keepalive del: write_packets.simps)
qed simp

text \<open>
  The output event the kernel writes for a report: the report in \<open>data\<close>, after a zero byte
  when the device has no numbered reports, its size behind the 4096 bytes of \<open>data\<close>.
\<close>

definition kernel_output :: "bool \<Rightarrow> bool \<Rightarrow> bytes \<Rightarrow> bytes \<Rightarrow> bytes" where
  "kernel_output big numbered report tail =
     (let data = (if numbered then 0 # report else report)
      in to_ne_bytes big UHID_OUTPUT @ data @ replicate (4096 - length data) 0
         @ to_ne_bytes big (of_nat (length data) :: u16) @ tail)"

lemma output_report_event:
  assumes "length report = 64" and "length tail < 1000"
  shows "output_report big (kernel_output big numbered report tail) = Inr report"
proof -
  let ?data = "if numbered then 0 # report else report"
  let ?n = "of_nat (length ?data) :: u16"
  let ?pre = "to_ne_bytes big UHID_OUTPUT @ ?data @ replicate (4096 - length ?data) 0"
  have e: "kernel_output big numbered report tail = ?pre @ to_ne_bytes big ?n @ tail"
    by (simp add: kernel_output_def Let_def)
  have pre: "length ?pre = 4100" using assms(1) by (simp add: length_to_ne_bytes)
  have small: "length (?pre @ to_ne_bytes big ?n @ tail) < 2 ^ 64"
    using assms pre by (simp add: length_to_ne_bytes)
  have size: "take_bytes (?pre @ to_ne_bytes big ?n @ tail) (4 + UHID_DATA_MAX) 2 = Inr (to_ne_bytes big ?n)"
    by (rule take_field) (use pre small in \<open>simp_all add: UHID_DATA_MAX_def length_to_ne_bytes\<close>)
  have n: "unat ?n = (if numbered then 65 else 64)"
    using assms(1) by simp
  have data: "take_bytes (?pre @ to_ne_bytes big ?n @ tail) (if numbered then 5 else 4) 64 = Inr report"
  proof (cases numbered)
    case True
    have "take_bytes ((to_ne_bytes big UHID_OUTPUT @ [0]) @ report @
        (replicate 4031 0 @ to_ne_bytes big ?n @ tail)) 5 64 = Inr report"
      using assms True by (intro take_field) (simp_all add: length_to_ne_bytes)
    then show ?thesis using True assms(1) by simp
  next
    case False
    have "take_bytes (to_ne_bytes big UHID_OUTPUT @ report @
        (replicate 4032 0 @ to_ne_bytes big ?n @ tail)) 4 64 = Inr report"
      using assms False by (intro take_field) (simp_all add: length_to_ne_bytes)
    then show ?thesis using False assms(1) by simp
  qed
  show ?thesis
    unfolding e output_report_def size tryR.simps ne16.dec_enc ok_or.simps n
    using data by (cases numbered) (simp_all add: HID_REPORT_SIZE_def)
qed







subsection \<open>Lemmas: a phone that answers\<close>

text \<open>A socket on which the daemon always answers with one object.\<close>

definition answering_socket :: "(string \<times> jval) list \<Rightarrow> socket_calls" where
  "answering_socket kvs = \<lparr>so_connect = Inr (), so_clone = Inr (), so_write = Inr (),
     so_answer = (\<lambda>line. Inr (show_json (JObject kvs) @ [newline]))\<rparr>"

lemma answering_request:
  assumes "utf8_text (show_json (JObject kvs) @ [newline])"
    and "map_of (rev kvs) ''ok'' = Some (JBool True)"
  shows "link_request toy_json (answering_socket kvs) body = Inr (JObject kvs)"
proof -
  let ?t = "show_json (JObject kvs)"
  have "braced ?t" by (auto simp: braced_def show_json.simps)
  then have t: "trim (?t @ [newline]) = ?t" by simp
  have l: "fst (read_line (?t @ [newline])) = Inr (?t @ [newline])"
    using read_line_one [OF show_json_one_line, of "JObject kvs" "[]"] assms(1)
    by (simp add: utf8_text_def)
  have "link_request toy_json (answering_socket kvs) body =
      (if unwrap_or False (json_bool_field toy_json (JObject kvs) ''ok'') then Inr (JObject kvs)
       else bail (unwrap_or ''refused'' (json_str_field toy_json (JObject kvs) ''error'')))"
    by (rule link_request_reply [OF _ _ l]) (simp_all add: calls_through_def answering_socket_def t)
  then show ?thesis using assms(2) by (simp add: json_field_defs)
qed

lemma created_flags: "FLAG_USER_PRESENT OR FLAG_USER_VERIFIED OR FLAG_ATTESTED = 0x45"
  by (simp add: flag_defs)

lemma no_counter: "to_be_bytes (0 :: u32) = [0, 0, 0, 0]"
proof -
  have "be_digits n 0 = replicate n 0" for n
    by (induction n) (simp_all add: replicate_append_same)
  then have "to_be_bytes (0 :: u32) = replicate 4 0"
    by (simp add: to_be_bytes_def)
  also have "\<dots> = [0, 0, 0, 0]"
    by (simp add: numeral_eq_Suc)
  finally show ?thesis .
qed

lemma get_assertion_response_read:
  assumes "ciborium_ok C" and "get_assertion_response C i auth signature = Inr out"
  shows "cbor_from_reader C out = Inr (CMap [(CInteger 1, credential_descriptor i),
    (CInteger 2, CBytes auth), (CInteger 3, CBytes signature)])"
  using assms cbor_read_written [OF assms(1)]
  by (simp add: get_assertion_response_def cbor_encode_Inr_iff credential_descriptor_def Let_def)

lemma make_credential_response_read:
  assumes "ciborium_ok C" and "make_credential_response C auth = Inr out"
  shows "cbor_from_reader C out = Inr (CMap [(CInteger 1, CText ''none''),
    (CInteger 2, CBytes auth), (CInteger 3, CMap [])])"
  using assms cbor_read_written [OF assms(1)]
  by (simp add: make_credential_response_def cbor_encode_Inr_iff)





subsection \<open>Properties\<close>

text \<open>
  C38. The device the helper creates is the one browsers look for: the event has the size the
  kernel expects, and at the offsets of \<open>create2_req\<close> it holds the name with its
  terminating zero, the length of the report descriptor, the USB bus, the vendor and product,
  and the descriptor itself, on a target of either byte order.
\<close>

theorem create_event_layout:
  "\<exists>event. create_event big = Inr event \<and> length event = UHID_EVENT_SIZE
    \<and> from_ne_bytes big (take 4 event) = Some UHID_CREATE2
    \<and> take 31 (drop 4 event) = as_bytes ''kpasskey virtual authenticator'' @ [0]
    \<and> from_ne_bytes big (take 2 (drop 260 event)) = Some (of_nat (length FIDO_REPORT_DESCRIPTOR) :: u16)
    \<and> from_ne_bytes big (take 2 (drop 262 event)) = Some (3 :: u16)
    \<and> from_ne_bytes big (take 4 (drop 264 event)) = Some (0x1209 :: u32)
    \<and> from_ne_bytes big (take 4 (drop 268 event)) = Some (1 :: u32)
    \<and> take (length FIDO_REPORT_DESCRIPTOR) (drop 280 event) = FIDO_REPORT_DESCRIPTOR"
proof -
  note len = length_to_ne_bytes length_name
  have "replicate 226 (0 :: byte) = 0 # replicate 225 0"
    by (simp add: numeral_eq_Suc)
  then have name: "take 31 (drop 4 (create2_layout big)) = as_bytes ''kpasskey virtual authenticator'' @ [0]"
    by (simp add: create2_layout_def len)
  show ?thesis
    by (intro exI [of _ "create2_layout big"] conjI)
      (simp_all add: create_event_eq length_create2 name, simp_all add: create2_layout_def len ne16.dec_enc ne32.dec_enc)
qed

text \<open>
  C35. Reports cross the kernel unchanged, both ways: a report of up to 4096 bytes is written
  as one event whose size field gives its length and whose data it is, a larger one is
  refused; and the 64-byte report in an event the host sends is read back exactly, whether or
  not the kernel put a report number in front of it.
\<close>

theorem reports_cross_the_kernel:
  "(case input_event big report of
      Inl e \<Rightarrow> 4096 < length report
    | Inr event \<Rightarrow> length event = UHID_EVENT_SIZE \<and> from_ne_bytes big (take 4 event) = Some UHID_INPUT2
        \<and> (\<exists>n :: u16. from_ne_bytes big (take 2 (drop 4 event)) = Some n \<and> unat n = length report
             \<and> take (unat n) (drop 6 event) = report))
   \<and> (\<not> (length report = 64 \<and> length tail < 1000)
      \<or> output_report big (kernel_output big numbered report tail) = Inr report)"
proof (intro conjI)
  show "case input_event big report of
      Inl e \<Rightarrow> 4096 < length report
    | Inr event \<Rightarrow> length event = UHID_EVENT_SIZE \<and> from_ne_bytes big (take 4 event) = Some UHID_INPUT2
        \<and> (\<exists>n :: u16. from_ne_bytes big (take 2 (drop 4 event)) = Some n \<and> unat n = length report
             \<and> take (unat n) (drop 6 event) = report)"
  proof (cases "length report \<le> 4096")
    case True
    then show ?thesis
      by (simp add: input_event_eq length_to_ne_bytes UHID_EVENT_SIZE_def ne16.dec_enc ne32.dec_enc)
  next
    case False
    then show ?thesis by (simp add: input_event_def UHID_DATA_MAX_def)
  qed
  show "\<not> (length report = 64 \<and> length tail < 1000)
      \<or> output_report big (kernel_output big numbered report tail) = Inr report"
    using output_report_event by blast
qed

theorem reports_cross_the_kernel_witness:
  "output_report False (kernel_output False True (replicate 64 5) (replicate 290 0)) = Inr (replicate 64 5)"
  using reports_cross_the_kernel [where big = False and report = "replicate 64 5"
      and tail = "replicate 290 0" and numbered = True] by simp

text \<open>
  C29. Waiting for a person: as long as the phone has not answered, every timeout writes one
  keep-alive report on the channel of the request and nothing else, the helper is still
  waiting however many there are, and the answer is then returned as it came; a request whose
  thread is gone ends with an error.
\<close>

theorem await_phone_keeps_channel_alive:
  assumes "\<And>n. writes n = Inr ()"
  shows "await_phone big writes channel (replicate n RecvTimeout @ RecvOk body # rest) sent =
      (Some (Inr body), sent @ replicate n (report_event big (keepalive channel)))
    \<and> await_phone big writes channel (replicate n RecvTimeout) sent =
      (None, sent @ replicate n (report_event big (keepalive channel)))
    \<and> await_phone big writes channel (replicate n RecvTimeout @ RecvDisconnected # rest) sent =
      (Some (bail ''the phone request ended without an answer''),
       sent @ replicate n (report_event big (keepalive channel)))"
  using await_timeouts [of writes, OF assms, of big channel n "RecvOk body # rest" sent]
    await_timeouts [of writes, OF assms, of big channel n "[]" sent]
    await_timeouts [of writes, OF assms, of big channel n "RecvDisconnected # rest" sent]
  by simp

theorem await_phone_keeps_channel_alive_witness:
  "await_phone False (\<lambda>_. Inr ()) 7 (replicate 300 RecvTimeout @ [RecvOk [0, 1]]) [] =
     (Some (Inr [0, 1]), replicate 300 (report_event False (keepalive 7)))"
  using await_phone_keeps_channel_alive [of "\<lambda>_. Inr ()" False 7 300 "[0, 1]" "[]" "[]"] by simp

text \<open>
  What the site does with the response (WebAuthn, verifying an assertion): it reads the
  authenticator data and the signature out of it, compares the hash of its RP id, asks for a
  user who is present and verified, and checks the signature over the authenticator data
  followed by the hash of the client data, which it computes itself, with the key it has.
\<close>

definition signature_verifies :: "('pk, 'vk, 'sig) p256 \<Rightarrow> 'vk \<Rightarrow> bytes \<Rightarrow> bytes \<Rightarrow> bool" where
  "signature_verifies K key message der =
     (case signature_from_der K der of Inl _ \<Rightarrow> False | Inr s \<Rightarrow> ecdsa_verify K key message s = Inr ())"

definition site_accepts ::
  "('v, 'pk, 'vk, 'sig) helper \<Rightarrow> string \<Rightarrow> bytes \<Rightarrow> 'vk \<Rightarrow> bytes \<Rightarrow> bool" where
  "site_accepts H rp_id client_data_hash key response =
     (case cbor_from_reader (he_cbor H) response of
        Inr (CMap entries) \<Rightarrow>
          (case (map_of entries (CInteger 2), map_of entries (CInteger 3)) of
             (Some (CBytes auth), Some (CBytes signature)) \<Rightarrow>
               37 \<le> length auth \<and> take 32 auth = cr_sha256 (he_crates H) (as_bytes rp_id)
               \<and> auth ! 32 AND 0x05 = 0x05
               \<and> signature_verifies (cr_p256 (he_crates H)) key (auth @ client_data_hash) signature
           | _ \<Rightarrow> False)
      | _ \<Rightarrow> False)"

lemma assertion_auth_data_bytes:
  "assertion_auth_data sha256 rp_id = sha256 (as_bytes rp_id) @ [0x05] @ [0, 0, 0, 0]"
proof -
  have "FLAG_USER_PRESENT OR FLAG_USER_VERIFIED = 0x05" by (simp add: flag_defs)
  then show ?thesis by (simp add: assertion_auth_data_def authenticator_data_def no_counter)
qed

lemma site_accepts_iff_signed:
  assumes "sha256_ok (cr_sha256 (he_crates H))"
    and "cbor_from_reader (he_cbor H) out = Inr (CMap [(CInteger 1, credential_descriptor i),
        (CInteger 2, CBytes (assertion_auth_data (cr_sha256 (he_crates H)) rp_id)), (CInteger 3, CBytes signature)])"
  shows "site_accepts H rp_id h key out \<longleftrightarrow> signature_verifies (cr_p256 (he_crates H)) key
      (assertion_auth_data (cr_sha256 (he_crates H)) rp_id @ h) signature"
  using assms by (simp add: site_accepts_def assertion_auth_data_bytes nth_append)

text \<open>
  C9. What the phone is asked to sign is what the site verifies: whenever a response is
  returned, the phone was asked, for the first credential the site named, to sign the hash of
  the RP id, the flags of a present and verified user (0x05) and a zero counter, followed by
  the client data hash; the response the browser reads names that credential and carries that
  authenticator data and the bytes the phone answered; and the site, whatever key it holds,
  accepts it exactly when those bytes are a signature by that key of the very message the
  phone was sent. (The helper itself does not check the signature.)
\<close>

theorem assertion_covers_auth_data_and_hash:
  assumes "ciborium_ok (he_cbor H)" and "base64_ok (cr_b64 (he_crates H))"
    and "sha256_ok (cr_sha256 (he_crates H))"
    and "assert_credential H body = Inr out"
  shows "\<exists>request i others encoded signature payload message auth.
    parse_get_assertion (he_cbor H) body = Inr request \<and> ga_allowed request = i # others
    \<and> auth = cr_sha256 (he_crates H) (as_bytes (ga_rp_id request)) @ [0x05] @ [0, 0, 0, 0]
    \<and> message = auth @ ga_client_data_hash request
    \<and> b64_decode (cr_b64 (he_crates H)) payload = Inr message
    \<and> link_assert (cr_json (he_crates H)) (he_socket H) (ga_rp_id request)
        (b64_encode (cr_b64url (he_crates H)) i) payload = Inr encoded
    \<and> b64_decode (cr_b64 (he_crates H)) encoded = Inr signature
    \<and> cbor_from_reader (he_cbor H) out = Inr (CMap [(CInteger 1, credential_descriptor i),
        (CInteger 2, CBytes auth), (CInteger 3, CBytes signature)])
    \<and> (\<forall>key. site_accepts H (ga_rp_id request) (ga_client_data_hash request) key out
         \<longleftrightarrow> signature_verifies (cr_p256 (he_crates H)) key message signature)"
proof -
  let ?C = "he_crates H"
  obtain request i encoded signature where
    p: "parse_get_assertion (he_cbor H) body = Inr request"
    and i: "list_get (ga_allowed request) 0 = Some i"
    and l: "link_assert (cr_json ?C) (he_socket H) (ga_rp_id request) (b64_encode (cr_b64url ?C) i)
      (b64_encode (cr_b64 ?C) (assertion_auth_data (cr_sha256 ?C) (ga_rp_id request)
         @ ga_client_data_hash request)) = Inr encoded"
    and d: "b64_decode (cr_b64 ?C) encoded = Inr signature"
    and r: "get_assertion_response (he_cbor H) i (assertion_auth_data (cr_sha256 ?C) (ga_rp_id request))
      signature = Inr out"
    using assms(4) by (auto simp: assert_credential_def result_simps Let_def)
  let ?auth = "assertion_auth_data (cr_sha256 ?C) (ga_rp_id request)"
  note read = get_assertion_response_read [OF assms(1) r]
  obtain others where others: "ga_allowed request = i # others"
    using i by (cases "ga_allowed request") (auto simp: list_get_def split: if_splits)
  have "\<forall>key. site_accepts H (ga_rp_id request) (ga_client_data_hash request) key out
      \<longleftrightarrow> signature_verifies (cr_p256 ?C) key (?auth @ ga_client_data_hash request) signature"
    using site_accepts_iff_signed [OF assms(3) read] by blast
  then show ?thesis
    using p others l d read b64_decode_encode [OF assms(2)] assertion_auth_data_bytes
    by (intro exI [of _ request] exI [of _ i] exI [of _ others] exI [of _ encoded] exI [of _ signature]
        exI [of _ "b64_encode (cr_b64 ?C) (?auth @ ga_client_data_hash request)"]
        exI [of _ "?auth @ ga_client_data_hash request"] exI [of _ ?auth] conjI) simp_all
qed

definition toy_helper :: "(string \<times> jval) list \<Rightarrow> cbor list \<Rightarrow> (jval, string, string, bytes) helper" where
  "toy_helper kvs vs = \<lparr>he_crates = toy_crates, he_cbor = table_ciborium vs,
     he_socket = answering_socket kvs, he_big_endian = False\<rparr>"

lemma table_reader:
  "i < length vs \<Longrightarrow> i < 256 \<Longrightarrow> cbor_from_reader (table_ciborium vs) [of_nat i] = Inr (vs ! i)"
  by (simp add: table_ciborium_def)

lemma table_writer:
  "cbor_into_writer (table_ciborium (v # vs)) v = Inr [0]"
  "u \<noteq> v \<Longrightarrow> cbor_into_writer (table_ciborium (u # v # vs)) v = Inr [1]"
  "\<lbrakk>u \<noteq> v; w \<noteq> v\<rbrakk> \<Longrightarrow> cbor_into_writer (table_ciborium (u # w # v # vs)) v = Inr [2]"
  by (simp_all add: table_ciborium_def Let_def)

lemma answering_with_signature:
  assumes "utf8_text (show_json (JObject [(''ok'', JBool True), (''sig'', JString text)]) @ [newline])"
  shows "link_assert toy_json (answering_socket [(''ok'', JBool True), (''sig'', JString text)]) rp cred payload
    = Inr text"
  by (simp add: link_assert_def answering_request [OF assms] link_field_def json_field_defs)

text \<open>A phone with the key \<open>KEY\<close>, which signs the way \<open>toy_p256\<close> verifies.\<close>

theorem assertion_covers_auth_data_and_hash_witness:
  "\<exists>(H :: (jval, string, string, bytes) helper) out encoded payload. assert_credential H [0] = Inr out
     \<and> b64_decode toy_base64 payload = Inr (toy_sha256 (as_bytes ''a.org'') @ [0x05] @ [0, 0, 0, 0] @ [9])
     \<and> link_assert toy_json (he_socket H) ''a.org'' (b64_encode toy_base64 [1]) payload = Inr encoded
     \<and> site_accepts H ''a.org'' [9] ''KEY'' out \<and> \<not> site_accepts H ''a.org'' [9] ''OTHER'' out"
proof -
  define auth where "auth = toy_sha256 (as_bytes ''a.org'') @ [0x05] @ [0, 0, 0, 0]"
  define signature where "signature = as_bytes ''KEY'' @ auth @ [9]"
  note toy = signature_def auth_def
  have auth: "assertion_auth_data toy_sha256 ''a.org'' = auth"
    by (simp add: assertion_auth_data_bytes auth_def)
  let ?kvs = "[(''ok'', JBool True), (''sig'', JString (b64_encode toy_base64 signature))]"
  let ?v = "CMap [(CInteger 1, CText ''a.org''), (CInteger 2, CBytes [9]),
      (CInteger 3, CArray [credential_descriptor [1]])]"
  let ?w = "CMap [(CInteger 1, credential_descriptor [1]), (CInteger 2, CBytes auth), (CInteger 3, CBytes signature)]"
  let ?H = "toy_helper ?kvs [?v, ?w]"
  have u: "utf8_text (show_json (JObject ?kvs) @ [newline])"
    unfolding toy by code_simp
  note link = answering_with_signature [OF u]
  have parse: "parse_get_assertion (table_ciborium [?v, ?w]) [0] =
      Inr \<lparr>ga_client_data_hash = [9], ga_rp_id = ''a.org'', ga_allowed = [[1]]\<rparr>"
    using table_reader [of 0 "[?v, ?w]"] parse_allowed_descriptors [of "[[1]]"]
    by (simp add: parse_get_assertion_def top_level_map_def cbor_bytes_def)
  have written: "get_assertion_response (table_ciborium [?v, ?w]) [1] auth signature = Inr [1]"
    using table_writer(2) [of ?v ?w "[]"]
    by (simp add: get_assertion_response_def cbor_encode_Inr_iff credential_descriptor_def)
  have a: "assert_credential ?H [0] = Inr [1]"
    using written
    by (simp add: assert_credential_def toy_helper_def parse list_get_def link auth)
  have ok: "ciborium_ok (he_cbor ?H)" "base64_ok (cr_b64 (he_crates ?H))" "sha256_ok (cr_sha256 (he_crates ?H))"
    by (simp_all add: toy_helper_def)
  have keys: "signature_verifies toy_p256 ''KEY'' (auth @ [9]) signature"
    "\<not> signature_verifies toy_p256 ''OTHER'' (auth @ [9]) signature"
    by (simp_all add: signature_verifies_def toy_p256_def signature_def as_bytes_def)
  obtain request i others encoded sig payload message auth' where
    request: "parse_get_assertion (he_cbor ?H) [0] = Inr request" "ga_allowed request = i # others"
    and message: "auth' = cr_sha256 (he_crates ?H) (as_bytes (ga_rp_id request)) @ [0x05] @ [0, 0, 0, 0]"
      "message = auth' @ ga_client_data_hash request" "b64_decode (cr_b64 (he_crates ?H)) payload = Inr message"
    and asked: "link_assert (cr_json (he_crates ?H)) (he_socket ?H) (ga_rp_id request)
        (b64_encode (cr_b64url (he_crates ?H)) i) payload = Inr encoded"
      "b64_decode (cr_b64 (he_crates ?H)) encoded = Inr sig"
    and site: "\<forall>key. site_accepts ?H (ga_rp_id request) (ga_client_data_hash request) key [1]
         \<longleftrightarrow> signature_verifies (cr_p256 (he_crates ?H)) key message sig"
    using assertion_covers_auth_data_and_hash [OF ok a] by blast
  have r: "request = \<lparr>ga_client_data_hash = [9], ga_rp_id = ''a.org'', ga_allowed = [[1]]\<rparr>"
    using request(1) parse by (simp add: toy_helper_def)
  have m: "message = auth @ [9]" "b64_decode toy_base64 payload = Inr message" "i = [1]"
    using message request(2) r by (simp_all add: toy_helper_def auth_def)
  have decoded: "b64_decode toy_base64 payload = Inr (toy_sha256 (as_bytes ''a.org'') @ [0x05] @ [0, 0, 0, 0] @ [9])"
    using m(1,2) by (simp add: auth_def)
  have "link_assert toy_json (he_socket ?H) ''a.org'' (b64_encode toy_base64 [1]) payload = Inr encoded"
    using asked(1) r m(3) by (simp add: toy_helper_def)
  moreover have "encoded = b64_encode toy_base64 signature"
    using calculation link by (simp add: toy_helper_def)
  then have "sig = signature"
    using asked(2) b64_decode_encode [OF toy_base64_ok] by (simp add: toy_helper_def)
  then have "site_accepts ?H ''a.org'' [9] key [1] \<longleftrightarrow> signature_verifies toy_p256 key (auth @ [9]) signature" for key
    using site r m(1) by (simp add: toy_helper_def)
  ultimately show ?thesis
    using a decoded keys
    by - (rule exI [of _ ?H], rule exI [of _ "[1]"], rule exI [of _ encoded], rule exI [of _ payload], simp)
qed

text \<open>
  C10. A created credential is the phone's: whenever a makeCredential response is returned,
  the browser reads from it the credential id and the public key the phone gave for this RP,
  behind the hash of the RP id, the flags for a present and verified user with attested data
  (0x45), a zero counter and our AAGUID, with \<open>none\<close> attestation.
\<close>

theorem created_credential_is_the_phones:
  assumes "ciborium_ok (he_cbor H)" and "sha256_ok (cr_sha256 (he_crates H))"
    and "create_credential H body = Inr out"
  shows "\<exists>request created i public x y cose auth.
    parse_make_credential (he_cbor H) body = Inr request
    \<and> link_make_credential (cr_json (he_crates H)) (he_socket H) (mc_rp_id request)
        (mc_user_name request) = Inr created
    \<and> b64_decode (cr_b64url (he_crates H)) (nc_credential_id created) = Inr i
    \<and> from_public_key_pem (cr_p256 (he_crates H)) (nc_public_key_pem created) = Inr public
    \<and> point_x (cr_p256 (he_crates H)) public = Some x \<and> point_y (cr_p256 (he_crates H)) public = Some y
    \<and> length x = 32 \<and> length y = 32 \<and> length i < 65536
    \<and> cbor_from_reader (he_cbor H) cose = Inr (cose_map x y)
    \<and> cbor_from_reader (he_cbor H) out = Inr (CMap [(CInteger 1, CText ''none''),
        (CInteger 2, CBytes auth), (CInteger 3, CMap [])])
    \<and> auth = cr_sha256 (he_crates H) (as_bytes (mc_rp_id request)) @ [0x45] @ [0, 0, 0, 0] @ AAGUID
        @ to_be_bytes (of_nat (length i) :: u16) @ i @ cose"
proof -
  let ?C = "he_crates H"
  obtain request created i public x y cose attested where
    p: "parse_make_credential (he_cbor H) body = Inr request"
    and l: "link_make_credential (cr_json ?C) (he_socket H) (mc_rp_id request) (mc_user_name request)
      = Inr created"
    and i: "b64_decode (cr_b64url ?C) (nc_credential_id created) = Inr i"
    and k: "from_public_key_pem (cr_p256 ?C) (nc_public_key_pem created) = Inr public"
      "point_x (cr_p256 ?C) public = Some x" "point_y (cr_p256 ?C) public = Some y"
    and c: "cose_key (he_cbor H) x y = Inr cose"
    and a: "attested_credential_data i cose = Inr attested"
    and r: "make_credential_response (he_cbor H)
      (created_auth_data (cr_sha256 ?C) (mc_rp_id request) attested) = Inr out"
    using assms(3) by (auto simp: create_credential_def result_simps Let_def)
  have xy: "length x = 32 \<and> length y = 32" and cose: "cbor_from_reader (he_cbor H) cose = Inr (cose_map x y)"
    using c assms(1) by (auto simp: cose_key_def cbor_encode_Inr_iff cbor_read_written split: if_splits)
  have n: "length i < 65536" and att: "attested = AAGUID @ to_be_bytes (of_nat (length i) :: u16) @ i @ cose"
    using a by (auto simp: attested_credential_data_def result_simps u16_try_from_Inr_iff)
  have "created_auth_data (cr_sha256 ?C) (mc_rp_id request) attested =
      cr_sha256 ?C (as_bytes (mc_rp_id request)) @ [0x45] @ [0, 0, 0, 0] @ AAGUID
        @ to_be_bytes (of_nat (length i) :: u16) @ i @ cose"
    by (simp add: created_auth_data_def authenticator_data_def att created_flags no_counter)
  then show ?thesis
    using p l i k xy n cose make_credential_response_read [OF assms(1) r]
    by (intro exI [of _ request] exI [of _ created] exI [of _ i] exI [of _ public] exI [of _ x] exI [of _ y]
        exI [of _ cose] exI [of _ "created_auth_data (cr_sha256 ?C) (mc_rp_id request) attested"]) simp
qed

theorem created_credential_is_the_phones_witness:
  "\<exists>(H :: (jval, string, string, bytes) helper) out cose auth. create_credential H [0] = Inr out
     \<and> cbor_from_reader (he_cbor H) cose = Inr (cose_map (replicate 32 3) (replicate 32 0))
     \<and> cbor_from_reader (he_cbor H) out = Inr (CMap [(CInteger 1, CText ''none''),
         (CInteger 2, CBytes auth), (CInteger 3, CMap [])])
     \<and> auth = toy_sha256 (as_bytes ''a.org'') @ [0x45] @ [0, 0, 0, 0] @ AAGUID
         @ to_be_bytes (2 :: u16) @ [7, 8] @ cose"
proof -
  let ?kvs = "[(''ok'', JBool True), (''credId'', JString (b64_encode toy_base64 [7, 8])),
     (''publicKeyPem'', JString ''KEY'')]"
  let ?cose = "cose_map (replicate 32 3) (replicate 32 0)"
  let ?auth = "created_auth_data toy_sha256 ''a.org'' (AAGUID @ to_be_bytes (2 :: u16) @ [7, 8, 1])"
  let ?v = "CMap [(CInteger 2, CMap [(CText ''id'', CText ''a.org'')])]"
  let ?w = "CMap [(CInteger 1, CText ''none''), (CInteger 2, CBytes ?auth), (CInteger 3, CMap [])]"
  let ?H = "toy_helper ?kvs [?v, ?cose, ?w]"
  have u: "utf8_text (show_json (JObject ?kvs) @ [newline])"
    by (simp add: utf8_text_def show_json.simps quote_def newline_def toy_base64_def)
  have link: "link_make_credential toy_json (answering_socket ?kvs) rp user =
      Inr \<lparr>nc_credential_id = b64_encode toy_base64 [7, 8], nc_public_key_pem = ''KEY''\<rparr>" for rp user
    by (simp add: link_make_credential_def answering_request [OF u] link_field_def json_field_defs)
  have parse: "parse_make_credential (table_ciborium [?v, ?cose, ?w]) [0] =
      Inr \<lparr>mc_rp_id = ''a.org'', mc_user_name = ''user''\<rparr>"
    using table_reader [of 0 "[?v, ?cose, ?w]"]
    by (simp add: parse_make_credential_def top_level_map_def text_field_def)
  have key: "cose_key (table_ciborium [?v, ?cose, ?w]) (replicate 32 3) (replicate 32 0) = Inr [1]"
    using table_writer(2) [of ?v ?cose "[?w]"]
    by (simp add: cose_key_def cbor_encode_Inr_iff cose_map_def)
  have written: "make_credential_response (table_ciborium [?v, ?cose, ?w]) ?auth = Inr [2]"
    using table_writer(3) [of ?v ?w ?cose "[]"]
    by (simp add: make_credential_response_def cbor_encode_Inr_iff cose_map_def)
  have att: "attested_credential_data [7, 8] [1] = Inr (AAGUID @ to_be_bytes (2 :: u16) @ [7, 8, 1])"
    by (simp add: attested_credential_data_def u16_try_from_def)
  have c: "create_credential ?H [0] = Inr [2]"
    using written
    by (simp add: create_credential_def toy_helper_def parse link key att toy_p256_def)
  have ok: "ciborium_ok (he_cbor ?H)" "sha256_ok (cr_sha256 (he_crates ?H))"
    by (simp_all add: toy_helper_def)
  show ?thesis
    using created_credential_is_the_phones [OF ok c] c parse link
    by (intro exI [of _ ?H]) (auto simp: toy_helper_def toy_p256_def)
qed



end
