(* ===== verification/Cli.thy ===== *)
theory Cli
  imports Pairing
begin

text \<open>
  \<open>daemon/crates/kpk-spike/src/main.rs\<close>: the command line. The arguments are those after the
  program's name, the two environment variables are inputs.
\<close>

definition DEFAULT_PAM_SOCKET :: path where
  "DEFAULT_PAM_SOCKET = ''/run/kpasskey/pam.sock''"

datatype Command =
    Serve path path u16 u64
  | Import path path string string
  | Probe path string string
  | SelfTest
  | UhidHelper

definition default_device_dir :: "string option \<Rightarrow> string option \<Rightarrow> path" where
  "default_device_dir xdg_data_home home =
     path_join
       (case xdg_data_home of
          None \<Rightarrow> path_join (unwrap_or '''' home) ''.local/share''
        | Some dir \<Rightarrow> dir) ''kpasskey/devices''"

definition usage :: string where
  "usage = join [newline]
     [''usage:'',
      ''  kpk-spike serve [--devices <dir>] [--socket <path>] [--port <n>] [--timeout <s>]'',
      ''  kpk-spike probe [--socket <path>] [--action <a>] [--detail <d>]'',
      ''  kpk-spike self-test'',
      ''  kpk-spike uhid            (needs root: /dev/uhid)'',
      ''  kpk-spike import --pubkey <pem> --action <name> --detail <model>'',
      '''',
      ''defaults: --socket '' @ DEFAULT_PAM_SOCKET @ '' --port '' @ decimal DEFAULT_PHONE_PORT]"

record cli_options =
  op_pubkey :: "path option"
  op_socket :: path
  op_port :: u16
  op_timeout_secs :: u64
  op_action :: string
  op_detail :: string
  op_directory :: "path option"

definition cli_defaults :: cli_options where
  "cli_defaults = \<lparr>op_pubkey = None, op_socket = DEFAULT_PAM_SOCKET,
     op_port = of_nat DEFAULT_PHONE_PORT, op_timeout_secs = 45, op_action = ''polkit'',
     op_detail = ''manual probe'', op_directory = None\<rparr>"

text \<open>One flag with the argument after it, if there is one.\<close>

definition apply_flag :: "string \<Rightarrow> string option \<Rightarrow> cli_options \<Rightarrow> cli_options result" where
  "apply_flag flag next_arg opts =
     (let v = ok_or ''flag needs a value'' next_arg in
      if flag = ''--pubkey'' then tryR v (\<lambda>x. Inr (opts\<lparr>op_pubkey := Some x\<rparr>))
      else if flag = ''--socket'' then tryR v (\<lambda>x. Inr (opts\<lparr>op_socket := x\<rparr>))
      else if flag = ''--port'' then
        tryR v (\<lambda>x. tryR (with_context ''--port must be a number'' (parse_unsigned 16 x))
          (\<lambda>n. Inr (opts\<lparr>op_port := of_nat n\<rparr>)))
      else if flag = ''--timeout'' then
        tryR v (\<lambda>x. tryR (with_context ''--timeout must be seconds'' (parse_unsigned 64 x))
          (\<lambda>n. Inr (opts\<lparr>op_timeout_secs := of_nat n\<rparr>)))
      else if flag = ''--action'' then tryR v (\<lambda>x. Inr (opts\<lparr>op_action := x\<rparr>))
      else if flag = ''--detail'' then tryR v (\<lambda>x. Inr (opts\<lparr>op_detail := x\<rparr>))
      else if flag = ''--devices'' then tryR v (\<lambda>x. Inr (opts\<lparr>op_directory := Some x\<rparr>))
      else bail (''unknown argument '' @ flag @ [newline, newline] @ usage))"

fun parse_flags :: "string list \<Rightarrow> cli_options \<Rightarrow> cli_options result" where
  "parse_flags [] opts = Inr opts"
| "parse_flags [flag] opts = tryR (apply_flag flag None opts) (\<lambda>o'. Inr o')"
| "parse_flags (flag # x # rest) opts = tryR (apply_flag flag (Some x) opts) (\<lambda>o'. parse_flags rest o')"

definition parse_args :: "string option \<Rightarrow> string option \<Rightarrow> string list \<Rightarrow> Command result" where
  "parse_args xdg_data_home home args =
     (let verb = (case args of [] \<Rightarrow> '''' | v # _ \<Rightarrow> v) in
      tryR (parse_flags (drop 1 args) cli_defaults) (\<lambda>opts.
        let devices = unwrap_or (default_device_dir xdg_data_home home) (op_directory opts)
        in if verb = ''serve'' then
             Inr (Serve devices (op_socket opts) (op_port opts) (op_timeout_secs opts))
           else if verb = ''import'' then
             tryR (ok_or ''import needs --pubkey'' (op_pubkey opts))
               (\<lambda>pubkey. Inr (Import devices pubkey (op_action opts) (op_detail opts)))
           else if verb = ''probe'' then Inr (Probe (op_socket opts) (op_action opts) (op_detail opts))
           else if verb = ''self-test'' then Inr SelfTest
           else if verb = ''uhid'' then Inr UhidHelper
           else bail usage))"

subsection \<open>Lemmas\<close>

lemma decimal_nonempty: "decimal n \<noteq> []"
  by (cases "n < 10") (simp_all add: decimal_small decimal_step)

lemma parse_decimal:
  "parse_unsigned bits (decimal n) =
    (if n < 2 ^ bits then Inr n else bail ''number too large to fit in target type'')"
proof -
  obtain c r where d: "decimal n = c # r"
    using decimal_nonempty by (cases "decimal n") auto
  have all: "list_all ascii_digit (decimal n)"
    using decimal_digits by (auto simp: list_all_iff)
  then have "c \<noteq> CHR ''+''"
    using d by (auto simp: ascii_digit_def)
  then show ?thesis
    using all d digits_value_decimal [of n] by (simp add: parse_unsigned_def Let_def)
qed

subsection \<open>Properties\<close>

text \<open>
  C40. The command line says what is served: \<open>serve\<close> with all its options starts the daemon
  on exactly that directory, socket, port and timeout, and a port or timeout that does not
  fit its type is refused instead of being cut off.
\<close>

theorem serve_command_read:
  "parse_args xdg home [''serve'', ''--devices'', d, ''--socket'', s, ''--port'', decimal p,
      ''--timeout'', decimal t] =
    (if 65536 \<le> p then Inl [''--port must be a number'', ''number too large to fit in target type'']
     else if 2 ^ 64 \<le> t then
       Inl [''--timeout must be seconds'', ''number too large to fit in target type'']
     else Inr (Serve d s (of_nat p) (of_nat t)))"
  by (simp add: parse_args_def apply_flag_def parse_decimal cli_defaults_def Let_def)

end
