(* ===== verification/Proximity.thy ===== *)
theory Proximity
  imports RustStd
begin

text \<open>
  \<open>daemon/crates/kpk-proximity\<close>: the Bluetooth beacon that carries a nonce, and the command
  line of its self-test. The calls on the system bus are inputs; what BlueZ was asked and
  what is served on the bus is the state, with the flag the beacon and the advertisement
  share.
\<close>

definition PROXIMITY_SERVICE_UUID :: string where
  "PROXIMITY_SERVICE_UUID = ''6f1d2b1a-9c4e-4f57-a1d3-7b8e2c05f9a4''"
definition NONCE_LEN :: nat where "NONCE_LEN = 16"
definition MIN_TX_POWER_DBM :: i16 where "MIN_TX_POWER_DBM = -34"
definition ADVERTISEMENT_PATH :: path where
  "ADVERTISEMENT_PATH = ''/org/kpasskey/advertisement/0''"

subsection \<open>The nonce\<close>

datatype ProximityNonce = Nonce bytes

text \<open>\<open>entropy\<close>: what \<open>try_fill_bytes\<close> put in the array of \<open>NONCE_LEN\<close> bytes.\<close>

definition nonce_generate :: "bytes result \<Rightarrow> ProximityNonce result" where
  "nonce_generate entropy =
     tryR (with_context ''drawing a proximity nonce from the OS CSPRNG'' entropy)
       (\<lambda>bs. Inr (Nonce bs))"

fun nonce_bytes :: "ProximityNonce \<Rightarrow> bytes" where
  "nonce_bytes (Nonce bs) = bs"

definition nonce_debug :: "ProximityNonce \<Rightarrow> string" where
  "nonce_debug n = ''ProximityNonce(<redacted>)''"

subsection \<open>The advertisement\<close>

record Advertisement =
  ad_nonce :: ProximityNonce
  ad_kind :: string
  ad_uuids :: "string list"
  ad_tx_power :: i16

record bus_state =
  bus_served :: "path \<rightharpoonup> Advertisement"
  bus_calls :: "(string \<times> path) list"
  bus_released :: bool

definition advertisement_release :: "bus_state \<Rightarrow> bus_state" where
  "advertisement_release w = w\<lparr>bus_released := True\<rparr>"

definition advertisement_type :: "Advertisement \<Rightarrow> string" where
  "advertisement_type ad = ad_kind ad"

definition service_uuids :: "Advertisement \<Rightarrow> string list" where
  "service_uuids ad = ad_uuids ad"

text \<open>\<open>OwnedValue::try_from\<close> on the payload may fail; the map is then empty.\<close>

definition service_data :: "(bytes \<Rightarrow> bytes result) \<Rightarrow> Advertisement \<Rightarrow> string \<rightharpoonup> bytes" where
  "service_data to_owned ad =
     (case to_owned (nonce_bytes (ad_nonce ad)) of
        Inr owned \<Rightarrow> Map.empty(PROXIMITY_SERVICE_UUID \<mapsto> owned)
      | Inl e \<Rightarrow> Map.empty)"

definition tx_power :: "Advertisement \<Rightarrow> i16" where
  "tx_power ad = ad_tx_power ad"

subsection \<open>The beacon\<close>

record Beacon =
  bc_adapter :: path
  bc_path :: path

record bus_calls_env =
  be_object_path :: "string \<Rightarrow> unit result"
  be_system :: "unit result"
  be_serve :: "unit result"
  be_build :: "unit result"
  be_proxy :: "unit result"
  be_call :: "string \<Rightarrow> unit result"

definition beacon_manager :: "bus_calls_env \<Rightarrow> unit result" where
  "beacon_manager E = with_context ''reaching org.bluez.LEAdvertisingManager1'' (be_proxy E)"

text \<open>A method call on the manager, which BlueZ sees even when it answers with an error.\<close>

definition manager_call ::
  "bus_calls_env \<Rightarrow> string \<Rightarrow> Beacon \<Rightarrow> bus_state \<Rightarrow> unit result \<times> bus_state" where
  "manager_call E method b w =
     (case beacon_manager E of
        Inl e \<Rightarrow> (Inl e, w)
      | Inr _ \<Rightarrow>
          (with_context (method @ '' rejected by BlueZ'') (be_call E method),
           w\<lparr>bus_calls := bus_calls w @ [(method, bc_path b)]\<rparr>))"

definition beacon_register :: "bus_calls_env \<Rightarrow> Beacon \<Rightarrow> bus_state \<Rightarrow> unit result \<times> bus_state" where
  "beacon_register E b w = manager_call E ''RegisterAdvertisement'' b w"

text \<open>
  The beacon owns its connection: when \<open>start\<close> fails after the beacon was built, and at the end
  of \<open>stop\<close>, the beacon is dropped and with its connection the object served on it.
\<close>

definition close_connection :: "Beacon \<Rightarrow> bus_state \<Rightarrow> bus_state" where
  "close_connection b w = w\<lparr>bus_served := (bus_served w)(bc_path b := None)\<rparr>"

definition beacon_start ::
  "bus_calls_env \<Rightarrow> string \<Rightarrow> ProximityNonce \<Rightarrow> bus_state \<Rightarrow> Beacon result \<times> bus_state" where
  "beacon_start E adapter nonce w =
     (case tryR (with_context ''building the advertisement object path''
                  (be_object_path E ADVERTISEMENT_PATH)) (\<lambda>_.
           tryR (with_context (adapter @ '' is not a valid adapter object path'')
                  (be_object_path E adapter)) (\<lambda>_.
           tryR (with_context ''connecting to the system bus'' (be_system E)) (\<lambda>_.
           tryR (with_context ''serving the advertisement object'' (be_serve E)) (\<lambda>_.
             with_context ''starting the system bus connection'' (be_build E))))) of
        Inl e \<Rightarrow> (Inl e, w)
      | Inr _ \<Rightarrow>
          (let ad = \<lparr>ad_nonce = nonce, ad_kind = ''peripheral'', ad_uuids = [PROXIMITY_SERVICE_UUID],
                     ad_tx_power = MIN_TX_POWER_DBM\<rparr>;
               beacon = \<lparr>bc_adapter = adapter, bc_path = ADVERTISEMENT_PATH\<rparr>;
               w' = w\<lparr>bus_served := (bus_served w)(ADVERTISEMENT_PATH \<mapsto> ad), bus_released := False\<rparr>
           in case beacon_register E beacon w' of
                (Inl e, w'') \<Rightarrow> (Inl e, close_connection beacon w'')
              | (Inr _, w'') \<Rightarrow> (Inr beacon, w'')))"

definition beacon_stop :: "bus_calls_env \<Rightarrow> Beacon \<Rightarrow> bus_state \<Rightarrow> unit result \<times> bus_state" where
  "beacon_stop E b w =
     (if bus_released w then (Inr (), close_connection b w)
      else case manager_call E ''UnregisterAdvertisement'' b w of
             (r, w') \<Rightarrow> (r, close_connection b w'))"

subsection \<open>selftest.rs\<close>

record Options =
  so_adapter :: string
  so_seconds :: u64

fun selftest_flags :: "string list \<Rightarrow> Options \<Rightarrow> string + Options" where
  "selftest_flags [] opts = Inr opts"
| "selftest_flags (arg # rest) opts =
     (if arg = ''--adapter'' then
        (case rest of
           [] \<Rightarrow> Inl ''--adapter needs a D-Bus object path''
         | x # rest' \<Rightarrow> selftest_flags rest' (opts\<lparr>so_adapter := x\<rparr>))
      else if arg = ''--seconds'' then
        (case rest of
           [] \<Rightarrow> Inl ''--seconds needs a number''
         | x # rest' \<Rightarrow>
             (case parse_unsigned 64 x of
                Inl e \<Rightarrow> Inl (x @ '' is not a number'')
              | Inr n \<Rightarrow> selftest_flags rest' (opts\<lparr>so_seconds := of_nat n\<rparr>)))
      else Inl (''unknown argument '' @ arg))"

definition selftest_options :: "string list \<Rightarrow> string + Options" where
  "selftest_options args = selftest_flags args \<lparr>so_adapter = ''/org/bluez/hci0'', so_seconds = 5\<rparr>"

text \<open>What the self-test reports: it succeeds only if the beacon went up and came down.\<close>

definition selftest_main ::
  "bus_calls_env \<Rightarrow> bytes result \<Rightarrow> (bus_state \<Rightarrow> bus_state) \<Rightarrow> string list \<Rightarrow> bus_state \<Rightarrow> bool \<times> bus_state" where
  "selftest_main E entropy while_up args w =
     (case selftest_options args of
        Inl message \<Rightarrow> (False, w)
      | Inr options \<Rightarrow>
          (case nonce_generate entropy of
             Inl e \<Rightarrow> (False, w)
           | Inr nonce \<Rightarrow>
               (case beacon_start E (so_adapter options) nonce w of
                  (Inl e, w') \<Rightarrow> (False, w')
                | (Inr beacon, w') \<Rightarrow>
                    (case beacon_stop E beacon (while_up w') of
                       (Inr _, w'') \<Rightarrow> (True, w'')
                     | (Inl e, w'') \<Rightarrow> (False, w'')))))"

subsection \<open>Lemmas\<close>

lemma beacon_start_InrD:
  assumes "beacon_start E adapter nonce w = (Inr b, w1)"
  shows "bc_path b = ADVERTISEMENT_PATH \<and> \<not> bus_released w1
    \<and> bus_calls w1 = bus_calls w @ [(''RegisterAdvertisement'', ADVERTISEMENT_PATH)]
    \<and> bus_served w1 ADVERTISEMENT_PATH = Some \<lparr>ad_nonce = nonce, ad_kind = ''peripheral'',
        ad_uuids = [PROXIMITY_SERVICE_UUID], ad_tx_power = MIN_TX_POWER_DBM\<rparr>"
  using assms
  by (auto simp: beacon_start_def beacon_register_def manager_call_def Let_def split: sum.splits)

subsection \<open>Properties\<close>

text \<open>
  C37. The life of a beacon: once started it advertises exactly the nonce it was given under
  the proximity service, registered with BlueZ once; stopping it, whatever the bus does by
  then, asks BlueZ once to withdraw that advertisement if the manager can be reached, and not
  at all if BlueZ has released it, which \<open>stop\<close> then reports as success; and either way the
  nonce is no longer served.
\<close>

theorem beacon_lifecycle:
  assumes "beacon_start E adapter (Nonce bs) w = (Inr b, w1)" and "\<And>x. to_owned x = Inr x"
  shows "\<exists>ad. bus_served w1 (bc_path b) = Some ad
    \<and> service_data to_owned ad = [PROXIMITY_SERVICE_UUID \<mapsto> bs]
    \<and> service_uuids ad = [PROXIMITY_SERVICE_UUID]
    \<and> bus_calls w1 = bus_calls w @ [(''RegisterAdvertisement'', bc_path b)]
    \<and> fst (beacon_stop E' b (advertisement_release w1)) = Inr ()
    \<and> bus_calls (snd (beacon_stop E' b (advertisement_release w1))) = bus_calls w1
    \<and> (beacon_manager E' = Inr () \<longrightarrow> bus_calls (snd (beacon_stop E' b w1)) =
         bus_calls w1 @ [(''UnregisterAdvertisement'', bc_path b)])
    \<and> (\<forall>w2. bus_served (snd (beacon_stop E' b w2)) (bc_path b) = None)"
proof -
  have "bus_served (snd (beacon_stop E' b w2)) (bc_path b) = None" for w2
    by (simp add: beacon_stop_def close_connection_def split: prod.splits)
  then show ?thesis
    using beacon_start_InrD [OF assms(1)] assms(2)
    by (simp add: service_data_def service_uuids_def beacon_stop_def advertisement_release_def
        manager_call_def close_connection_def)
qed

theorem beacon_lifecycle_witness:
  "\<exists>E b w1. beacon_start E ''/org/bluez/hci0'' (Nonce (replicate 16 7))
       \<lparr>bus_served = Map.empty, bus_calls = [], bus_released = False\<rparr> = (Inr b, w1)
     \<and> bus_calls (snd (beacon_stop E b w1)) =
         [(''RegisterAdvertisement'', bc_path b), (''UnregisterAdvertisement'', bc_path b)]"
proof -
  let ?E = "\<lparr>be_object_path = (\<lambda>_. Inr ()), be_system = Inr (), be_serve = Inr (), be_build = Inr (),
     be_proxy = Inr (), be_call = (\<lambda>_. Inr ())\<rparr>"
  let ?w = "\<lparr>bus_served = Map.empty, bus_calls = [], bus_released = False\<rparr>"
  obtain b w1 where s: "beacon_start ?E ''/org/bluez/hci0'' (Nonce (replicate 16 7)) ?w = (Inr b, w1)"
    by (simp add: beacon_start_def beacon_register_def manager_call_def beacon_manager_def Let_def)
  from beacon_lifecycle [OF s, of Inr ?E] s show ?thesis
    by (intro exI [of _ ?E] exI [of _ b] exI [of _ w1]) (auto simp: beacon_manager_def)
qed

end
