(* ===== verification/Spec2Isabelle.thy ===== *)
theory Spec2Isabelle
  imports Progress Uhid Cli Proximity
begin

text \<open>
  \<^bold>\<open>kpasskey: the daemon side, modelled and verified.\<close>

  kpasskey lets a phone authorise decisions on a KDE desktop. This library models the Rust
  crates under \<open>daemon/crates\<close>: \<open>kpk-spike\<close>, which holds the daemon, the FIDO helper and the
  command line clients, and \<open>kpk-proximity\<close>, the Bluetooth beacon. Paths below are relative
  to \<open>daemon/crates/kpk-spike/src\<close> unless they say otherwise.

  \<^bold>\<open>How the program works.\<close> The daemon (\<open>server.rs\<close>) accepts phones on a TCP port and local
  clients on a Unix socket. A PAM client asks for a verification: the daemon takes an id,
  draws a challenge, registers a waiter under the id, sends one JSON line to the phone
  (\<open>protocol.rs\<close>) and waits, up to a timeout, for the reading task of a phone connection to hand
  it the reply; it accepts only a signature, under the key of the paired device (\<open>link.rs\<close>,
  \<open>store.rs\<close>), over the very line it sent. System Settings opens pairing windows and edits the
  device list over D-Bus (\<open>dbus.rs\<close>, \<open>pairing.rs\<close>). The FIDO helper (\<open>uhid.rs\<close>) is a virtual USB
  security key: it reassembles CTAPHID reports, answers the CTAP2 commands (\<open>webauthn.rs\<close>) and
  sends the two that need a person to the daemon (\<open>fidolink.rs\<close>), which asks the phone.

  \<^bold>\<open>Foundations.\<close>
    \<^item> \<open>Prelude\<close>: bytes as \<open>8 word\<close>, \<open>anyhow\<close> errors as the list of their contexts, \<open>?\<close> as
      \<open>tryR\<close>, and lemma collections the other theories share.
    \<^item> \<open>RustStd\<close>: what the code uses of the standard library: \<open>read_line\<close>, \<open>trim\<close>, number
      formatting and parsing, paths and extensions. A \<open>String\<close> is its UTF-8 bytes as characters.
    \<^item> \<open>Bytes\<close>: \<open>put\<close> and \<open>take\<close> of \<open>uhid.rs\<close> and the integer encodings, with the locale
      \<open>fixed_codec\<close>, interpreted for big-endian and native integers.
    \<^item> \<open>Crates\<close>: the third-party crates as parameters (\<open>serde_json\<close>, \<open>base64\<close>, \<open>sha2\<close>, \<open>p256\<close>,
      \<open>ciborium\<close>), and their documented behaviour as named laws (\<open>json_objects_ok\<close>,
      \<open>json_text_ok\<close>, \<open>base64_ok\<close>, \<open>sha256_ok\<close>, \<open>ciborium_ok\<close>). \<open>Instances\<close> gives each a concrete
      instance that satisfies its law, a JSON printer and parser among them; witnesses use them.
    \<^item> \<open>Tables\<close>: the locales \<open>keyed_table\<close> and \<open>claim_table\<close>, interpreted in \<open>Store\<close> on the device
      directory and in \<open>Server\<close> on the two waiter tables.

  \<^bold>\<open>The FIDO helper.\<close>
    \<^item> \<open>Webauthn\<close>: \<open>webauthn.rs\<close>, the request parsers, layouts and responses.
    \<^item> \<open>Ctaphid\<close>: \<open>frame\<close>, \<open>handle_report\<close> and \<open>dispatch\<close>. The record \<open>hid_state\<close> is the two locals
      of \<open>run\<close> they change. \<open>Framing\<close> proves the round trip, the refinement of a reference
      reassembler, the invariant of the message being assembled, the one way a report can fail,
      and where the sequence numbers overflow. A CTAPHID message has at most 57 + 128 * 59 = 7609
      bytes, which is the bound of the round trip.
    \<^item> \<open>Fidolink\<close>: \<open>fidolink.rs\<close>, with the agreement between the helper and the daemon.
    \<^item> \<open>Uhid\<close>: the rest of \<open>uhid.rs\<close>: kernel events, the two credential commands, waiting for
      the phone with keep-alives, and the event loop. \<open>run\<close> and \<open>recv_timeout\<close> may go on for ever:
      the loop is a function of the events read so far and of the outcomes of waiting so far,
      and the value \<open>None\<close> says that it has not returned yet; no fuel is used. \<open>site_accepts\<close> is
      the check a web site makes of an assertion; the helper makes none.

  \<^bold>\<open>The daemon.\<close>
    \<^item> \<open>Link\<close>, \<open>Pairing\<close>, \<open>Protocol\<close>, \<open>Store\<close>, \<open>Dbus\<close>: the files of those names. \<open>Pairing\<close> has the
      locale \<open>single_use_window\<close>, interpreted on \<open>take_matching\<close>. Instants are nanoseconds, read
      once for each reading of the code.
    \<^item> \<open>Server\<close>: the record \<open>daemon\<close> is \<open>Daemon\<close> with the device directory and what was written
      to the phone. A \<open>oneshot\<close> channel is named by the task that waits on it and is a mailbox.
      Each \<open>async\<close> method is cut where it may be suspended: \<open>run_verification\<close> is
      \<open>start_verification\<close>, \<open>insert_waiter\<close>, \<open>send_verification\<close>, \<open>finish_verification\<close>, and \<open>ask_phone\<close>
      is \<open>start_ask\<close>, \<open>insert_json_waiter\<close>, \<open>send_ask\<close>, \<open>finish_ask\<close>.
    \<^item> \<open>Concurrency\<close>: the relation \<open>step\<close> interleaves those pieces for any number of tasks with
      phone lines, the accept loop of \<open>serve\<close> and D-Bus calls; \<open>reachable\<close> is its closure from
      \<open>daemon_new\<close>. A send is two steps: taking the lock of \<open>outbound\<close> (\<open>sy_writer\<close>) and the return
      of the write, which nothing bounds, as in \<open>send_line\<close>. \<open>accept_phone\<close>, \<open>finish_adopting\<close> and
      \<open>accept_pam\<close> are the arms of the accept loop, which waits in \<open>adopt_phone\<close> for that lock
      (\<open>sy_adopting\<close>). The ids are \<open>64 word\<close> and wrap; where uniqueness matters the theorem says
      that fewer than \<open>2 ^ 64\<close> were taken.
    \<^item> \<open>Waiters\<close>: the abstract waiter protocol \<open>table_step\<close> on one table, its invariants, and the
      simulation of the daemon's steps by it. \<open>Scenario\<close> runs the model on a concrete
      verification. \<open>Safety\<close> proves what the daemon promises: approvals are authentic, replies
      reach their tasks and are used once, waiters are withdrawn. \<open>Progress\<close> proves how a
      verification moves on and is decided, and what a write that never returns does to the
      daemon.
    \<^item> \<open>Enrolment\<close>: pairing from the phone's line to the stored record, and the round trips
      between the daemon and its clients (\<open>probe\<close>, \<open>import\<close> in \<open>server.rs\<close>).
    \<^item> \<open>Cli\<close>: the command line in \<open>main.rs\<close>. \<open>Proximity\<close>: \<open>kpk-proximity/src/lib.rs\<close> and
      \<open>bin/selftest.rs\<close>.

  \<^bold>\<open>Conventions.\<close> An input record or argument stands for everything the code reads from
  outside: the outcome of each system call, clocks, entropy, the environment, the order of a
  directory listing. A theorem holds for all of them unless a hypothesis names one. Logging
  and printing are left out. The stretches between two suspension points are atomic, which is
  what the single-threaded runtime of \<open>main.rs\<close> gives. The handling of one phone line, with
  \<open>complete_pairing\<close> and the answer to a pairing request, is taken as one step that does not
  look at who holds the writer, although the code may be suspended at the locks and at the
  socket write in it. A write that fails is taken to have written nothing.

  \<^bold>\<open>Not modelled.\<close> \<open>serve\<close> in \<open>dbus.rs\<close>, \<open>main\<close> in \<open>main.rs\<close> and the set-up in \<open>serve\<close> of
  \<open>server.rs\<close> before its accept loop, which bind sockets and start the runtime: glue over \<open>tokio\<close> and \<open>zbus\<close>. \<open>self_test\<close> in \<open>server.rs\<close>, which
  exercises \<open>p256\<close> with ephemeral keys. The Android application, the System Settings module, the
  PAM test module, units and scripts: other programs in other languages.
\<close>

end
